(* ===== verification/Prelude.thy ===== *)
theory Prelude
  imports Main "HOL-Library.Word"
begin

text \<open>
  What every component shares.

  \<^item> Machine integers. The workspace is built with \<open>overflow-checks = true\<close>
    (\<^verbatim>\<open>src/Cargo.toml\<close>, profile release), so \<open>+\<close>, \<open>-\<close> and \<open>*\<close> on Rust integers
    panic where they would wrap. An integer is a word of its width and the operators are
    the checked \<open>add\<close>, \<open>sub\<close>, \<open>mul\<close> and \<open>div\<close> below. Each comes with one law that reads its success
    as an equation over \<^const>\<open>unat\<close>, so proofs about 64-bit code are proofs over the naturals.
  \<^item> Results. A Rust call ends with \<open>Ok\<close>, with an \<open>anyhow::Error\<close> or with a panic:
    three constructors of \<open>outcome\<close>. The operator \<open>?\<close> is \<open>and_then\<close>.
  \<^item> Effects. A method on \<open>&mut self\<close> that talks to services is an \<open>action\<close>: it takes
    the state and gives the outcome together with the state it leaves, on errors too. A small
    Hoare logic (\<open>triple\<close>, \<open>keeps\<close>) over actions carries the invariant proofs.
  \<^item> Transition systems: \<open>reach\<close>, and the locale \<open>safe_system\<close> whose lemma turns a
    one-step invariant into a fact about every reachable state.
\<close>

named_theorems nat_view \<open>laws that turn facts on words into facts on naturals\<close>
named_theorems keeps_rules \<open>composition rules of the invariant logic\<close>

section \<open>Results\<close>

text \<open>
  The error enum of the L1 transaction pipeline, and the errors that \<open>anyhow::Error\<close> carries
  here: a message, or a transaction error that a caller may downcast to.
\<close>

datatype transaction_error =
    BuildFailed
  | EstimationFailed
  | EstimationTooEarly
  | TransactionReverted
  | NotConfirmed
  | UnsupportedTransactionType
  | GetBlockNumberFailed
  | InsufficientFunds
  | ReanchorRequired
  | OldestForcedInclusionDue
  | NotTheOperatorInCurrentEpoch

datatype error = Anyhow string | TxError transaction_error

datatype 'a outcome = Ok 'a | Err error | Panic

fun and_then :: "'a outcome \<Rightarrow> ('a \<Rightarrow> 'b outcome) \<Rightarrow> 'b outcome" where
  "and_then (Ok a) f = f a"
| "and_then (Err e) f = Err e"
| "and_then Panic f = Panic"

fun ok_or :: "'a option \<Rightarrow> string \<Rightarrow> 'a outcome" where
  "ok_or (Some a) msg = Ok a"
| "ok_or None msg = Err (Anyhow msg)"

fun is_ok :: "'a outcome \<Rightarrow> bool" where
  "is_ok (Ok a) = True"
| "is_ok (Err e) = False"
| "is_ok Panic = False"

lemma and_then_Ok_iff [simp]:
  "and_then m f = Ok b \<longleftrightarrow> (\<exists>a. m = Ok a \<and> f a = Ok b)"
  by (cases m) auto

lemma and_then_Panic_iff:
  "and_then m f = Panic \<longleftrightarrow> m = Panic \<or> (\<exists>a. m = Ok a \<and> f a = Panic)"
  by (cases m) auto

lemma and_then_Err_iff:
  "and_then m f = Err e \<longleftrightarrow> m = Err e \<or> (\<exists>a. m = Ok a \<and> f a = Err e)"
  by (cases m) auto

lemma and_then_assoc: "and_then (and_then m f) g = and_then m (\<lambda>a. and_then (f a) g)"
  by (cases m) auto

lemma and_then_cong [fundef_cong]:
  "m = m' \<Longrightarrow> (\<And>a. m' = Ok a \<Longrightarrow> f a = g a) \<Longrightarrow> and_then m f = and_then m' g"
  by (cases m') auto

lemma ok_or_Ok_iff [simp]: "ok_or x msg = Ok a \<longleftrightarrow> x = Some a"
  by (cases x) auto

lemma ok_or_not_Panic [simp]: "ok_or x msg \<noteq> Panic"
  by (cases x) auto

lemma is_ok_iff: "is_ok m \<longleftrightarrow> (\<exists>a. m = Ok a)"
  by (cases m) auto

section \<open>Machine integers\<close>

type_synonym u8 = "8 word"
type_synonym u16 = "16 word"
type_synonym u32 = "32 word"
type_synonym u64 = "64 word"
type_synonym u128 = "128 word"
type_synonym address = "160 word"
type_synonym b256 = "256 word"

definition add :: "'a::len word \<Rightarrow> 'a word \<Rightarrow> 'a word outcome" where
  "add a b = (if unat a + unat b < 2 ^ LENGTH('a) then Ok (a + b) else Panic)"

definition sub :: "'a::len word \<Rightarrow> 'a word \<Rightarrow> 'a word outcome" where
  "sub a b = (if b \<le> a then Ok (a - b) else Panic)"

definition mul :: "'a::len word \<Rightarrow> 'a word \<Rightarrow> 'a word outcome" where
  "mul a b = (if unat a * unat b < 2 ^ LENGTH('a) then Ok (a * b) else Panic)"

definition div_chk :: "'a::len word \<Rightarrow> 'a word \<Rightarrow> 'a word outcome" where
  "div_chk a b = (if b = 0 then Panic else Ok (a div b))"

definition rem_chk :: "'a::len word \<Rightarrow> 'a word \<Rightarrow> 'a word outcome" where
  "rem_chk a b = (if b = 0 then Panic else Ok (a mod b))"

definition checked_sub :: "'a::len word \<Rightarrow> 'a word \<Rightarrow> 'a word option" where
  "checked_sub a b = (if b \<le> a then Some (a - b) else None)"

definition saturating_sub :: "'a::len word \<Rightarrow> 'a word \<Rightarrow> 'a word" where
  "saturating_sub a b = (if b \<le> a then a - b else 0)"

definition saturating_add :: "'a::len word \<Rightarrow> 'a word \<Rightarrow> 'a word" where
  "saturating_add a b = (if unat a + unat b < 2 ^ LENGTH('a) then a + b else - 1)"

text \<open>\<open>TryFrom\<close> between integer types; the wide side is read as a natural.\<close>

definition try_from :: "nat \<Rightarrow> 'a::len word outcome" where
  "try_from n = (if n < 2 ^ LENGTH('a) then Ok (of_nat n)
                 else Err (Anyhow ''out of range integral type conversion attempted''))"

lemma unat_minus_le: "b \<le> a \<Longrightarrow> unat (a - b) = unat a - unat (b :: 'a::len word)"
  by (simp add: unat_sub)

lemma unat_of_nat_lt:
  "n < 2 ^ LENGTH('a) \<Longrightarrow> unat (of_nat n :: 'a::len word) = n"
  by (simp add: unat_of_nat take_bit_nat_eq_self)

lemma unat_lt_len [simp]: "unat (a :: 'a::len word) < 2 ^ LENGTH('a)"
  by (rule unsigned_less)

lemma ex_unat_iff: "(\<exists>w :: 'a::len word. unat w = n) \<longleftrightarrow> n < 2 ^ LENGTH('a)"
  by (metis unat_of_nat_lt unat_lt_len)

lemma unat_u64_lt: "unat (a :: u64) < 18446744073709551616"
  using unat_lt_len [of a] by simp

lemma unat_u16_lt: "unat (a :: u16) < 65536"
  using unat_lt_len [of a] by simp

lemma add_Ok_iff [simp, nat_view]: "add a b = Ok c \<longleftrightarrow> unat c = unat a + unat b"
proof
  assume "add a b = Ok c"
  then show "unat c = unat a + unat b"
    by (auto simp: add_def unat_word_ariths split: if_splits)
next
  assume c: "unat c = unat a + unat b"
  then have lt: "unat a + unat b < 2 ^ LENGTH('a)"
    using unat_lt_len [of c] by simp
  then have "unat (a + b) = unat c"
    by (simp add: c unat_word_ariths)
  with lt show "add a b = Ok c"
    by (simp add: add_def word_unat_eq_iff)
qed

lemma sub_Ok_iff [simp, nat_view]: "sub a b = Ok c \<longleftrightarrow> unat a = unat c + unat b"
proof
  assume "sub a b = Ok c"
  then show "unat a = unat c + unat b"
    by (auto simp: sub_def unat_minus_le word_le_nat_alt split: if_splits)
next
  assume eq: "unat a = unat c + unat b"
  then have "b \<le> a" by (simp add: word_le_nat_alt)
  moreover from this have "unat (a - b) = unat c"
    by (simp add: unat_minus_le eq)
  ultimately show "sub a b = Ok c"
    by (simp add: sub_def word_unat_eq_iff)
qed

lemma mul_Ok_iff [simp, nat_view]: "mul a b = Ok c \<longleftrightarrow> unat c = unat a * unat b"
proof
  assume "mul a b = Ok c"
  then show "unat c = unat a * unat b"
    by (auto simp: mul_def unat_word_ariths split: if_splits)
next
  assume c: "unat c = unat a * unat b"
  then have lt: "unat a * unat b < 2 ^ LENGTH('a)"
    using unat_lt_len [of c] by simp
  then have "unat (a * b) = unat c"
    by (simp add: c unat_word_ariths)
  with lt show "mul a b = Ok c"
    by (simp add: mul_def word_unat_eq_iff)
qed

lemma div_chk_Ok_iff [simp, nat_view]:
  "div_chk a b = Ok c \<longleftrightarrow> b \<noteq> 0 \<and> unat c = unat a div unat b"
  by (auto simp: div_chk_def word_unat_eq_iff unat_div)

lemma rem_chk_Ok_iff [simp, nat_view]:
  "rem_chk a b = Ok c \<longleftrightarrow> b \<noteq> 0 \<and> unat c = unat a mod unat b"
  by (auto simp: rem_chk_def word_unat_eq_iff unat_mod)

lemma checked_sub_Some_iff [simp, nat_view]:
  "checked_sub a b = Some c \<longleftrightarrow> unat a = unat c + unat b"
  using sub_Ok_iff [of a b c] by (auto simp: checked_sub_def sub_def split: if_splits)

lemma checked_sub_None_iff [simp, nat_view]: "checked_sub a b = None \<longleftrightarrow> unat a < unat b"
  by (auto simp: checked_sub_def word_le_nat_alt)

lemma unat_saturating_sub [simp, nat_view]: "unat (saturating_sub a b) = unat a - unat b"
  by (auto simp: saturating_sub_def unat_minus_le word_le_nat_alt)

lemma try_from_Ok_iff [simp, nat_view]: "try_from n = Ok (c :: 'a::len word) \<longleftrightarrow> unat c = n"
proof
  assume "try_from n = Ok c"
  then show "unat c = n"
    by (auto simp: try_from_def unat_of_nat_lt split: if_splits)
next
  assume "unat c = n"
  then show "try_from n = Ok c"
    using unat_lt_len [of c] by (auto simp: try_from_def)
qed

lemma try_from_not_Panic [simp]: "try_from n \<noteq> Panic"
  by (simp add: try_from_def)

lemma add_not_Err [simp]: "add a b \<noteq> Err e"
  by (simp add: add_def)

lemma sub_not_Err [simp]: "sub a b \<noteq> Err e"
  by (simp add: sub_def)

lemma mul_not_Err [simp]: "mul a b \<noteq> Err e"
  by (simp add: mul_def)

lemma div_chk_not_Err [simp]: "div_chk a b \<noteq> Err e"
  by (simp add: div_chk_def)

lemma sub_Panic_iff [simp, nat_view]: "sub a b = Panic \<longleftrightarrow> unat a < unat b"
  by (auto simp: sub_def word_le_nat_alt)

lemma add_Panic_iff [simp, nat_view]:
  "add a b = Panic \<longleftrightarrow> 2 ^ LENGTH('a) \<le> unat (a :: 'a::len word) + unat b"
  by (auto simp: add_def)

lemma mul_Panic_iff [simp, nat_view]:
  "mul a b = Panic \<longleftrightarrow> 2 ^ LENGTH('a) \<le> unat (a :: 'a::len word) * unat b"
  by (auto simp: mul_def)

lemma div_chk_Panic_iff [simp, nat_view]: "div_chk a b = Panic \<longleftrightarrow> b = 0"
  by (simp add: div_chk_def)

lemmas word_order_nat [nat_view] = word_le_nat_alt word_less_nat_alt

lemma less_imp_Suc:
  assumes "(a :: 'a::len word) < b"
  shows "unat a < unat b \<and> unat (a + 1) = Suc (unat a)"
proof -
  have lt: "unat a < unat b" using assms by (simp add: word_less_nat_alt)
  then have "unat a + 1 \<le> unat b" by simp
  then have "unat a + 1 < 2 ^ LENGTH('a)" by (rule le_less_trans) (rule unat_lt_len)
  moreover have "unat (1 :: 'a word) = 1" by simp
  ultimately have "unat (a + 1) = Suc (unat a)" by (simp add: unat_word_ariths)
  with lt show ?thesis by blast
qed

text \<open>For evaluation at concrete arguments.\<close>

lemmas eval_arith = add_def sub_def mul_def div_chk_def rem_chk_def checked_sub_def
  saturating_sub_def saturating_add_def try_from_def

section \<open>Actions\<close>

type_synonym ('s, 'a) action = "'s \<Rightarrow> 'a outcome \<times> 's"

definition return :: "'a \<Rightarrow> ('s, 'a) action" where
  "return a s = (Ok a, s)"

definition raise :: "error \<Rightarrow> ('s, 'a) action" where
  "raise e s = (Err e, s)"

definition lift :: "'a outcome \<Rightarrow> ('s, 'a) action" where
  "lift r s = (r, s)"

definition bind :: "('s, 'a) action \<Rightarrow> ('a \<Rightarrow> ('s, 'b) action) \<Rightarrow> ('s, 'b) action" where
  "bind m f s = (case m s of
      (Ok a, s') \<Rightarrow> f a s'
    | (Err e, s') \<Rightarrow> (Err e, s')
    | (Panic, s') \<Rightarrow> (Panic, s'))"

text \<open>\<open>match call().await { Ok(..) => .., Err(..) => .. }\<close>: a panic still unwinds.\<close>

definition attempt ::
  "('s, 'a) action \<Rightarrow> ('a \<Rightarrow> ('s, 'b) action) \<Rightarrow> (error \<Rightarrow> ('s, 'b) action) \<Rightarrow> ('s, 'b) action" where
  "attempt m f h s = (case m s of
      (Ok a, s') \<Rightarrow> f a s'
    | (Err e, s') \<Rightarrow> h e s'
    | (Panic, s') \<Rightarrow> (Panic, s'))"

definition gets :: "('s \<Rightarrow> 'a) \<Rightarrow> ('s, 'a) action" where
  "gets f s = (Ok (f s), s)"

definition modify :: "('s \<Rightarrow> 's) \<Rightarrow> ('s, unit) action" where
  "modify f s = (Ok (), f s)"

text \<open>A method call on a component of the state.\<close>

definition zoom :: "('s \<Rightarrow> 't) \<Rightarrow> ('t \<Rightarrow> 's \<Rightarrow> 's) \<Rightarrow> ('t, 'a) action \<Rightarrow> ('s, 'a) action" where
  "zoom get put m s = (case m (get s) of (r, t) \<Rightarrow> (r, put t s))"

lemmas action_defs = return_def raise_def lift_def gets_def modify_def

lemma bind_Ok_iff:
  "bind m f s = (Ok b, t) \<longleftrightarrow> (\<exists>a s'. m s = (Ok a, s') \<and> f a s' = (Ok b, t))"
  by (auto simp: bind_def split: prod.splits outcome.splits)

lemma bind_simps [simp]:
  "bind (return a) f s = f a s"
  "bind (raise e) f s = (Err e, s)"
  "bind (gets g) f s = f (g s) s"
  "bind (modify h) k s = k () (h s)"
  by (simp_all add: bind_def action_defs)

lemma bind_lift_Ok [simp]: "bind (lift (Ok a)) f s = f a s"
  by (simp add: bind_def lift_def)

lemma bind_lift_Panic [simp]: "bind (lift Panic) f s = (Panic, s)"
  by (simp add: bind_def lift_def)

lemma bind_lift_Err [simp]: "bind (lift (Err e)) f s = (Err e, s)"
  by (simp add: bind_def lift_def)

definition triple ::
  "('s \<Rightarrow> bool) \<Rightarrow> ('s, 'a) action \<Rightarrow> ('a outcome \<Rightarrow> 's \<Rightarrow> bool) \<Rightarrow> bool" where
  "triple P m Q \<longleftrightarrow> (\<forall>s. P s \<longrightarrow> Q (fst (m s)) (snd (m s)))"

abbreviation keeps :: "('s \<Rightarrow> bool) \<Rightarrow> ('s, 'a) action \<Rightarrow> bool" where
  "keeps I m \<equiv> triple I m (\<lambda>_. I)"

lemma tripleD: "triple P m Q \<Longrightarrow> P s \<Longrightarrow> m s = (r, t) \<Longrightarrow> Q r t"
  by (auto simp: triple_def)

lemma tripleI: "(\<And>s r t. P s \<Longrightarrow> m s = (r, t) \<Longrightarrow> Q r t) \<Longrightarrow> triple P m Q"
  by (auto simp: triple_def)

lemma triple_bind:
  assumes "triple P m (\<lambda>r s. case r of Ok a \<Rightarrow> R a s | Err e \<Rightarrow> Q (Err e) s | Panic \<Rightarrow> Q Panic s)"
    and "\<And>a. triple (R a) (f a) Q"
  shows "triple P (bind m f) Q"
  using assms by (fastforce simp: triple_def bind_def split: prod.splits outcome.splits)

lemma keeps_return [keeps_rules]: "keeps I (return a)"
  by (simp add: triple_def return_def)

lemma keeps_raise [keeps_rules]: "keeps I (raise e)"
  by (simp add: triple_def raise_def)

lemma keeps_lift [keeps_rules]: "keeps I (lift r)"
  by (simp add: triple_def lift_def)

lemma keeps_gets [keeps_rules]: "keeps I (gets f)"
  by (simp add: triple_def gets_def)

lemma keeps_modify: "(\<And>s. I s \<Longrightarrow> I (f s)) \<Longrightarrow> keeps I (modify f)"
  by (simp add: triple_def modify_def)

lemma keeps_bind [keeps_rules]:
  "keeps I m \<Longrightarrow> (\<And>a. keeps I (f a)) \<Longrightarrow> keeps I (bind m f)"
  by (fastforce simp: triple_def bind_def split: prod.splits outcome.splits)

lemma keeps_attempt [keeps_rules]:
  "keeps I m \<Longrightarrow> (\<And>a. keeps I (f a)) \<Longrightarrow> (\<And>e. keeps I (h e)) \<Longrightarrow> keeps I (attempt m f h)"
  by (fastforce simp: triple_def attempt_def split: prod.splits outcome.splits)

lemma keeps_zoom:
  assumes "keeps J m" "\<And>s. I s \<Longrightarrow> J (get s)" "\<And>s t. I s \<Longrightarrow> J t \<Longrightarrow> I (put t s)"
  shows "keeps I (zoom get put m)"
  using assms by (auto simp: triple_def zoom_def split: prod.splits) (metis fst_conv snd_conv)

lemma keeps_if [keeps_rules]:
  "(b \<Longrightarrow> keeps I m) \<Longrightarrow> (\<not> b \<Longrightarrow> keeps I n) \<Longrightarrow> keeps I (if b then m else n)"
  by simp

lemma keeps_case_option [keeps_rules]:
  "(x = None \<Longrightarrow> keeps I m) \<Longrightarrow> (\<And>a. x = Some a \<Longrightarrow> keeps I (f a)) \<Longrightarrow>
   keeps I (case x of None \<Rightarrow> m | Some a \<Rightarrow> f a)"
  by (cases x) auto

text \<open>\<open>map_err\<close>, and \<open>or_else\<close> with a fixed value.\<close>

definition map_err :: "string \<Rightarrow> ('s, 'a) action \<Rightarrow> ('s, 'a) action" where
  "map_err msg m = attempt m return (\<lambda>_. raise (Anyhow msg))"

definition or_value :: "('s, 'a) action \<Rightarrow> 'a \<Rightarrow> ('s, 'a) action" where
  "or_value m a = attempt m return (\<lambda>_. return a)"

text \<open>A call whose \<open>Result\<close> is kept as a value, and the later \<open>?\<close> on that value.\<close>

definition try_run :: "('s, 'a) action \<Rightarrow> ('s, error + 'a) action" where
  "try_run m = attempt m (\<lambda>a. return (Inr a)) (\<lambda>e. return (Inl e))"

fun unwrap :: "error + 'a \<Rightarrow> 'a outcome" where
  "unwrap (Inr a) = Ok a"
| "unwrap (Inl e) = Err e"

lemma unwrap_Ok_iff [simp]: "unwrap x = Ok a \<longleftrightarrow> x = Inr a"
  by (cases x) auto

lemma keeps_try_run [keeps_rules]: "keeps I m \<Longrightarrow> keeps I (try_run m)"
  unfolding try_run_def by (intro keeps_attempt keeps_return)

text \<open>A \<open>for\<close> loop with \<open>?\<close> in its body, and the inclusive range \<open>a..=b\<close>.\<close>

fun for_each :: "('b \<Rightarrow> 'a \<Rightarrow> ('s, 'b) action) \<Rightarrow> 'b \<Rightarrow> 'a list \<Rightarrow> ('s, 'b) action" where
  "for_each f acc [] = return acc"
| "for_each f acc (x # xs) = bind (f acc x) (\<lambda>acc'. for_each f acc' xs)"

definition range_incl :: "u64 \<Rightarrow> u64 \<Rightarrow> u64 list" where
  "range_incl a b = map of_nat [unat a..<Suc (unat b)]"

lemma keeps_map_err [keeps_rules]: "keeps I m \<Longrightarrow> keeps I (map_err msg m)"
  unfolding map_err_def by (intro keeps_rules)

lemma keeps_or_value [keeps_rules]: "keeps I m \<Longrightarrow> keeps I (or_value m a)"
  unfolding or_value_def by (intro keeps_rules)

lemma keeps_for_each [keeps_rules]: "(\<And>acc x. keeps I (f acc x)) \<Longrightarrow> keeps I (for_each f acc xs)"
  by (induction xs arbitrary: acc) (auto intro!: keeps_rules)

lemma length_range_incl: "length (range_incl a b) = Suc (unat b) - unat a"
  by (simp add: range_incl_def del: upt_Suc)

lemma set_range_incl: "set (range_incl a b) = {a..b}"
proof -
  have "w \<in> of_nat ` {unat a..<Suc (unat b)}" if "a \<le> w" "w \<le> b" for w :: u64
    using that by (intro image_eqI [of _ _ "unat w"]) (auto simp: word_le_nat_alt)
  moreover have "a \<le> of_nat n \<and> of_nat n \<le> b" if n: "unat a \<le> n" "n \<le> unat b" for n
  proof -
    have "n < 2 ^ LENGTH(64)" using n(2) unat_lt_len [of b] by (rule le_less_trans)
    then have "unat (of_nat n :: u64) = n" by (rule unat_of_nat_lt)
    with n show ?thesis by (simp add: word_le_nat_alt)
  qed
  ultimately show ?thesis by (auto simp: range_incl_def simp del: upt_Suc)
qed

lemma keeps_case_sum [keeps_rules]:
  "(\<And>a. x = Inl a \<Longrightarrow> keeps I (f a)) \<Longrightarrow> (\<And>b. x = Inr b \<Longrightarrow> keeps I (g b)) \<Longrightarrow>
   keeps I (case x of Inl a \<Rightarrow> f a | Inr b \<Rightarrow> g b)"
  by (cases x) auto

lemma keeps_case_prod [keeps_rules]:
  "(\<And>a b. x = (a, b) \<Longrightarrow> keeps I (f a b)) \<Longrightarrow> keeps I (case x of (a, b) \<Rightarrow> f a b)"
  by (cases x) auto

lemma triple_conseq:
  "triple P m Q \<Longrightarrow> (\<And>s. P' s \<Longrightarrow> P s) \<Longrightarrow> (\<And>r s. Q r s \<Longrightarrow> Q' r s) \<Longrightarrow> triple P' m Q'"
  by (auto simp: triple_def)

text \<open>Steps that keep the precondition, in front of the step that matters.\<close>

lemma triple_bind_keeps:
  assumes "keeps I m" "\<And>a. triple I (f a) Q" "\<And>e s. I s \<Longrightarrow> Q (Err e) s" "\<And>s. I s \<Longrightarrow> Q Panic s"
  shows "triple I (bind m f) Q"
  using assms by (fastforce simp: triple_def bind_def split: prod.splits outcome.splits)

lemma triple_attempt_keeps:
  assumes "keeps I m" "\<And>a. triple I (f a) Q" "\<And>e. triple I (h e) Q" "\<And>s. I s \<Longrightarrow> Q Panic s"
  shows "triple I (attempt m f h) Q"
  using assms by (fastforce simp: triple_def attempt_def split: prod.splits outcome.splits)

lemma triple_if:
  "(b \<Longrightarrow> triple P m Q) \<Longrightarrow> (\<not> b \<Longrightarrow> triple P n Q) \<Longrightarrow> triple P (if b then m else n) Q"
  by simp

lemma triple_pre: "triple P m Q \<Longrightarrow> (\<And>s. P' s \<Longrightarrow> P s) \<Longrightarrow> triple P' m Q"
  by (auto simp: triple_def)

lemma triple_case_option:
  "(x = None \<Longrightarrow> triple P m Q) \<Longrightarrow> (\<And>a. x = Some a \<Longrightarrow> triple P (f a) Q) \<Longrightarrow>
   triple P (case x of None \<Rightarrow> m | Some a \<Rightarrow> f a) Q"
  by (cases x) auto

lemma triple_return: "(\<And>s. P s \<Longrightarrow> Q (Ok a) s) \<Longrightarrow> triple P (return a) Q"
  by (simp add: triple_def return_def)

lemma triple_raise: "(\<And>s. P s \<Longrightarrow> Q (Err e) s) \<Longrightarrow> triple P (raise e) Q"
  by (simp add: triple_def raise_def)

section \<open>Transition systems\<close>

inductive reach :: "('s \<Rightarrow> bool) \<Rightarrow> ('s \<Rightarrow> 's \<Rightarrow> bool) \<Rightarrow> 's \<Rightarrow> bool"
  for init :: "'s \<Rightarrow> bool" and step :: "'s \<Rightarrow> 's \<Rightarrow> bool" where
  start: "init s \<Longrightarrow> reach init step s"
| move: "reach init step s \<Longrightarrow> step s t \<Longrightarrow> reach init step t"

locale safe_system =
  fixes init :: "'s \<Rightarrow> bool"
    and step :: "'s \<Rightarrow> 's \<Rightarrow> bool"
    and safe :: "'s \<Rightarrow> bool"
  assumes safe_init: "init s \<Longrightarrow> safe s"
    and safe_step: "safe s \<Longrightarrow> step s t \<Longrightarrow> safe t"
begin

lemma reach_safe: "reach init step s \<Longrightarrow> safe s"
  by (induction rule: reach.induct) (auto intro: safe_init safe_step)

end

end
