(* ===== verification/L2_Blocks.thy ===== *)
theory L2_Blocks
  imports Prelude
begin

text \<open>
  The data the node moves: transaction lists (\<^verbatim>\<open>src/common/src/shared/l2_tx_lists.rs\<close>), L2 blocks
  (\<^verbatim>\<open>l2_block_v2.rs\<close>), slot information (\<^verbatim>\<open>l2_slot_info_v2.rs\<close>), anchor blocks
  (\<^verbatim>\<open>anchor_block_info.rs\<close>), and the batch configuration with its three limits
  (\<^verbatim>\<open>src/common/src/batch_builder/config.rs\<close>).

  A transaction is an element of the type parameter \<open>'tx\<close>: its contents belong to the alloy
  crate and no code here looks inside. The RLP encoder of that crate is the parameter \<open>rlp\<close>.
\<close>

section \<open>Transaction lists\<close>

record 'tx pre_built_tx_list =
  tx_list :: "'tx list"
  estimated_gas_used :: u64
  bytes_length :: u64

definition pre_built_new :: "('tx list \<Rightarrow> u8 list) \<Rightarrow> 'tx list \<Rightarrow> 'tx pre_built_tx_list" where
  "pre_built_new rlp txs =
     \<lparr>tx_list = txs, estimated_gas_used = 0, bytes_length = of_nat (length (rlp txs))\<rparr>"

definition pre_built_empty :: "'tx pre_built_tx_list" where
  "pre_built_empty = \<lparr>tx_list = [], estimated_gas_used = 0, bytes_length = 0\<rparr>"

definition empty_with_tx_list :: "'tx list \<Rightarrow> 'tx pre_built_tx_list" where
  "empty_with_tx_list txs = \<lparr>tx_list = txs, estimated_gas_used = 0, bytes_length = 0\<rparr>"

definition push_tx ::
  "('tx list \<Rightarrow> u8 list) \<Rightarrow> 'tx pre_built_tx_list \<Rightarrow> 'tx \<Rightarrow> 'tx pre_built_tx_list" where
  "push_tx rlp l tx =
     l\<lparr>tx_list := tx_list l @ [tx], bytes_length := of_nat (length (rlp (tx_list l @ [tx])))\<rparr>"

section \<open>Blocks\<close>

record 'tx l2_block_draft =
  d_prebuilt_tx_list :: "'tx pre_built_tx_list"
  d_timestamp_sec :: u64
  d_gas_limit_without_anchor :: u64

record 'tx l2_block_v2 =
  b_prebuilt_tx_list :: "'tx pre_built_tx_list"
  b_timestamp_sec :: u64
  b_coinbase :: address
  b_anchor_block_number :: u64
  b_gas_limit_without_anchor :: u64

definition l2_block_new_from ::
  "'tx pre_built_tx_list \<Rightarrow> u64 \<Rightarrow> address \<Rightarrow> u64 \<Rightarrow> u64 \<Rightarrow> 'tx l2_block_v2" where
  "l2_block_new_from txs ts cb anchor gas =
     \<lparr>b_prebuilt_tx_list = txs, b_timestamp_sec = ts, b_coinbase = cb,
      b_anchor_block_number = anchor, b_gas_limit_without_anchor = gas\<rparr>"

definition l2_block_new_empty :: "u64 \<Rightarrow> address \<Rightarrow> u64 \<Rightarrow> u64 \<Rightarrow> 'tx l2_block_v2" where
  "l2_block_new_empty ts cb anchor gas =
     \<lparr>b_prebuilt_tx_list = pre_built_empty, b_timestamp_sec = ts, b_coinbase = cb,
      b_anchor_block_number = anchor, b_gas_limit_without_anchor = gas\<rparr>"

abbreviation block_bytes :: "'tx l2_block_v2 \<Rightarrow> u64" where
  "block_bytes b \<equiv> bytes_length (b_prebuilt_tx_list b)"

abbreviation draft_bytes :: "'tx l2_block_draft \<Rightarrow> u64" where
  "draft_bytes d \<equiv> bytes_length (d_prebuilt_tx_list d)"

record 'tx l2_block_payload =
  pl_proposal_id :: u64
  pl_coinbase :: address
  pl_tx_list :: "'tx list"
  pl_timestamp_sec :: u64
  pl_gas_limit_without_anchor :: u64
  pl_anchor_block_id :: u64
  pl_anchor_block_hash :: b256
  pl_anchor_state_root :: b256
  pl_is_forced_inclusion :: bool

text \<open>The checkpoint of an anchor transaction; its block number is a \<open>U48\<close>.\<close>

record checkpoint =
  cp_block_number :: "48 word"
  cp_block_hash :: b256
  cp_state_root :: b256

record anchor_block_info =
  ab_id :: u64
  ab_timestamp_sec :: u64
  ab_hash :: b256
  ab_state_root :: b256

definition calculate_anchor_block_id :: "u64 \<Rightarrow> u64 \<Rightarrow> u64 \<Rightarrow> u64 \<Rightarrow> u64 outcome" where
  "calculate_anchor_block_id l1_height l1_height_lag last_anchor_id min_anchor_offset =
     and_then (sub l1_height l1_height_lag) (\<lambda>l1_height_with_lag.
     and_then (add last_anchor_id 1) (\<lambda>next_id.
     let anchor_id = max l1_height_with_lag next_id in
     and_then (add anchor_id min_anchor_offset) (\<lambda>lim.
     if l1_height < lim
     then Err (Anyhow ''Calculated anchor block ID exceeds latest L1 height - min_anchor_offset'')
     else Ok anchor_id)))"

text \<open>
  A computed anchor block is strictly newer than the previous anchor, at least
  \<open>min_anchor_offset\<close> blocks behind the L1 head, and no further behind the head than the
  configured lag; an anchor that cannot satisfy this is refused with an error.
\<close>
lemma anchor_block_id_admissible:
  assumes "calculate_anchor_block_id h lag prev off = Ok a"
  shows "prev < a \<and> unat a + unat off \<le> unat h \<and> unat h \<le> unat a + unat lag"
  using assms
  by (auto simp: calculate_anchor_block_id_def Let_def max_def nat_view split: if_splits)

section \<open>Slot information\<close>

record l2_slot_info =
  base_fee :: u64
  slot_timestamp :: u64
  parent_id :: u64
  parent_hash :: b256
  parent_gas_limit_without_anchor :: u64
  parent_timestamp :: u64

definition slot_info_new_from_other :: "l2_slot_info \<Rightarrow> u64 \<Rightarrow> l2_slot_info" where
  "slot_info_new_from_other other ts = other\<lparr>slot_timestamp := ts\<rparr>"

record l2_slot_context =
  slot_info :: l2_slot_info
  end_of_sequencing :: bool

datatype operation_type = Preconfirm | Reanchor | ReorgStaleBlock | StatusQuery

record build_preconf_block_response =
  resp_number :: u64
  resp_hash :: b256
  resp_state_root :: b256
  resp_parent_hash :: b256
  resp_is_forced_inclusion :: bool

section \<open>Batch limits\<close>

record batch_builder_config =
  max_bytes_size_of_batch :: u64
  max_blocks_per_batch :: u16
  l1_slot_duration_sec :: u64
  max_time_shift_between_blocks_sec :: u64
  max_anchor_height_offset :: u64
  default_coinbase :: address
  preconf_min_txs :: u64
  preconf_max_skipped_l2_slots :: u64
  proposal_max_time_sec :: u64
  max_forced_inclusions :: u16

definition is_within_block_limit :: "batch_builder_config \<Rightarrow> u16 \<Rightarrow> bool" where
  "is_within_block_limit c num_blocks = (num_blocks \<le> max_blocks_per_batch c)"

definition is_within_bytes_limit :: "batch_builder_config \<Rightarrow> u64 \<Rightarrow> bool" where
  "is_within_bytes_limit c total_bytes = (total_bytes \<le> max_bytes_size_of_batch c)"

definition is_within_time_limit :: "batch_builder_config \<Rightarrow> u64 \<Rightarrow> u64 \<Rightarrow> bool" where
  "is_within_time_limit c created_at current_time =
     (saturating_sub current_time created_at \<le> proposal_max_time_sec c)"

definition is_last_slot_for_empty_block :: "u64 \<Rightarrow> u64 \<Rightarrow> u64 \<Rightarrow> u64 \<Rightarrow> bool outcome" where
  "is_last_slot_for_empty_block current prev max_time_shift slot_duration =
     and_then (sub current prev) (\<lambda>elapsed.
     and_then (sub max_time_shift slot_duration) (\<lambda>lim. Ok (lim \<le> elapsed)))"

end
