(* ===== verification/Proposal.thy ===== *)
theory Proposal
  imports L2_Blocks
begin

text \<open>
  \<^verbatim>\<open>src/shasta/src/node/proposal_manager/proposal.rs\<close> and \<^verbatim>\<open>proposal_queue.rs\<close>: a proposal under
  construction, and the queue of finished proposals on their way to L1.

  The manifest encoder \<open>DerivationSourceManifest::encode_and_compress\<close> of the protocol crate is
  the parameter \<open>enc\<close>; \<open>None\<close> is its failure. The locale \<open>submission_queue\<close> states what the
  queue promises its clients; the interpretation \<open>pq\<close> discharges it for \<open>proposal_queue\<close>.
\<close>

section \<open>Proposals\<close>

record 'tx proposal =
  p_id :: u64
  p_l2_blocks :: "'tx l2_block_v2 list"
  p_total_bytes :: u64
  p_coinbase :: address
  p_anchor_block_id :: u64
  p_anchor_block_timestamp_sec :: u64
  p_anchor_block_hash :: b256
  p_anchor_state_root :: b256
  p_num_forced_inclusion :: u16
  p_created_at_sec :: u64
  p_pending_confirmation :: bool

record 'tx block_manifest =
  m_timestamp :: u64
  m_coinbase :: address
  m_anchor_block_number :: u64
  m_gas_limit :: u64
  m_transactions :: "'tx list"

definition block_manifest_of :: "'tx l2_block_v2 \<Rightarrow> 'tx block_manifest" where
  "block_manifest_of b =
     \<lparr>m_timestamp = b_timestamp_sec b, m_coinbase = b_coinbase b,
      m_anchor_block_number = b_anchor_block_number b,
      m_gas_limit = b_gas_limit_without_anchor b,
      m_transactions = tx_list (b_prebuilt_tx_list b)\<rparr>"

type_synonym 'tx encoder = "'tx block_manifest list \<Rightarrow> u8 list option"

definition proposal_compress :: "'tx encoder \<Rightarrow> 'tx proposal \<Rightarrow> 'tx proposal" where
  "proposal_compress enc p =
     (case enc (map block_manifest_of (p_l2_blocks p)) of
        Some manifest_data \<Rightarrow> p\<lparr>p_total_bytes := of_nat (length manifest_data)\<rparr>
      | None \<Rightarrow> p)"

definition create_block_from_draft :: "'tx proposal \<Rightarrow> 'tx l2_block_draft \<Rightarrow> 'tx l2_block_v2" where
  "create_block_from_draft p d =
     l2_block_new_from (d_prebuilt_tx_list d) (d_timestamp_sec d) (p_coinbase p)
       (p_anchor_block_id p) (d_gas_limit_without_anchor d)"

definition proposal_add_forced_inclusion ::
  "'tx proposal \<Rightarrow> 'tx l2_block_draft \<Rightarrow> checkpoint \<Rightarrow> ('tx l2_block_payload \<times> 'tx proposal) outcome"
where
  "proposal_add_forced_inclusion p fi_block anchor_params =
     and_then (add (p_num_forced_inclusion p) 1) (\<lambda>n. Ok
       (\<lparr>pl_proposal_id = p_id p, pl_coinbase = p_coinbase p,
         pl_tx_list = tx_list (d_prebuilt_tx_list fi_block),
         pl_timestamp_sec = d_timestamp_sec fi_block,
         pl_gas_limit_without_anchor = d_gas_limit_without_anchor fi_block,
         pl_anchor_block_id = ucast (cp_block_number anchor_params),
         pl_anchor_block_hash = cp_block_hash anchor_params,
         pl_anchor_state_root = cp_state_root anchor_params,
         pl_is_forced_inclusion = True\<rparr>,
        p\<lparr>p_num_forced_inclusion := n\<rparr>))"

definition proposal_add_l2_block ::
  "'tx proposal \<Rightarrow> 'tx l2_block_v2 \<Rightarrow> ('tx l2_block_payload \<times> 'tx proposal) outcome" where
  "proposal_add_l2_block p b =
     and_then (add (p_total_bytes p) (block_bytes b)) (\<lambda>total. Ok
       (\<lparr>pl_proposal_id = p_id p, pl_coinbase = p_coinbase p,
         pl_tx_list = tx_list (b_prebuilt_tx_list b),
         pl_timestamp_sec = b_timestamp_sec b,
         pl_gas_limit_without_anchor = b_gas_limit_without_anchor b,
         pl_anchor_block_id = p_anchor_block_id p,
         pl_anchor_block_hash = p_anchor_block_hash p,
         pl_anchor_state_root = p_anchor_state_root p,
         pl_is_forced_inclusion = False\<rparr>,
        p\<lparr>p_total_bytes := total, p_l2_blocks := p_l2_blocks p @ [b]\<rparr>))"

definition proposal_add_l2_draft_block ::
  "'tx proposal \<Rightarrow> 'tx l2_block_draft \<Rightarrow> ('tx l2_block_payload \<times> 'tx proposal) outcome" where
  "proposal_add_l2_draft_block p d = proposal_add_l2_block p (create_block_from_draft p d)"

definition last_block_timestamp :: "'tx proposal \<Rightarrow> u64 option" where
  "last_block_timestamp p =
     (if p_l2_blocks p = [] then None else Some (b_timestamp_sec (last (p_l2_blocks p))))"

definition proposal_remove_last_l2_block ::
  "'tx proposal \<Rightarrow> ('tx l2_block_v2 option \<times> 'tx proposal) outcome" where
  "proposal_remove_last_l2_block p =
     (if p_l2_blocks p = [] then Ok (None, p)
      else let removed = last (p_l2_blocks p) in
        and_then (sub (p_total_bytes p) (block_bytes removed)) (\<lambda>total.
          Ok (Some removed,
              p\<lparr>p_l2_blocks := butlast (p_l2_blocks p), p_total_bytes := total\<rparr>)))"

definition proposal_inc_forced_inclusion :: "'tx proposal \<Rightarrow> 'tx proposal outcome" where
  "proposal_inc_forced_inclusion p =
     and_then (add (p_num_forced_inclusion p) 1) (\<lambda>n. Ok (p\<lparr>p_num_forced_inclusion := n\<rparr>))"

definition proposal_dec_forced_inclusion :: "'tx proposal \<Rightarrow> 'tx proposal" where
  "proposal_dec_forced_inclusion p =
     p\<lparr>p_num_forced_inclusion := saturating_sub (p_num_forced_inclusion p) 1\<rparr>"

definition proposal_is_empty :: "'tx proposal \<Rightarrow> bool" where
  "proposal_is_empty p = (p_l2_blocks p = [] \<and> p_num_forced_inclusion p = 0)"

definition has_forced_inclusion :: "'tx proposal \<Rightarrow> bool" where
  "has_forced_inclusion p = (0 < p_num_forced_inclusion p)"

lemma compress_fields [simp]:
  "p_l2_blocks (proposal_compress enc p) = p_l2_blocks p"
  "p_id (proposal_compress enc p) = p_id p"
  "p_coinbase (proposal_compress enc p) = p_coinbase p"
  "p_anchor_block_id (proposal_compress enc p) = p_anchor_block_id p"
  "p_num_forced_inclusion (proposal_compress enc p) = p_num_forced_inclusion p"
  "p_pending_confirmation (proposal_compress enc p) = p_pending_confirmation p"
  "p_created_at_sec (proposal_compress enc p) = p_created_at_sec p"
  by (simp_all add: proposal_compress_def split: option.splits)

lemma create_block_from_draft_bytes [simp]: "block_bytes (create_block_from_draft p d) = draft_bytes d"
  by (simp add: create_block_from_draft_def l2_block_new_from_def)

lemma add_l2_block_Ok_iff:
  "proposal_add_l2_block p b = Ok (pl, q) \<longleftrightarrow>
     (\<exists>total. add (p_total_bytes p) (block_bytes b) = Ok total \<and>
        q = p\<lparr>p_total_bytes := total, p_l2_blocks := p_l2_blocks p @ [b]\<rparr> \<and>
        pl = \<lparr>pl_proposal_id = p_id p, pl_coinbase = p_coinbase p,
              pl_tx_list = tx_list (b_prebuilt_tx_list b), pl_timestamp_sec = b_timestamp_sec b,
              pl_gas_limit_without_anchor = b_gas_limit_without_anchor b,
              pl_anchor_block_id = p_anchor_block_id p, pl_anchor_block_hash = p_anchor_block_hash p,
              pl_anchor_state_root = p_anchor_state_root p, pl_is_forced_inclusion = False\<rparr>)"
  by (auto simp: proposal_add_l2_block_def)

text \<open>Removing the block that was just added gives back the proposal.\<close>

lemma remove_after_add:
  assumes "proposal_add_l2_block p b = Ok (pl, q)"
  shows "proposal_remove_last_l2_block q = Ok (Some b, p)"
proof -
  from assms obtain total where total: "unat total = unat (p_total_bytes p) + unat (block_bytes b)"
    and q: "q = p\<lparr>p_total_bytes := total, p_l2_blocks := p_l2_blocks p @ [b]\<rparr>"
    by (auto simp: add_l2_block_Ok_iff)
  then have "sub (p_total_bytes q) (block_bytes b) = Ok (p_total_bytes p)"
    by simp
  with q show ?thesis by (simp add: proposal_remove_last_l2_block_def del: sub_Ok_iff)
qed

section \<open>The queue\<close>

record 'tx proposal_queue =
  proposals :: "'tx proposal list"

definition queue_new :: "'tx proposal_queue" where
  "queue_new = \<lparr>proposals = []\<rparr>"

definition queue_push :: "'tx proposal \<Rightarrow> 'tx proposal_queue \<Rightarrow> 'tx proposal_queue" where
  "queue_push p q = q\<lparr>proposals := proposals q @ [p]\<rparr>"

definition queue_len :: "'tx proposal_queue \<Rightarrow> u64" where
  "queue_len q = of_nat (length (proposals q))"

definition queue_is_empty :: "'tx proposal_queue \<Rightarrow> bool" where
  "queue_is_empty q = (proposals q = [])"

definition queue_remove_confirmed :: "'tx proposal_queue \<Rightarrow> 'tx proposal_queue" where
  "queue_remove_confirmed q =
     (case proposals q of
        p # ps \<Rightarrow> if p_pending_confirmation p then q\<lparr>proposals := ps\<rparr> else q
      | [] \<Rightarrow> q)"

definition queue_mark_front_for_resubmit :: "'tx proposal_queue \<Rightarrow> 'tx proposal_queue" where
  "queue_mark_front_for_resubmit q =
     (case proposals q of
        p # ps \<Rightarrow> q\<lparr>proposals := p\<lparr>p_pending_confirmation := False\<rparr> # ps\<rparr>
      | [] \<Rightarrow> q)"

definition queue_take_all :: "'tx proposal_queue \<Rightarrow> 'tx proposal list \<times> 'tx proposal_queue" where
  "queue_take_all q = (proposals q, q\<lparr>proposals := []\<rparr>)"

definition queue_prepend :: "'tx proposal list \<Rightarrow> 'tx proposal_queue \<Rightarrow> 'tx proposal_queue" where
  "queue_prepend ps q = q\<lparr>proposals := ps @ proposals q\<rparr>"

text \<open>\<open>front_mut\<close>: read the front, and write it back.\<close>

definition queue_front :: "'tx proposal_queue \<Rightarrow> 'tx proposal option" where
  "queue_front q = (case proposals q of p # _ \<Rightarrow> Some p | [] \<Rightarrow> None)"

definition queue_set_front :: "'tx proposal \<Rightarrow> 'tx proposal_queue \<Rightarrow> 'tx proposal_queue" where
  "queue_set_front p q = q\<lparr>proposals := p # tl (proposals q)\<rparr>"

text \<open>
  The contract: a first-in first-out queue in which a job is dispatched from the front, leaves
  only from the front and only after it was dispatched, and can be put back to undispatched.
\<close>

locale submission_queue =
  fixes contents :: "'q \<Rightarrow> 'p list"
    and dispatched :: "'p \<Rightarrow> bool"
    and undo :: "'p \<Rightarrow> 'p"
    and empty :: 'q
    and push :: "'p \<Rightarrow> 'q \<Rightarrow> 'q"
    and confirm :: "'q \<Rightarrow> 'q"
    and resubmit :: "'q \<Rightarrow> 'q"
    and prepend :: "'p list \<Rightarrow> 'q \<Rightarrow> 'q"
    and set_front :: "'p \<Rightarrow> 'q \<Rightarrow> 'q"
  assumes contents_empty: "contents empty = []"
    and contents_push: "contents (push p q) = contents q @ [p]"
    and contents_confirm: "contents (confirm q) =
      (if contents q \<noteq> [] \<and> dispatched (hd (contents q)) then tl (contents q) else contents q)"
    and contents_resubmit: "contents (resubmit q) =
      (if contents q = [] then [] else undo (hd (contents q)) # tl (contents q))"
    and contents_prepend: "contents (prepend ps q) = ps @ contents q"
    and contents_set_front: "contents q \<noteq> [] \<Longrightarrow> contents (set_front p q) = p # tl (contents q)"
    and undo_undispatched: "\<not> dispatched (undo p)"
begin

definition single_flight :: "'q \<Rightarrow> bool" where
  "single_flight q \<longleftrightarrow> (\<forall>p \<in> set (tl (contents q)). \<not> dispatched p)"

lemma single_flight_empty: "single_flight empty"
  by (simp add: single_flight_def contents_empty)

lemma single_flight_push: "single_flight q \<Longrightarrow> \<not> dispatched p \<Longrightarrow> single_flight (push p q)"
  by (cases "contents q") (auto simp: single_flight_def contents_push)

lemma single_flight_confirm: "single_flight q \<Longrightarrow> single_flight (confirm q)"
  by (cases "contents q"; cases "tl (contents q)") (auto simp: single_flight_def contents_confirm)

lemma single_flight_resubmit: "single_flight q \<Longrightarrow> single_flight (resubmit q)"
  by (simp add: single_flight_def contents_resubmit)

lemma resubmit_all_undispatched:
  "single_flight q \<Longrightarrow> \<forall>p \<in> set (contents (resubmit q)). \<not> dispatched p"
  by (auto simp: single_flight_def contents_resubmit undo_undispatched)

lemma confirm_all_undispatched:
  "single_flight q \<Longrightarrow> \<forall>p \<in> set (contents (confirm q)). \<not> dispatched p"
  by (cases "contents q") (auto simp: single_flight_def contents_confirm)

lemma single_flight_set_front:
  "contents q \<noteq> [] \<Longrightarrow> single_flight q \<Longrightarrow> single_flight (set_front p q)"
  by (simp add: single_flight_def contents_set_front)

lemma single_flight_prepend:
  assumes "\<forall>p \<in> set (contents q). \<not> dispatched p" "\<forall>p \<in> set ps. \<not> dispatched p"
  shows "single_flight (prepend ps q)"
proof -
  have "set (tl (ps @ contents q)) \<subseteq> set (ps @ contents q)"
    by (cases "ps @ contents q") auto
  with assms show ?thesis unfolding single_flight_def contents_prepend by auto
qed

lemma confirm_loses_only_dispatched:
  "p \<in> set (contents q) \<Longrightarrow> p \<notin> set (contents (confirm q)) \<Longrightarrow> dispatched p"
  by (cases "contents q") (auto simp: contents_confirm split: if_splits)

end

interpretation pq: submission_queue proposals p_pending_confirmation
  "\<lambda>p. p\<lparr>p_pending_confirmation := False\<rparr>" queue_new queue_push queue_remove_confirmed
  queue_mark_front_for_resubmit queue_prepend queue_set_front
  by unfold_locales
    (auto simp: queue_new_def queue_push_def queue_remove_confirmed_def
      queue_mark_front_for_resubmit_def queue_prepend_def queue_set_front_def split: list.splits)

end
