(* ===== verification/Slot_Clock.thy ===== *)
theory Slot_Clock
  imports Prelude
begin

text \<open>
  \<^verbatim>\<open>src/common/src/l1/slot_clock.rs\<close>: the clock that turns UNIX time into L1 slots, epochs and
  L2 slots. A \<open>std::time::Duration\<close> is its number of nanoseconds, below \<open>2^64\<close> seconds;
  a \<open>SystemTime\<close> is a signed number of nanoseconds since the UNIX epoch. Every method that
  reads \<open>self.clock.now()\<close> takes the reading as an argument, one argument per reading, so a
  method that reads the clock twice can be run with two different readings.

  The locale \<open>time_grid\<close> is the contract of a uniform division of time; L1 slots, L2 slots
  and epochs are its three interpretations.
\<close>

section \<open>Durations\<close>

type_synonym duration = nat
type_synonym system_time = int

definition duration_limit :: nat where
  "duration_limit = 2 ^ 64 * 10 ^ 9"

definition from_secs :: "u64 \<Rightarrow> duration" where
  "from_secs s = unat s * 10 ^ 9"

definition as_secs :: "duration \<Rightarrow> u64" where
  "as_secs d = of_nat (d div 10 ^ 9)"

definition as_millis :: "duration \<Rightarrow> nat" where
  "as_millis d = d div 10 ^ 6"

definition dur_checked_add :: "duration \<Rightarrow> duration \<Rightarrow> duration option" where
  "dur_checked_add a b = (if a + b < duration_limit then Some (a + b) else None)"

definition dur_checked_sub :: "duration \<Rightarrow> duration \<Rightarrow> duration option" where
  "dur_checked_sub a b = (if b \<le> a then Some (a - b) else None)"

definition dur_checked_mul :: "duration \<Rightarrow> u32 \<Rightarrow> duration option" where
  "dur_checked_mul a k = (if a * unat k < duration_limit then Some (a * unat k) else None)"

text \<open>The operator \<open>-\<close> on durations panics below zero.\<close>

definition dur_sub :: "duration \<Rightarrow> duration \<Rightarrow> duration outcome" where
  "dur_sub a b = (if b \<le> a then Ok (a - b) else Panic)"

definition duration_since_epoch :: "system_time \<Rightarrow> duration outcome" where
  "duration_since_epoch t =
     (if 0 \<le> t then Ok (nat t) else Err (Anyhow ''second time provided was later than self''))"

lemma dur_checked_sub_Some_iff [simp]: "dur_checked_sub a b = Some d \<longleftrightarrow> a = d + b"
  by (auto simp: dur_checked_sub_def)

lemma dur_sub_Ok_iff [simp]: "dur_sub a b = Ok d \<longleftrightarrow> a = d + b"
  by (auto simp: dur_sub_def)

lemma dur_sub_Panic_iff [simp]: "dur_sub a b = Panic \<longleftrightarrow> a < b"
  by (auto simp: dur_sub_def)

lemma dur_checked_add_Some_iff [simp]:
  "dur_checked_add a b = Some d \<longleftrightarrow> d = a + b \<and> d < duration_limit"
  by (auto simp: dur_checked_add_def)

lemma dur_checked_mul_Some_iff [simp]:
  "dur_checked_mul a k = Some d \<longleftrightarrow> d = a * unat k \<and> d < duration_limit"
  by (auto simp: dur_checked_mul_def)

lemma duration_since_epoch_of_nat [simp]: "duration_since_epoch (int n) = Ok n"
  by (simp add: duration_since_epoch_def)

lemma duration_since_epoch_Ok_iff: "duration_since_epoch t = Ok n \<longleftrightarrow> t = int n"
  by (auto simp: duration_since_epoch_def)

lemma duration_since_epoch_not_Panic [simp]: "duration_since_epoch t \<noteq> Panic"
  by (simp add: duration_since_epoch_def)

lemma unat_as_secs: "d < duration_limit \<Longrightarrow> unat (as_secs d) = d div 10 ^ 9"
  by (simp add: as_secs_def unat_of_nat_lt duration_limit_def less_mult_imp_div_less)

lemma as_secs_from_secs [simp]: "as_secs (from_secs s) = s"
  by (simp add: as_secs_def from_secs_def)

lemma from_secs_lt: "from_secs s < duration_limit"
  using unat_u64_lt [of s] by (simp add: from_secs_def duration_limit_def)

section \<open>The clock\<close>

record slot_clock =
  genesis_slot :: u64
  genesis_duration :: duration
  slot_duration :: duration
  slots_per_epoch :: u64
  l2_slots_per_l1 :: u64
  preconf_heartbeat_ms :: u64

definition slot_clock_new ::
  "u64 \<Rightarrow> u64 \<Rightarrow> u64 \<Rightarrow> u64 \<Rightarrow> u64 \<Rightarrow> slot_clock outcome" where
  "slot_clock_new gslot genesis_timestamp_sec slot_duration_sec spe heartbeat_ms =
     and_then (mul slot_duration_sec 1000) (\<lambda>ms.
     and_then (div_chk ms heartbeat_ms) (\<lambda>l2_slots.
       Ok \<lparr>genesis_slot = gslot,
           genesis_duration = from_secs genesis_timestamp_sec,
           slot_duration = from_secs slot_duration_sec,
           slots_per_epoch = spe,
           l2_slots_per_l1 = l2_slots,
           preconf_heartbeat_ms = heartbeat_ms\<rparr>))"

definition get_number_of_l2_slots_per_l1 :: "slot_clock \<Rightarrow> u64" where
  "get_number_of_l2_slots_per_l1 c = l2_slots_per_l1 c"

definition get_epoch_duration :: "slot_clock \<Rightarrow> duration outcome" where
  "get_epoch_duration c =
     and_then (mul (as_secs (slot_duration c)) (slots_per_epoch c)) (\<lambda>s. Ok (from_secs s))"

definition slot_of :: "slot_clock \<Rightarrow> duration \<Rightarrow> u64 outcome" where
  "slot_of c now =
     (if genesis_duration c \<le> now then
        and_then (ok_or (dur_checked_sub now (genesis_duration c)) ''slot_of: Subtraction overflow'')
          (\<lambda>since_genesis.
        if as_millis (slot_duration c) = 0 then Panic
        else and_then (try_from (as_millis since_genesis div as_millis (slot_duration c)))
          (\<lambda>slot. add slot (genesis_slot c)))
      else Err (Anyhow ''slot_of: now is less than genesis''))"

definition start_of :: "slot_clock \<Rightarrow> u64 \<Rightarrow> duration outcome" where
  "start_of c slot =
     and_then (ok_or (checked_sub slot (genesis_slot c)) ''start_of: Slot is less than genesis slot'')
       (\<lambda>diff.
     and_then (try_from (unat diff) :: u32 outcome) (\<lambda>k.
     and_then (ok_or (dur_checked_mul (slot_duration c) k) ''start_of: Multiplication overflow'')
       (\<lambda>unadjusted_slot_duration.
     ok_or (dur_checked_add (genesis_duration c) unadjusted_slot_duration)
       ''start_of: Addition overflow'')))"

definition duration_to_slot :: "slot_clock \<Rightarrow> u64 \<Rightarrow> duration \<Rightarrow> duration outcome" where
  "duration_to_slot c slot now =
     and_then (start_of c slot) (\<lambda>start.
       ok_or (dur_checked_sub start now) ''duration_to_slot: Subtraction overflow'')"

definition duration_to_next_slot_from :: "slot_clock \<Rightarrow> duration \<Rightarrow> duration outcome" where
  "duration_to_next_slot_from c now =
     (if now < genesis_duration c then
        ok_or (dur_checked_sub (genesis_duration c) now)
          ''duration_to_next_slot_from: Subtraction overflow''
      else and_then (slot_of c now) (\<lambda>slot.
           and_then (add slot 1) (\<lambda>next. duration_to_slot c next now)))"

definition duration_to_next_slot :: "slot_clock \<Rightarrow> system_time \<Rightarrow> duration outcome" where
  "duration_to_next_slot c t = and_then (duration_since_epoch t) (duration_to_next_slot_from c)"

definition duration_to_slot_from_now ::
  "slot_clock \<Rightarrow> u64 \<Rightarrow> system_time \<Rightarrow> duration outcome" where
  "duration_to_slot_from_now c slot t = and_then (duration_since_epoch t) (duration_to_slot c slot)"

definition get_current_slot :: "slot_clock \<Rightarrow> system_time \<Rightarrow> u64 outcome" where
  "get_current_slot c t = and_then (duration_since_epoch t) (slot_of c)"

definition get_epoch_for_slot :: "slot_clock \<Rightarrow> u64 \<Rightarrow> u64 outcome" where
  "get_epoch_for_slot c slot = div_chk slot (slots_per_epoch c)"

definition get_current_epoch :: "slot_clock \<Rightarrow> system_time \<Rightarrow> u64 outcome" where
  "get_current_epoch c t =
     and_then (duration_since_epoch t) (\<lambda>now.
     and_then (slot_of c now) (get_epoch_for_slot c))"

definition get_next_epoch_start_slot :: "slot_clock \<Rightarrow> system_time \<Rightarrow> u64 outcome" where
  "get_next_epoch_start_slot c t =
     and_then (duration_since_epoch t) (\<lambda>now.
     and_then (slot_of c now) (\<lambda>slot.
     and_then (get_epoch_for_slot c slot) (\<lambda>epoch.
     and_then (add epoch 1) (\<lambda>next. mul next (slots_per_epoch c)))))"

definition get_next_epoch_start_timestamp :: "slot_clock \<Rightarrow> system_time \<Rightarrow> u64 outcome" where
  "get_next_epoch_start_timestamp c t =
     and_then (get_next_epoch_start_slot c t) (\<lambda>slot.
     and_then (start_of c slot) (\<lambda>d. Ok (as_secs d)))"

definition get_epoch_begin_timestamp :: "slot_clock \<Rightarrow> u64 \<Rightarrow> u64 outcome" where
  "get_epoch_begin_timestamp c epoch =
     and_then (mul epoch (slots_per_epoch c)) (\<lambda>slot.
     and_then (start_of c slot) (\<lambda>d. Ok (as_secs d)))"

definition get_current_slot_begin_timestamp :: "slot_clock \<Rightarrow> system_time \<Rightarrow> u64 outcome" where
  "get_current_slot_begin_timestamp c t =
     and_then (get_current_slot c t) (\<lambda>slot.
     and_then (start_of c slot) (\<lambda>d. Ok (as_secs d)))"

definition get_epoch_for_timestamp :: "slot_clock \<Rightarrow> u64 \<Rightarrow> u64 outcome" where
  "get_epoch_for_timestamp c timestamp =
     and_then (slot_of c (from_secs timestamp)) (\<lambda>slot. div_chk slot (slots_per_epoch c))"

definition get_epoch_from_slot :: "slot_clock \<Rightarrow> u64 \<Rightarrow> u64 outcome" where
  "get_epoch_from_slot c slot = div_chk slot (slots_per_epoch c)"

definition slot_of_epoch :: "slot_clock \<Rightarrow> u64 \<Rightarrow> u64 outcome" where
  "slot_of_epoch c slot = rem_chk slot (slots_per_epoch c)"

definition get_current_slot_of_epoch :: "slot_clock \<Rightarrow> system_time \<Rightarrow> u64 outcome" where
  "get_current_slot_of_epoch c t =
     and_then (duration_since_epoch t) (\<lambda>now.
     and_then (slot_of c now) (slot_of_epoch c))"

definition is_slot_in_last_n_slots_of_epoch :: "slot_clock \<Rightarrow> u64 \<Rightarrow> u64 \<Rightarrow> bool outcome" where
  "is_slot_in_last_n_slots_of_epoch c slot n =
     and_then (sub (slots_per_epoch c) n) (\<lambda>boundary.
       Ok (boundary \<le> slot \<and> slot < slots_per_epoch c))"

text \<open>
  Two readings: \<open>t1\<close> inside \<open>get_current_epoch\<close>, \<open>t2\<close> for the elapsed time.
\<close>

definition time_from_n_last_slots_of_epoch ::
  "slot_clock \<Rightarrow> u64 \<Rightarrow> u64 \<Rightarrow> system_time \<Rightarrow> system_time \<Rightarrow> duration outcome" where
  "time_from_n_last_slots_of_epoch c l1_slot_of_epoch n t1 t2 =
     and_then (sub (slots_per_epoch c) n) (\<lambda>boundary_slot.
     if l1_slot_of_epoch < boundary_slot
     then Err (Anyhow ''time_from_n_last_slots_of_epoch: too early'')
     else
       and_then (get_current_epoch c t1) (\<lambda>epoch.
       and_then (mul epoch (slots_per_epoch c)) (\<lambda>epoch_slot.
       and_then (add boundary_slot epoch_slot) (\<lambda>slot.
       and_then (start_of c slot) (\<lambda>boundary_slot_begin.
       and_then (duration_since_epoch t2) (\<lambda>now. dur_sub now boundary_slot_begin))))))"

definition which_l2_slot_is_it :: "slot_clock \<Rightarrow> u64 \<Rightarrow> u64 outcome" where
  "which_l2_slot_is_it c ms_from_l1_slot_begin =
     div_chk ms_from_l1_slot_begin (preconf_heartbeat_ms c)"

definition get_current_l2_slot_within_l1_slot ::
  "slot_clock \<Rightarrow> system_time \<Rightarrow> system_time \<Rightarrow> u64 outcome" where
  "get_current_l2_slot_within_l1_slot c t1 t2 =
     and_then (get_current_slot c t1) (\<lambda>l1_slot.
     and_then (duration_since_epoch t2) (\<lambda>now.
     and_then (start_of c l1_slot) (\<lambda>slot_begin.
     and_then (dur_sub now slot_begin) (\<lambda>elapsed.
     and_then (try_from (as_millis elapsed)) (which_l2_slot_is_it c)))))"

definition get_l2_slot_begin_timestamp :: "slot_clock \<Rightarrow> system_time \<Rightarrow> u64 outcome" where
  "get_l2_slot_begin_timestamp c t =
     and_then (duration_since_epoch t) (\<lambda>now.
     and_then (dur_sub now (genesis_duration c)) (\<lambda>now_from_genesis.
     let hb = unat (preconf_heartbeat_ms c) in
     if hb = 0 then Panic
     else if as_millis now_from_genesis div hb * hb div 1000 < 2 ^ 64
     then add (of_nat (as_millis now_from_genesis div hb * hb div 1000))
              (as_secs (genesis_duration c))
     else Err (Anyhow ''get_l2_slot_begin_timestamp: Conversion overflow'')))"

definition get_l2_slots_per_epoch :: "slot_clock \<Rightarrow> u64 outcome" where
  "get_l2_slots_per_epoch c = mul (slots_per_epoch c) (l2_slots_per_l1 c)"

definition slots_since_l1_block :: "slot_clock \<Rightarrow> u64 \<Rightarrow> system_time \<Rightarrow> u64 outcome" where
  "slots_since_l1_block c l1_block_timestamp t =
     and_then (slot_of c (from_secs l1_block_timestamp)) (\<lambda>block_slot.
     and_then (get_current_slot c t) (\<lambda>current_slot.
     if current_slot < block_slot
     then Err (Anyhow ''slots_since_l1_block: Current slot is less than block slot'')
     else sub current_slot block_slot))"

definition seconds_since :: "slot_clock \<Rightarrow> u64 \<Rightarrow> system_time \<Rightarrow> u64" where
  "seconds_since c block_timestamp t =
     (let now = (case duration_since_epoch t of Ok d \<Rightarrow> as_secs d | _ \<Rightarrow> 0)
      in saturating_sub now block_timestamp)"

section \<open>Uniform divisions of time\<close>

text \<open>
  A clock \<open>c\<close> divides time into cells: cell \<open>k\<close> starts at \<open>start c k\<close>, and \<open>index c t\<close> is the
  cell of time \<open>t\<close>. Its two laws give the cell of every time and the uniqueness of cells.
\<close>

locale time_grid =
  fixes valid :: "'c \<Rightarrow> bool"
    and origin :: "'c \<Rightarrow> nat"
    and period :: "'c \<Rightarrow> nat"
    and start :: "'c \<Rightarrow> nat \<Rightarrow> nat"
    and index :: "'c \<Rightarrow> nat \<Rightarrow> nat"
  assumes period_pos: "valid c \<Longrightarrow> 0 < period c"
    and start_eq: "valid c \<Longrightarrow> start c k = origin c + k * period c"
    and index_eq: "valid c \<Longrightarrow> origin c \<le> t \<Longrightarrow> index c t = (t - origin c) div period c"
begin

lemma start_index_le:
  assumes "valid c" "origin c \<le> t"
  shows "start c (index c t) \<le> t"
proof -
  have "(t - origin c) div period c * period c \<le> t - origin c"
    by (rule div_times_less_eq_dividend)
  with assms(2) show ?thesis
    unfolding start_eq [OF assms(1)] index_eq [OF assms] by linarith
qed

lemma less_start_Suc_index:
  assumes "valid c" "origin c \<le> t"
  shows "t < start c (Suc (index c t))"
proof -
  have "t - origin c < period c + (t - origin c) div period c * period c"
    using period_pos [OF assms(1)] by (rule dividend_less_div_times)
  then show ?thesis using assms by (simp add: start_eq index_eq)
qed

lemma start_mono: "valid c \<Longrightarrow> k \<le> l \<Longrightarrow> start c k \<le> start c l"
  by (simp add: start_eq)

lemma index_unique:
  assumes "valid c" "start c k \<le> t" "t < start c (Suc k)"
  shows "index c t = k"
proof -
  from assms have o: "origin c \<le> t" by (simp add: start_eq)
  from assms o have "k * period c \<le> t - origin c" "t - origin c < Suc k * period c"
    by (simp_all add: start_eq)
  then have "(t - origin c) div period c = k"
    by (metis Suc_eq_plus1 div_nat_eqI mult.commute)
  then show ?thesis using assms(1) o by (simp add: index_eq)
qed

lemma index_start: "valid c \<Longrightarrow> index c (start c k) = k"
  by (rule index_unique) (simp_all add: start_eq period_pos)

lemma index_mono:
  "valid c \<Longrightarrow> origin c \<le> t \<Longrightarrow> t \<le> u \<Longrightarrow> index c t \<le> index c u"
  by (simp add: index_eq div_le_mono)

lemma start_Suc: "valid c \<Longrightarrow> start c (Suc k) = start c k + period c"
  by (simp add: start_eq)

end

text \<open>A clock made by \<open>slot_clock_new\<close> from a sensible configuration.\<close>

definition wf_clock :: "slot_clock \<Rightarrow> bool" where
  "wf_clock c \<longleftrightarrow>
     0 < slot_duration c \<and> 10 ^ 9 dvd slot_duration c \<and> slot_duration c < duration_limit \<and>
     10 ^ 9 dvd genesis_duration c \<and> genesis_duration c < duration_limit \<and>
     slots_per_epoch c \<noteq> 0 \<and> preconf_heartbeat_ms c \<noteq> 0 \<and>
     unat (l2_slots_per_l1 c) = as_millis (slot_duration c) div unat (preconf_heartbeat_ms c)"

definition l1_start :: "slot_clock \<Rightarrow> nat \<Rightarrow> nat" where
  "l1_start c k = genesis_duration c + k * slot_duration c"

definition l1_index :: "slot_clock \<Rightarrow> nat \<Rightarrow> nat" where
  "l1_index c t = as_millis (t - genesis_duration c) div as_millis (slot_duration c)"

definition l2_period :: "slot_clock \<Rightarrow> nat" where
  "l2_period c = unat (preconf_heartbeat_ms c) * 10 ^ 6"

definition l2_start :: "slot_clock \<Rightarrow> nat \<Rightarrow> nat" where
  "l2_start c k = genesis_duration c + k * l2_period c"

definition l2_index :: "slot_clock \<Rightarrow> nat \<Rightarrow> nat" where
  "l2_index c t = as_millis (t - genesis_duration c) div unat (preconf_heartbeat_ms c)"

definition epoch_period :: "slot_clock \<Rightarrow> nat" where
  "epoch_period c = unat (slots_per_epoch c) * slot_duration c"

definition epoch_start :: "slot_clock \<Rightarrow> nat \<Rightarrow> nat" where
  "epoch_start c e = l1_start c (e * unat (slots_per_epoch c))"

definition epoch_index :: "slot_clock \<Rightarrow> nat \<Rightarrow> nat" where
  "epoch_index c t = l1_index c t div unat (slots_per_epoch c)"

lemma unat_pos_iff: "0 < unat w \<longleftrightarrow> w \<noteq> (0 :: 'a::len word)"
  by (simp add: unat_eq_0 [symmetric])

lemma millis_div: "10 ^ 9 dvd d \<Longrightarrow> as_millis x div as_millis d = x div d"
proof -
  assume "10 ^ 9 dvd d"
  then obtain q where "d = 10 ^ 9 * q" by (rule dvdE)
  then have d: "d = 10 ^ 6 * (10 ^ 3 * q)" by simp
  then have "as_millis d = 10 ^ 3 * q" by (simp add: as_millis_def)
  then show ?thesis
    unfolding as_millis_def d by (simp only: div_mult2_eq)
qed

lemma wf_slot_millis: "wf_clock c \<Longrightarrow> as_millis (slot_duration c) \<noteq> 0"
  by (auto simp: wf_clock_def as_millis_def dvd_def)

lemma l1_index_eq: "wf_clock c \<Longrightarrow> l1_index c t = (t - genesis_duration c) div slot_duration c"
  by (simp add: l1_index_def millis_div wf_clock_def)

interpretation l1: time_grid wf_clock genesis_duration slot_duration l1_start l1_index
  by unfold_locales (simp_all add: wf_clock_def l1_start_def l1_index_eq)

interpretation l2: time_grid wf_clock genesis_duration l2_period l2_start l2_index
  by unfold_locales
    (simp_all add: wf_clock_def l2_start_def l2_index_def l2_period_def unat_pos_iff
      as_millis_def div_mult2_eq [symmetric] mult.commute)

interpretation ep: time_grid wf_clock genesis_duration epoch_period epoch_start epoch_index
  by unfold_locales
    (simp_all add: wf_clock_def epoch_period_def epoch_start_def epoch_index_def l1_start_def
      l1_index_def millis_div unat_pos_iff div_mult2_eq [symmetric] mult.commute mult.left_commute)

section \<open>Slots and their starts\<close>

lemma slot_clock_new_wf:
  assumes "slot_clock_new g gts sd spe hb = Ok c" "sd \<noteq> 0" "spe \<noteq> 0"
  shows "wf_clock c"
proof -
  from assms(1) obtain ms l2 :: u64 where ms: "unat ms = unat sd * unat (1000 :: u64)"
    and l2: "hb \<noteq> 0" "unat l2 = unat ms div unat hb"
    and c: "c = \<lparr>genesis_slot = g, genesis_duration = from_secs gts, slot_duration = from_secs sd,
              slots_per_epoch = spe, l2_slots_per_l1 = l2, preconf_heartbeat_ms = hb\<rparr>"
    by (auto simp: slot_clock_new_def)
  have "0 < unat sd" using assms(2) by (simp add: unat_pos_iff)
  with ms l2 assms(3) from_secs_lt [of gts] from_secs_lt [of sd] show ?thesis
    by (simp add: wf_clock_def c from_secs_def as_millis_def mult.commute)
qed

lemma slot_of_Ok_iff:
  assumes "wf_clock c"
  shows "slot_of c now = Ok s \<longleftrightarrow>
         genesis_duration c \<le> now \<and> unat s = l1_index c now + unat (genesis_slot c)"
proof (cases "genesis_duration c \<le> now")
  case True
  then have eq: "slot_of c now = and_then (try_from (l1_index c now)) (\<lambda>slot. add slot (genesis_slot c))"
    using wf_slot_millis [OF assms] by (simp add: slot_of_def l1_index_def dur_checked_sub_def)
  have "(\<exists>k :: u64. unat k = l1_index c now \<and> unat s = unat k + unat (genesis_slot c)) \<longleftrightarrow>
        unat s = l1_index c now + unat (genesis_slot c)"
  proof
    assume eq: "unat s = l1_index c now + unat (genesis_slot c)"
    then have "unat (of_nat (l1_index c now) :: u64) = l1_index c now"
      using unat_lt_len [of s] by (intro unat_of_nat_lt) simp
    with eq show "\<exists>k :: u64. unat k = l1_index c now \<and> unat s = unat k + unat (genesis_slot c)"
      by metis
  qed auto
  with True show ?thesis by (simp add: eq)
qed (simp add: slot_of_def)

lemma start_of_Ok_iff:
  "start_of c s = Ok d \<longleftrightarrow>
     unat (genesis_slot c) \<le> unat s \<and> unat s - unat (genesis_slot c) < 2 ^ 32 \<and>
     d = l1_start c (unat s - unat (genesis_slot c)) \<and> d < duration_limit"
  (is "?l \<longleftrightarrow> ?r")
proof
  assume ?l
  then obtain diff :: u64 and k :: u32 where "unat s = unat diff + unat (genesis_slot c)"
    "unat k = unat diff" "d = genesis_duration c + slot_duration c * unat k" "d < duration_limit"
    unfolding start_of_def and_then_Ok_iff by auto
  with unat_lt_len [of k] show ?r by (simp add: l1_start_def mult.commute)
next
  assume r: ?r
  define diff where "diff = s - genesis_slot c"
  from r have diff: "unat s = unat diff + unat (genesis_slot c)"
    by (simp add: diff_def unat_minus_le word_le_nat_alt)
  define k :: u32 where "k = of_nat (unat diff)"
  from r diff have k: "unat k = unat diff"
    unfolding k_def by (intro unat_of_nat_lt) simp
  from diff have 1: "checked_sub s (genesis_slot c) = Some diff" by simp
  from k have 2: "try_from (unat diff) = Ok k" by simp
  from r diff k have 3: "slot_duration c * unat k < duration_limit"
    and 4: "d = genesis_duration c + slot_duration c * unat k"
    by (auto simp: l1_start_def mult.commute)
  show ?l
    unfolding start_of_def 1 using 2 3 4 r by (auto simp: dur_checked_mul_def)
qed

lemma start_of_not_Panic [simp]: "start_of c s \<noteq> Panic"
  by (auto simp: start_of_def and_then_Panic_iff)

text \<open>
  C21: For a well-formed clock, \<open>slot_of\<close> and \<open>start_of\<close> agree: \<open>slot_of now\<close> is slot \<open>s\<close> exactly
  when \<open>start_of s\<close> exists and \<open>now\<close> lies in the half-open interval of one slot duration that
  begins there. (\<open>start_of\<close> numbers slots with 32 bits, hence the bound on \<open>s\<close>.)
\<close>
theorem slot_of_iff_within_slot:
  assumes "wf_clock c" and "now < duration_limit"
    and "unat s < unat (genesis_slot c) + 2 ^ 32"
  shows "slot_of c now = Ok s \<longleftrightarrow>
         (\<exists>d. start_of c s = Ok d \<and> d \<le> now \<and> now < d + slot_duration c)"
proof
  assume "slot_of c now = Ok s"
  then have g: "genesis_duration c \<le> now"
    and s: "unat s = l1_index c now + unat (genesis_slot c)"
    using slot_of_Ok_iff [OF assms(1)] by auto
  let ?d = "l1_start c (l1_index c now)"
  have "?d \<le> now" by (rule l1.start_index_le [OF assms(1) g])
  moreover have "now < ?d + slot_duration c"
    using l1.less_start_Suc_index [OF assms(1) g] l1.start_Suc [OF assms(1)] by simp
  moreover have "start_of c s = Ok ?d"
    using assms s \<open>?d \<le> now\<close> by (simp add: start_of_Ok_iff)
  ultimately show "\<exists>d. start_of c s = Ok d \<and> d \<le> now \<and> now < d + slot_duration c" by blast
next
  assume "\<exists>d. start_of c s = Ok d \<and> d \<le> now \<and> now < d + slot_duration c"
  then have le: "unat (genesis_slot c) \<le> unat s"
    and lo: "l1_start c (unat s - unat (genesis_slot c)) \<le> now"
    and hi: "now < l1_start c (Suc (unat s - unat (genesis_slot c)))"
    by (auto simp: start_of_Ok_iff l1.start_Suc [OF assms(1)])
  from lo have "genesis_duration c \<le> now" by (simp add: l1_start_def)
  with le l1.index_unique [OF assms(1) lo hi] show "slot_of c now = Ok s"
    by (simp add: slot_of_Ok_iff [OF assms(1)])
qed

definition mainnet_clock :: slot_clock where
  "mainnet_clock = \<lparr>genesis_slot = 0, genesis_duration = from_secs 1606824023,
     slot_duration = from_secs 12, slots_per_epoch = 32, l2_slots_per_l1 = 6,
     preconf_heartbeat_ms = 2000\<rparr>"

lemma mainnet_clock_new: "slot_clock_new 0 1606824023 12 32 2000 = Ok mainnet_clock"
  by (simp add: slot_clock_new_def mainnet_clock_def eval_arith)

lemma wf_mainnet_clock: "wf_clock mainnet_clock"
  using slot_clock_new_wf [OF mainnet_clock_new] by simp

theorem slot_of_iff_within_slot_witness:
  "wf_clock mainnet_clock \<and> slot_of mainnet_clock (from_secs 1606824047) = Ok 2"
proof -
  have "start_of mainnet_clock 2 = Ok (from_secs 1606824047)"
    by (simp add: start_of_Ok_iff mainnet_clock_def l1_start_def from_secs_def duration_limit_def)
  then show ?thesis
    using slot_of_iff_within_slot [of mainnet_clock "from_secs 1606824047" 2] wf_mainnet_clock
    by (simp add: mainnet_clock_def from_secs_def duration_limit_def)
qed

text \<open>
  From any time after genesis, \<open>duration_to_next_slot_from\<close> returns a positive duration of
  at most one slot, and waiting that long reaches the first instant of the following slot.
\<close>
lemma next_slot_reached:
  assumes "wf_clock c" "slot_of c now = Ok s" "add s 1 = Ok s'"
    and "unat s' < unat (genesis_slot c) + 2 ^ 32" "now + slot_duration c < duration_limit"
  shows "\<exists>d. duration_to_next_slot_from c now = Ok d \<and> 0 < d \<and> d \<le> slot_duration c \<and>
             start_of c s' = Ok (now + d) \<and> slot_of c (now + d) = Ok s'"
proof -
  from assms(1,2) have g: "genesis_duration c \<le> now"
    and s: "unat s = l1_index c now + unat (genesis_slot c)"
    by (auto simp: slot_of_Ok_iff)
  let ?n = "l1_start c (Suc (l1_index c now))"
  have lt: "now < ?n" by (rule l1.less_start_Suc_index [OF assms(1) g])
  have le: "?n \<le> now + slot_duration c"
    using l1.start_index_le [OF assms(1) g] by (simp add: l1.start_Suc [OF assms(1)])
  from assms(3) s have s': "unat s' = Suc (l1_index c now) + unat (genesis_slot c)" by simp
  with assms(4,5) le have start: "start_of c s' = Ok ?n"
    by (simp add: start_of_Ok_iff)
  then have "duration_to_slot c s' now = Ok (?n - now)"
    using lt by (simp add: duration_to_slot_def)
  then have "duration_to_next_slot_from c now = Ok (?n - now)"
    using g assms(2,3) by (simp add: duration_to_next_slot_from_def del: add_Ok_iff and_then_Ok_iff)
  moreover have "slot_of c ?n = Ok s'"
    using s' lt g l1.index_start [OF assms(1), of "Suc (l1_index c now)"]
    by (simp add: slot_of_Ok_iff [OF assms(1)])
  ultimately show ?thesis using lt le start by (intro exI [of _ "?n - now"]) auto
qed

section \<open>L2 slots\<close>

lemma as_millis_l2: "l2_index c t * l2_period c div 10 ^ 9 =
    as_millis (t - genesis_duration c) div unat (preconf_heartbeat_ms c)
      * unat (preconf_heartbeat_ms c) div 1000"
proof -
  have "l2_index c t * l2_period c =
        (l2_index c t * unat (preconf_heartbeat_ms c)) * 10 ^ 6"
    by (simp add: l2_period_def)
  also have "\<dots> div 10 ^ 9 = l2_index c t * unat (preconf_heartbeat_ms c) div 1000"
    using div_mult2_eq [of "l2_index c t * unat (preconf_heartbeat_ms c) * 10 ^ 6" "10 ^ 6" 1000]
    by simp
  finally show ?thesis by (simp add: l2_index_def)
qed

text \<open>
  \<open>get_l2_slot_begin_timestamp\<close> is the start, in whole seconds, of the L2 slot that contains
  the clock reading; where the heartbeat is a whole number of seconds the reading lies within one
  heartbeat after it.
\<close>
lemma l2_slot_begin_timestamp_correct:
  assumes "wf_clock c" "get_l2_slot_begin_timestamp c t = Ok ts"
  shows "unat ts = l2_start c (l2_index c (nat t)) div 10 ^ 9 \<and>
         (1000 dvd unat (preconf_heartbeat_ms c) \<longrightarrow>
          from_secs ts \<le> nat t \<and> nat t < from_secs ts + l2_period c)"
proof -
  let ?k = "l2_index c (nat t)"
  from assms obtain now where t: "t = int now" and g: "genesis_duration c \<le> now"
    and sum: "unat ts = l2_index c now * l2_period c div 10 ^ 9
                        + unat (as_secs (genesis_duration c))"
    unfolding as_millis_l2
    by (auto simp: get_l2_slot_begin_timestamp_def duration_since_epoch_Ok_iff Let_def
        unat_of_nat_lt split: if_splits)
  from assms(1) obtain q where q: "genesis_duration c = 10 ^ 9 * q"
    by (auto simp: wf_clock_def)
  with assms(1) have "unat (as_secs (genesis_duration c)) = q"
    by (simp add: unat_as_secs wf_clock_def)
  with sum t q have eq: "unat ts = l2_start c ?k div 10 ^ 9"
    by (simp add: l2_start_def)
  have "from_secs ts \<le> nat t \<and> nat t < from_secs ts + l2_period c"
    if "1000 dvd unat (preconf_heartbeat_ms c)"
  proof -
    from that obtain r where "unat (preconf_heartbeat_ms c) = 1000 * r" ..
    then have "l2_start c ?k = 10 ^ 9 * (q + ?k * r)"
      by (simp add: l2_start_def l2_period_def q algebra_simps)
    with eq have "from_secs ts = l2_start c ?k" by (simp add: from_secs_def)
    then show ?thesis
      using l2.start_index_le [OF assms(1) g] l2.less_start_Suc_index [OF assms(1) g]
      by (simp add: t l2.start_Suc [OF assms(1)])
  qed
  with eq show ?thesis by blast
qed

section \<open>Epochs\<close>

lemma from_secs_as_secs: "d < duration_limit \<Longrightarrow> 10 ^ 9 dvd d \<Longrightarrow> from_secs (as_secs d) = d"
  by (auto simp: from_secs_def unat_as_secs)

lemma l1_start_dvd: "wf_clock c \<Longrightarrow> 1000000000 dvd l1_start c k"
  by (simp add: wf_clock_def l1_start_def)

lemma get_current_epoch_Ok_iff:
  assumes "wf_clock c" "genesis_slot c = 0"
  shows "get_current_epoch c (int now) = Ok e \<longleftrightarrow>
         genesis_duration c \<le> now \<and> l1_index c now < 2 ^ 64 \<and> unat e = epoch_index c now"
proof -
  have "(\<exists>s :: u64. unat s = l1_index c now) \<longleftrightarrow> l1_index c now < 2 ^ 64"
    by (simp add: ex_unat_iff)
  with assms show ?thesis
    by (auto simp: get_current_epoch_def slot_of_Ok_iff get_epoch_for_slot_def epoch_index_def
        wf_clock_def)
qed

lemma get_epoch_begin_timestamp_Ok_iff:
  assumes "wf_clock c" "genesis_slot c = 0"
  shows "get_epoch_begin_timestamp c e = Ok ts \<longleftrightarrow>
         unat e * unat (slots_per_epoch c) < 2 ^ 32 \<and>
         epoch_start c (unat e) < duration_limit \<and> from_secs ts = epoch_start c (unat e)"
    (is "?l \<longleftrightarrow> ?r")
proof
  assume ?l
  then show ?r using assms
    by (auto simp: get_epoch_begin_timestamp_def start_of_Ok_iff epoch_start_def
        from_secs_as_secs l1_start_dvd)
next
  assume r: ?r
  define slot where "slot = e * slots_per_epoch c"
  from r have slot: "unat slot = unat e * unat (slots_per_epoch c)"
    by (simp add: slot_def unat_word_ariths)
  with r assms(2) have "start_of c slot = Ok (from_secs ts)"
    by (simp add: start_of_Ok_iff epoch_start_def)
  with slot show ?l
    by (auto simp: get_epoch_begin_timestamp_def intro!: exI [of _ slot])
qed

text \<open>
  The current epoch brackets the clock reading: its begin timestamp is not after the reading,
  the next epoch's start timestamp is after it, and the two are one epoch apart.
\<close>
lemma current_epoch_brackets_now:
  assumes "wf_clock c" "genesis_slot c = 0"
    and "get_current_epoch c t = Ok e" "get_epoch_begin_timestamp c e = Ok b"
    and "get_next_epoch_start_timestamp c t = Ok n"
  shows "from_secs b \<le> nat t \<and> nat t < from_secs n \<and>
         from_secs n = from_secs b + epoch_period c"
proof -
  from assms(3) obtain now where t: "t = int now"
    by (auto simp: get_current_epoch_def duration_since_epoch_Ok_iff)
  from assms(1-3) have g: "genesis_duration c \<le> now" and e: "unat e = epoch_index c now"
    by (auto simp: t get_current_epoch_Ok_iff)
  from assms(1,2,4) have b: "from_secs b = epoch_start c (epoch_index c now)"
    by (simp add: get_epoch_begin_timestamp_Ok_iff e)
  from assms(5) obtain s' where s': "unat s' = Suc (epoch_index c now) * unat (slots_per_epoch c)"
    and "start_of c s' = Ok (l1_start c (unat s'))" and "n = as_secs (l1_start c (unat s'))"
    and "l1_start c (unat s') < duration_limit"
    using assms(1,2)
    by (auto simp: get_next_epoch_start_timestamp_def get_next_epoch_start_slot_def t
        slot_of_Ok_iff get_epoch_for_slot_def start_of_Ok_iff epoch_index_def)
  then have n: "from_secs n = epoch_start c (Suc (epoch_index c now))"
    using assms(1) by (simp add: from_secs_as_secs l1_start_dvd epoch_start_def)
  show ?thesis
    using ep.start_index_le [OF assms(1) g] ep.less_start_Suc_index [OF assms(1) g]
    by (simp add: t b n ep.start_Suc [OF assms(1)])
qed

lemmas eval_clock = get_current_slot_def slot_of_def start_of_def get_current_epoch_def
  get_epoch_for_slot_def get_epoch_begin_timestamp_def get_next_epoch_start_timestamp_def
  get_next_epoch_start_slot_def get_current_slot_of_epoch_def slot_of_epoch_def
  duration_since_epoch_def dur_sub_def dur_checked_sub_def dur_checked_mul_def dur_checked_add_def
  duration_limit_def from_secs_def as_secs_def as_millis_def eval_arith

subsection \<open>The handover window\<close>

text \<open>The start, in nanoseconds, of the last \<open>n\<close> slots of epoch \<open>e\<close>.\<close>

definition window_start :: "slot_clock \<Rightarrow> nat \<Rightarrow> u64 \<Rightarrow> nat" where
  "window_start c e n =
     epoch_start c e + (unat (slots_per_epoch c) - unat n) * slot_duration c"

lemma time_from_n_last_slots_eval:
  assumes "wf_clock c" "genesis_slot c = 0" "n \<le> slots_per_epoch c"
    and "slots_per_epoch c - n \<le> l1_slot" "get_current_epoch c t1 = Ok e"
    and "Suc (unat e) * unat (slots_per_epoch c) < 2 ^ 32"
    and "epoch_start c (Suc (unat e)) < duration_limit"
  shows "time_from_n_last_slots_of_epoch c l1_slot n t1 (int now) = dur_sub now (window_start c (unat e) n)"
proof -
  let ?b = "slots_per_epoch c - n" and ?spe = "unat (slots_per_epoch c)"
  from assms(3) have b: "unat ?b = ?spe - unat n" by (rule unat_minus_le)
  define es where "es = e * slots_per_epoch c"
  from assms(6) have es: "unat es = unat e * ?spe"
    by (simp add: es_def unat_word_ariths)
  define slot where "slot = ?b + es"
  have slot: "unat slot = (?spe - unat n) + unat e * ?spe"
    using assms(6) b es by (simp add: slot_def unat_word_ariths)
  have le: "unat slot \<le> Suc (unat e) * ?spe" using slot by simp
  have ws: "window_start c (unat e) n = l1_start c (unat slot)"
    by (simp add: window_start_def epoch_start_def l1_start_def slot algebra_simps)
  have "l1_start c (unat slot) \<le> epoch_start c (Suc (unat e))"
    unfolding epoch_start_def by (rule l1.start_mono [OF assms(1) le])
  with assms(2,6,7) le have start: "start_of c slot = Ok (window_start c (unat e) n)"
    by (simp add: start_of_Ok_iff ws)
  have 1: "sub (slots_per_epoch c) n = Ok ?b" using assms(3) by (simp add: sub_def)
  have 2: "mul e (slots_per_epoch c) = Ok es" using es by simp
  have 3: "add ?b es = Ok slot" using slot b es by simp
  have 4: "\<not> l1_slot < ?b" using assms(4) by simp
  show ?thesis
    unfolding time_from_n_last_slots_of_epoch_def 1
    using assms(5) by (simp add: 2 3 4 start del: add_Ok_iff mul_Ok_iff)
qed

end
