(* ===== verification/Proposal_Builder.thy ===== *)
theory Proposal_Builder
  imports Proposal Slot_Clock
begin

text \<open>
  \<^verbatim>\<open>src/shasta/src/node/proposal_manager/proposal_builder.rs\<close>: the builder holds the proposal under
  construction and the queue of finished ones.

  A method on \<open>&mut self\<close> is an action on the record \<open>builder\<close>, a method on \<open>&self\<close> a function.
  The log messages and the metrics handle are left out. After a panic the node is torn down, so
  the state an action pairs with \<open>Panic\<close> is never read.

  The contract of the builder is a log of blocks: \<open>all_blocks\<close> lists the blocks of all proposals
  in the order they will reach L1. Every operation is an append, a rollback of the newest
  block, a removal of the oldest proposal, or leaves the log alone.
\<close>

section \<open>State and operations\<close>

record 'tx builder =
  bconfig :: batch_builder_config
  queue :: "'tx proposal_queue"
  current_proposal :: "'tx proposal option"
  bclock :: slot_clock

definition builder_new :: "batch_builder_config \<Rightarrow> slot_clock \<Rightarrow> 'tx builder" where
  "builder_new c clk =
     \<lparr>bconfig = c, queue = queue_new, current_proposal = None, bclock = clk\<rparr>"

text \<open>The closure of \<open>can_consume_l2_block\<close>: the verdict, and the proposal it may have compressed.\<close>

definition consume_check ::
  "'tx encoder \<Rightarrow> batch_builder_config \<Rightarrow> 'tx l2_block_draft \<Rightarrow> 'tx proposal \<Rightarrow>
   (bool \<times> 'tx proposal) outcome" where
  "consume_check enc c d p =
     (case try_from (length (p_l2_blocks p) + 1) of
        Err _ \<Rightarrow> Ok (False, p)
      | Panic \<Rightarrow> Panic
      | Ok new_block_count \<Rightarrow>
          and_then (add (p_total_bytes p) (draft_bytes d)) (\<lambda>new_total_bytes.
          if is_within_bytes_limit c new_total_bytes
          then Ok (is_within_block_limit c new_block_count, p)
          else
            let p' = proposal_compress enc p in
            and_then (add (p_total_bytes p') (draft_bytes d)) (\<lambda>new_total_bytes.
            if is_within_bytes_limit c new_total_bytes
            then Ok (is_within_block_limit c new_block_count, p')
            else
              and_then (proposal_add_l2_draft_block p' d) (\<lambda>(_, proposal_clone).
              let new_total_bytes = p_total_bytes (proposal_compress enc proposal_clone) in
              Ok (is_within_bytes_limit c new_total_bytes \<and>
                  is_within_block_limit c new_block_count, p')))))"

definition can_consume_l2_block ::
  "'tx encoder \<Rightarrow> 'tx l2_block_draft \<Rightarrow> ('tx builder, bool) action" where
  "can_consume_l2_block enc d b =
     (case current_proposal b of
        None \<Rightarrow> (Ok False, b)
      | Some p \<Rightarrow>
          (case consume_check enc (bconfig b) d p of
             Ok (verdict, p') \<Rightarrow> (Ok verdict, b\<lparr>current_proposal := Some p'\<rparr>)
           | Err e \<Rightarrow> (Err e, b)
           | Panic \<Rightarrow> (Panic, b)))"

definition can_add_forced_inclusion :: "'tx builder \<Rightarrow> bool" where
  "can_add_forced_inclusion b =
     (case current_proposal b of
        None \<Rightarrow> False
      | Some p \<Rightarrow> p_l2_blocks p = [] \<and> p_num_forced_inclusion p < max_forced_inclusions (bconfig b))"

definition finalize_current_proposal :: "'tx builder \<Rightarrow> 'tx builder" where
  "finalize_current_proposal b =
     (case current_proposal b of
        None \<Rightarrow> b
      | Some p \<Rightarrow>
          if p_l2_blocks p \<noteq> []
          then b\<lparr>current_proposal := None, queue := queue_push p (queue b)\<rparr>
          else b\<lparr>current_proposal := None\<rparr>)"

definition fresh_proposal :: "u64 \<Rightarrow> anchor_block_info \<Rightarrow> address \<Rightarrow> u64 \<Rightarrow> 'tx proposal" where
  "fresh_proposal pid anchor cb ts =
     \<lparr>p_id = pid, p_l2_blocks = [], p_total_bytes = 0, p_coinbase = cb,
      p_anchor_block_id = ab_id anchor, p_anchor_block_timestamp_sec = ab_timestamp_sec anchor,
      p_anchor_block_hash = ab_hash anchor, p_anchor_state_root = ab_state_root anchor,
      p_num_forced_inclusion = 0, p_created_at_sec = ts, p_pending_confirmation = False\<rparr>"

definition create_new_proposal ::
  "u64 \<Rightarrow> anchor_block_info \<Rightarrow> u64 \<Rightarrow> 'tx builder \<Rightarrow> 'tx builder" where
  "create_new_proposal pid anchor_block ts b =
     (finalize_current_proposal b)\<lparr>current_proposal :=
        Some (fresh_proposal pid anchor_block (default_coinbase (bconfig b)) ts)\<rparr>"

text \<open>\<open>if let Some(current_proposal) = self.current_proposal.as_mut()\<close> around a proposal operation.\<close>

definition on_current ::
  "('tx proposal \<Rightarrow> ('a \<times> 'tx proposal) outcome) \<Rightarrow> string \<Rightarrow> ('tx builder, 'a) action" where
  "on_current f msg b =
     (case current_proposal b of
        None \<Rightarrow> (Err (Anyhow msg), b)
      | Some p \<Rightarrow>
          (case f p of
             Ok (a, p') \<Rightarrow> (Ok a, b\<lparr>current_proposal := Some p'\<rparr>)
           | Err e \<Rightarrow> (Err e, b)
           | Panic \<Rightarrow> (Panic, b)))"

definition add_l2_draft_block ::
  "'tx l2_block_draft \<Rightarrow> ('tx builder, 'tx l2_block_payload) action" where
  "add_l2_draft_block d = on_current (\<lambda>p. proposal_add_l2_draft_block p d) ''No current proposal''"

definition add_fi_block ::
  "'tx l2_block_draft \<Rightarrow> checkpoint \<Rightarrow> ('tx builder, 'tx l2_block_payload) action" where
  "add_fi_block fi_block anchor_params =
     on_current (\<lambda>p. proposal_add_forced_inclusion p fi_block anchor_params) ''No current proposal''"

definition add_l2_block_and_get_current_proposal ::
  "'tx l2_block_v2 \<Rightarrow> ('tx builder, 'tx proposal) action" where
  "add_l2_block_and_get_current_proposal l2_block =
     on_current (\<lambda>p. and_then (proposal_add_l2_block p l2_block) (\<lambda>(_, p'). Ok (p', p')))
       ''No current proposal''"

definition get_current_proposal_last_block_timestamp :: "'tx builder \<Rightarrow> u64 option" where
  "get_current_proposal_last_block_timestamp b =
     Option.bind (current_proposal b) last_block_timestamp"

definition remove_last_l2_block :: "('tx builder, unit) action" where
  "remove_last_l2_block b =
     (case current_proposal b of
        None \<Rightarrow> (Ok (), b)
      | Some p \<Rightarrow>
          (case proposal_remove_last_l2_block p of
             Ok (_, p') \<Rightarrow>
               (Ok (), b\<lparr>current_proposal := (if p_l2_blocks p' = [] then None else Some p')\<rparr>)
           | Err e \<Rightarrow> (Err e, b)
           | Panic \<Rightarrow> (Panic, b)))"

definition inc_forced_inclusion :: "('tx builder, unit) action" where
  "inc_forced_inclusion =
     on_current (\<lambda>p. and_then (proposal_inc_forced_inclusion p) (\<lambda>p'. Ok ((), p')))
       ''No current proposal to add forced inclusion to''"

definition is_same_proposal_id :: "u64 \<Rightarrow> 'tx builder \<Rightarrow> bool" where
  "is_same_proposal_id pid b =
     (case current_proposal b of None \<Rightarrow> False | Some p \<Rightarrow> p_id p = pid)"

text \<open>The update of the anchor of the current proposal when a recovered block has a newer one.\<close>

definition raise_anchor :: "anchor_block_info \<Rightarrow> 'tx builder \<Rightarrow> 'tx builder" where
  "raise_anchor anchor b =
     b\<lparr>current_proposal := map_option (\<lambda>p.
        if p_anchor_block_id p < ab_id anchor
        then p\<lparr>p_anchor_block_id := ab_id anchor,
               p_anchor_block_timestamp_sec := ab_timestamp_sec anchor,
               p_anchor_block_hash := ab_hash anchor,
               p_anchor_state_root := ab_state_root anchor\<rparr>
        else p) (current_proposal b)\<rparr>"

definition recover_open :: "u64 \<Rightarrow> anchor_block_info \<Rightarrow> address \<Rightarrow> u64 \<Rightarrow> 'tx builder \<Rightarrow> 'tx builder"
where
  "recover_open proposal_id anchor_info cb ts b =
     (if is_same_proposal_id proposal_id b then b
      else (finalize_current_proposal b)\<lparr>current_proposal :=
             Some (fresh_proposal proposal_id anchor_info cb ts)\<rparr>)"

definition recover_from ::
  "'tx encoder \<Rightarrow> ('tx list \<Rightarrow> u8 list) \<Rightarrow> u64 \<Rightarrow> anchor_block_info \<Rightarrow> address \<Rightarrow> 'tx list \<Rightarrow>
   u64 \<Rightarrow> u64 \<Rightarrow> bool \<Rightarrow> ('tx builder, unit) action" where
  "recover_from enc rlp proposal_id anchor_info cb txs ts gas_limit is_forced_inclusion =
     bind (modify (recover_open proposal_id anchor_info cb ts)) (\<lambda>_.
     if is_forced_inclusion
     then bind (gets (\<lambda>b. cb = default_coinbase (bconfig b) \<and> can_add_forced_inclusion b)) (\<lambda>ok.
            if ok then inc_forced_inclusion
            else raise (Anyhow ''recover_from: Cannot add FI block with coinbase to proposal''))
     else bind (modify (raise_anchor anchor_info)) (\<lambda>_.
       let prebuilt = pre_built_new rlp txs;
           draft = \<lparr>d_prebuilt_tx_list = prebuilt, d_timestamp_sec = ts,
                    d_gas_limit_without_anchor = gas_limit\<rparr>
       in bind (can_consume_l2_block enc draft) (\<lambda>fits.
          if fits
          then bind (add_l2_block_and_get_current_proposal
                      (l2_block_new_from prebuilt ts cb (ab_id anchor_info) gas_limit)) (\<lambda>_. return ())
          else raise (Anyhow ''recover_from: block does not fit in proposal. Reorg needed.''))))"

definition builder_is_empty :: "'tx builder \<Rightarrow> bool" where
  "builder_is_empty b = (current_proposal b = None \<and> queue_is_empty (queue b))"

definition remove_confirmed_proposal :: "'tx builder \<Rightarrow> 'tx builder" where
  "remove_confirmed_proposal b = b\<lparr>queue := queue_remove_confirmed (queue b)\<rparr>"

definition mark_not_confirmed_proposal_to_resubmit :: "'tx builder \<Rightarrow> 'tx builder" where
  "mark_not_confirmed_proposal_to_resubmit b = b\<lparr>queue := queue_mark_front_for_resubmit (queue b)\<rparr>"

text \<open>\<open>send_proposal_to_l1\<close> of the execution layer is the parameter \<open>send\<close> on the world \<open>'w\<close>.\<close>

definition submit_due :: "bool \<Rightarrow> u64 \<Rightarrow> 'tx builder \<Rightarrow> bool outcome" where
  "submit_due submit_only_full_proposals l2_slot_timestamp b =
     (case current_proposal b of
        None \<Rightarrow> Ok False
      | Some p \<Rightarrow>
          let block_count = (case try_from (length (p_l2_blocks p)) of Ok n \<Rightarrow> n | _ \<Rightarrow> 0) in
          and_then (add block_count (1 :: u16)) (\<lambda>n.
          let is_full = (\<not> is_within_block_limit (bconfig b) n);
              is_expired = (\<not> is_within_time_limit (bconfig b) (p_created_at_sec p) l2_slot_timestamp)
          in Ok (\<not> submit_only_full_proposals \<or> is_full \<or> is_expired)))"

definition try_submit_oldest_proposal ::
  "('tx l2_block_v2 list \<Rightarrow> u16 \<Rightarrow> ('w, unit) action) \<Rightarrow> bool \<Rightarrow> u64 \<Rightarrow> ('tx builder \<times> 'w, unit) action"
where
  "try_submit_oldest_proposal send only_full ts = (\<lambda>(b, w).
     case submit_due only_full ts b of
       Err e \<Rightarrow> (Err e, (b, w))
     | Panic \<Rightarrow> (Panic, (b, w))
     | Ok due \<Rightarrow>
         let b = (if due then finalize_current_proposal b else b) in
         (case queue_front (queue b) of
            None \<Rightarrow> (Ok (), (b, w))
          | Some p \<Rightarrow>
              if p_pending_confirmation p
              then (Err (Anyhow ''Cannot submit proposal, proposal is pending confirmation.''), (b, w))
              else
                (case send (p_l2_blocks p) (p_num_forced_inclusion p) w of
                   (Ok _, w') \<Rightarrow>
                     (Ok (), (b\<lparr>queue := queue_set_front (p\<lparr>p_pending_confirmation := True\<rparr>) (queue b)\<rparr>, w'))
                 | (Err e, w') \<Rightarrow> (Err e, (b, w'))
                 | (Panic, w') \<Rightarrow> (Panic, (b, w')))))"

definition is_time_shift_between_blocks_expiring :: "'tx builder \<Rightarrow> u64 \<Rightarrow> bool outcome" where
  "is_time_shift_between_blocks_expiring b current_l2_slot_timestamp =
     (case Option.bind (current_proposal b) last_block_timestamp of
        None \<Rightarrow> Ok False
      | Some last_ts \<Rightarrow>
          if current_l2_slot_timestamp < last_ts then Ok False
          else is_last_slot_for_empty_block current_l2_slot_timestamp last_ts
                 (max_time_shift_between_blocks_sec (bconfig b)) (l1_slot_duration_sec (bconfig b)))"

definition is_greater_than_max_anchor_height_offset :: "system_time \<Rightarrow> 'tx builder \<Rightarrow> bool outcome" where
  "is_greater_than_max_anchor_height_offset now b =
     (case current_proposal b of
        None \<Rightarrow> Ok False
      | Some p \<Rightarrow>
          and_then (slots_since_l1_block (bclock b) (p_anchor_block_timestamp_sec p) now)
            (\<lambda>slots. Ok (max_anchor_height_offset (bconfig b) < slots)))"

definition is_empty_block_required :: "'tx builder \<Rightarrow> u64 \<Rightarrow> bool outcome" where
  "is_empty_block_required b ts = is_time_shift_between_blocks_expiring b ts"

definition clone_without_proposals :: "'tx builder \<Rightarrow> 'tx builder" where
  "clone_without_proposals b = b\<lparr>queue := queue_new, current_proposal := None\<rparr>"

definition get_number_of_proposals :: "'tx builder \<Rightarrow> u64 outcome" where
  "get_number_of_proposals b =
     add (queue_len (queue b)) (if current_proposal b \<noteq> None then 1 else 0)"

definition get_number_of_proposals_ready_to_send :: "'tx builder \<Rightarrow> u64" where
  "get_number_of_proposals_ready_to_send b = queue_len (queue b)"

definition take_proposals_to_send :: "'tx builder \<Rightarrow> 'tx proposal list \<times> 'tx builder" where
  "take_proposals_to_send b = (let (ps, q) = queue_take_all (queue b) in (ps, b\<lparr>queue := q\<rparr>))"

definition prepend_proposals :: "'tx proposal list \<Rightarrow> 'tx builder \<Rightarrow> 'tx builder" where
  "prepend_proposals ps b = b\<lparr>queue := queue_prepend ps (queue b)\<rparr>"

definition get_current_proposal_id :: "'tx builder \<Rightarrow> u64 option" where
  "get_current_proposal_id b = map_option p_id (current_proposal b)"

definition try_finalize_current_proposal :: "('tx builder, unit) action" where
  "try_finalize_current_proposal = modify finalize_current_proposal"

definition decrease_forced_inclusion_count :: "'tx builder \<Rightarrow> 'tx builder" where
  "decrease_forced_inclusion_count b =
     (case current_proposal b of
        None \<Rightarrow> b
      | Some p \<Rightarrow>
          let p' = proposal_dec_forced_inclusion p in
          b\<lparr>current_proposal := (if proposal_is_empty p' then None else Some p')\<rparr>)"

definition should_new_block_be_created ::
  "'tx builder \<Rightarrow> 'tx pre_built_tx_list option \<Rightarrow> u64 \<Rightarrow> bool \<Rightarrow> bool outcome" where
  "should_new_block_be_created b pending_tx_list current_l2_slot_timestamp end_of_seq =
     (let number_of_pending_txs :: u64 = (case pending_tx_list of
            None \<Rightarrow> 0 | Some l \<Rightarrow> of_nat (length (tx_list l)))
      in and_then (is_empty_block_required b current_l2_slot_timestamp) (\<lambda>required.
         if required \<or> end_of_seq then Ok True
         else if preconf_min_txs (bconfig b) \<le> number_of_pending_txs then Ok True
         else (case Option.bind (current_proposal b) last_block_timestamp of
            None \<Rightarrow> Ok True
          | Some last_ts \<Rightarrow>
              and_then (mul (saturating_sub current_l2_slot_timestamp last_ts) 1000) (\<lambda>ms.
              and_then (div_chk ms (preconf_heartbeat_ms (bclock b))) (\<lambda>number_of_l2_slots.
              Ok (preconf_max_skipped_l2_slots (bconfig b) < number_of_l2_slots))))))"

definition has_current_forced_inclusion :: "'tx builder \<Rightarrow> bool" where
  "has_current_forced_inclusion b =
     (case current_proposal b of None \<Rightarrow> False | Some p \<Rightarrow> has_forced_inclusion p)"

section \<open>The log of blocks\<close>

definition planned :: "'tx builder \<Rightarrow> 'tx proposal list" where
  "planned b = proposals (queue b) @ (case current_proposal b of None \<Rightarrow> [] | Some p \<Rightarrow> [p])"

definition all_blocks :: "'tx builder \<Rightarrow> 'tx l2_block_v2 list" where
  "all_blocks b = concat (map p_l2_blocks (planned b))"

definition current_blocks :: "'tx builder \<Rightarrow> 'tx l2_block_v2 list" where
  "current_blocks b = (case current_proposal b of None \<Rightarrow> [] | Some p \<Rightarrow> p_l2_blocks p)"

lemma all_blocks_split:
  "all_blocks b = concat (map p_l2_blocks (proposals (queue b))) @ current_blocks b"
  by (simp add: all_blocks_def planned_def current_blocks_def split: option.splits)

lemma finalize_current [simp]: "current_proposal (finalize_current_proposal b) = None"
  by (simp add: finalize_current_proposal_def split: option.splits)

lemma finalize_config [simp]: "bconfig (finalize_current_proposal b) = bconfig b"
  "bclock (finalize_current_proposal b) = bclock b"
  by (simp_all add: finalize_current_proposal_def split: option.splits)

lemma finalize_all_blocks [simp]: "all_blocks (finalize_current_proposal b) = all_blocks b"
  by (simp add: all_blocks_split finalize_current_proposal_def current_blocks_def queue_push_def
      split: option.splits)

lemma create_new_all_blocks [simp]: "all_blocks (create_new_proposal pid a ts b) = all_blocks b"
proof -
  have "all_blocks (create_new_proposal pid a ts b) = all_blocks (finalize_current_proposal b)"
    by (simp add: all_blocks_split create_new_proposal_def current_blocks_def fresh_proposal_def)
  then show ?thesis by simp
qed

lemma create_new_current:
  "current_proposal (create_new_proposal pid a ts b) =
     Some (fresh_proposal pid a (default_coinbase (bconfig b)) ts)"
  by (simp add: create_new_proposal_def)

lemma on_current_Ok_iff:
  "on_current f msg b = (Ok a, b') \<longleftrightarrow>
     (\<exists>p p'. current_proposal b = Some p \<and> f p = Ok (a, p') \<and> b' = b\<lparr>current_proposal := Some p'\<rparr>)"
  by (auto simp: on_current_def split: option.splits outcome.splits)

lemma on_current_not_Ok: "on_current f msg b = (r, b') \<Longrightarrow> \<not> is_ok r \<Longrightarrow> b' = b"
  by (auto simp: on_current_def split: option.splits outcome.splits)

lemma consume_check_blocks:
  "consume_check enc c d p = Ok (v, p') \<Longrightarrow> p' = p \<or> p' = proposal_compress enc p"
  by (auto simp: consume_check_def Let_def split: outcome.splits if_splits)

lemma consume_check_fields [dest]:
  "consume_check enc c d p = Ok (v, p') \<Longrightarrow>
     p_l2_blocks p' = p_l2_blocks p \<and> p_num_forced_inclusion p' = p_num_forced_inclusion p \<and>
     p_pending_confirmation p' = p_pending_confirmation p \<and> p_id p' = p_id p"
  by (auto dest: consume_check_blocks)

lemma consume_check_verdict:
  assumes "consume_check enc c d p = Ok (True, p')"
  shows "length (p_l2_blocks p) < unat (max_blocks_per_batch c)"
  using assms
  by (auto simp: consume_check_def Let_def is_within_block_limit_def word_le_nat_alt
      split: outcome.splits if_splits)

lemma consume_check_not_Err: "consume_check enc c d p \<noteq> Err e"
  by (auto simp: consume_check_def Let_def and_then_Err_iff proposal_add_l2_draft_block_def
      proposal_add_l2_block_def split: outcome.splits)

lemma can_consume_Ok_iff:
  "can_consume_l2_block enc d b = (Ok v, b') \<longleftrightarrow>
     (current_proposal b = None \<and> \<not> v \<and> b' = b) \<or>
     (\<exists>p p'. current_proposal b = Some p \<and> consume_check enc (bconfig b) d p = Ok (v, p') \<and>
        b' = b\<lparr>current_proposal := Some p'\<rparr>)"
  by (auto simp: can_consume_l2_block_def split: option.splits outcome.splits)

lemma can_consume_all_blocks:
  "can_consume_l2_block enc d b = (r, b') \<Longrightarrow> all_blocks b' = all_blocks b"
  by (auto simp: can_consume_l2_block_def all_blocks_split current_blocks_def
      split: option.splits outcome.splits)

lemma add_l2_draft_block_Ok_iff:
  "add_l2_draft_block d b = (Ok pl, b') \<longleftrightarrow>
     (\<exists>p p'. current_proposal b = Some p \<and>
        proposal_add_l2_block p (create_block_from_draft p d) = Ok (pl, p') \<and>
        b' = b\<lparr>current_proposal := Some p'\<rparr>)"
  by (simp add: add_l2_draft_block_def on_current_Ok_iff proposal_add_l2_draft_block_def)

lemma add_l2_draft_block_all_blocks:
  assumes "add_l2_draft_block d b = (Ok pl, b')"
  obtains p where "current_proposal b = Some p"
    "all_blocks b' = all_blocks b @ [create_block_from_draft p d]"
  using assms that
  by (auto simp: add_l2_draft_block_Ok_iff add_l2_block_Ok_iff all_blocks_split current_blocks_def)

text \<open>Rolling back the block that was just added.\<close>

lemma remove_after_add_draft:
  assumes "add_l2_draft_block d b = (Ok pl, b')" "current_proposal b = Some p"
  shows "remove_last_l2_block b' =
    (Ok (), if p_l2_blocks p = [] then b\<lparr>current_proposal := None\<rparr> else b)"
  using assms remove_after_add [of p "create_block_from_draft p d" pl]
  by (auto simp: add_l2_draft_block_Ok_iff remove_last_l2_block_def)

lemma remove_confirmed_all_blocks:
  "all_blocks b =
     (case proposals (queue b) of
        p # _ \<Rightarrow> if p_pending_confirmation p then p_l2_blocks p else []
      | [] \<Rightarrow> []) @ all_blocks (remove_confirmed_proposal b)"
  by (simp add: all_blocks_split remove_confirmed_proposal_def queue_remove_confirmed_def
      current_blocks_def split: list.splits)

lemma mark_resubmit_all_blocks [simp]:
  "all_blocks (mark_not_confirmed_proposal_to_resubmit b) = all_blocks b"
  by (simp add: all_blocks_split mark_not_confirmed_proposal_to_resubmit_def
      queue_mark_front_for_resubmit_def current_blocks_def split: list.splits)

lemma inc_forced_inclusion_all_blocks:
  "inc_forced_inclusion b = (r, b') \<Longrightarrow> all_blocks b' = all_blocks b"
  by (auto simp: inc_forced_inclusion_def on_current_def proposal_inc_forced_inclusion_def
      all_blocks_split current_blocks_def split: option.splits outcome.splits)

lemma recover_open_all_blocks [simp]: "all_blocks (recover_open pid a cb ts b) = all_blocks b"
proof (cases "is_same_proposal_id pid b")
  case False
  then have "all_blocks (recover_open pid a cb ts b) = all_blocks (finalize_current_proposal b)"
    by (simp add: all_blocks_split recover_open_def current_blocks_def fresh_proposal_def)
  then show ?thesis by simp
qed (simp add: recover_open_def)

lemma raise_anchor_all_blocks [simp]: "all_blocks (raise_anchor a b) = all_blocks b"
  by (auto simp: all_blocks_split raise_anchor_def current_blocks_def split: option.splits)

section \<open>The invariant of the builder\<close>

definition proposal_ok :: "batch_builder_config \<Rightarrow> 'tx proposal \<Rightarrow> bool" where
  "proposal_ok c p \<longleftrightarrow> length (p_l2_blocks p) \<le> max 1 (unat (max_blocks_per_batch c)) \<and>
     p_num_forced_inclusion p \<le> max_forced_inclusions c"

definition builder_inv :: "'tx builder \<Rightarrow> bool" where
  "builder_inv b \<longleftrightarrow>
     (\<forall>p \<in> set (tl (proposals (queue b))). \<not> p_pending_confirmation p) \<and>
     (\<forall>p. current_proposal b = Some p \<longrightarrow> \<not> p_pending_confirmation p) \<and>
     (\<forall>p \<in> set (proposals (queue b)). p_l2_blocks p \<noteq> []) \<and>
     (\<forall>p \<in> set (planned b). proposal_ok (bconfig b) p)"

definition quiet :: "'tx builder \<Rightarrow> bool" where
  "quiet b \<longleftrightarrow> (\<forall>p \<in> set (proposals (queue b)). \<not> p_pending_confirmation p)"

definition room :: "'tx builder \<Rightarrow> bool" where
  "room b \<longleftrightarrow> (\<exists>p. current_proposal b = Some p \<and>
     length (p_l2_blocks p) < max 1 (unat (max_blocks_per_batch (bconfig b))))"

lemma builder_invI:
  assumes "pq.single_flight (queue b)"
    and "\<And>p. current_proposal b = Some p \<Longrightarrow> \<not> p_pending_confirmation p \<and> proposal_ok (bconfig b) p"
    and "\<And>p. p \<in> set (proposals (queue b)) \<Longrightarrow> p_l2_blocks p \<noteq> [] \<and> proposal_ok (bconfig b) p"
  shows "builder_inv b"
  using assms by (auto simp: builder_inv_def pq.single_flight_def planned_def split: option.splits)

lemma builder_invD:
  assumes "builder_inv b"
  shows "pq.single_flight (queue b)"
    and "current_proposal b = Some p \<Longrightarrow> \<not> p_pending_confirmation p \<and> proposal_ok (bconfig b) p"
    and "p \<in> set (proposals (queue b)) \<Longrightarrow> p_l2_blocks p \<noteq> [] \<and> proposal_ok (bconfig b) p"
  using assms by (auto simp: builder_inv_def pq.single_flight_def planned_def)

text \<open>Replacing the current proposal keeps the invariant when the new one is in order.\<close>

lemma builder_inv_current:
  assumes "builder_inv b"
    and "\<And>p. c = Some p \<Longrightarrow> \<not> p_pending_confirmation p \<and> proposal_ok (bconfig b) p"
  shows "builder_inv (b\<lparr>current_proposal := c\<rparr>)"
  using assms builder_invD [OF assms(1)] by (intro builder_invI) auto

lemma builder_inv_queue:
  assumes "builder_inv b" "pq.single_flight q"
    and "\<And>p. p \<in> set (proposals q) \<Longrightarrow> p_l2_blocks p \<noteq> [] \<and> proposal_ok (bconfig b) p"
  shows "builder_inv (b\<lparr>queue := q\<rparr>)"
  using assms builder_invD [OF assms(1)] by (intro builder_invI) auto

lemma builder_inv_new [simp]: "builder_inv (builder_new c clk)"
  by (intro builder_invI) (auto simp: builder_new_def pq.single_flight_empty pq.contents_empty)

lemma builder_inv_finalize:
  assumes "builder_inv b" shows "builder_inv (finalize_current_proposal b)"
  using builder_invD [OF assms]
  by (intro builder_invI)
    (auto simp: finalize_current_proposal_def pq.contents_push pq.single_flight_push
      split: option.splits)

lemma fresh_proposal_ok [simp]:
  "proposal_ok c (fresh_proposal pid a cb ts)" "\<not> p_pending_confirmation (fresh_proposal pid a cb ts)"
  "p_l2_blocks (fresh_proposal pid a cb ts) = []"
  by (simp_all add: fresh_proposal_def proposal_ok_def)

lemma builder_inv_create:
  "builder_inv b \<Longrightarrow> builder_inv (create_new_proposal pid a ts b)"
  unfolding create_new_proposal_def
  by (rule builder_inv_current [OF builder_inv_finalize]) auto

lemma room_create: "room (create_new_proposal pid a ts b)"
  by (simp add: room_def create_new_proposal_def)

lemma builder_inv_can_consume:
  assumes "builder_inv b" "can_consume_l2_block enc d b = (r, b')"
  shows "builder_inv b' \<and> (r = Ok True \<longrightarrow> room b')"
proof (cases "current_proposal b")
  case None
  with assms show ?thesis by (auto simp: can_consume_l2_block_def)
next
  case (Some p)
  note inv = builder_invD(2) [OF assms(1) Some]
  show ?thesis
  proof (cases "consume_check enc (bconfig b) d p")
    case (Ok vp)
    then obtain v p' where vp: "consume_check enc (bconfig b) d p = Ok (v, p')" by (cases vp) auto
    then have b': "b' = b\<lparr>current_proposal := Some p'\<rparr>" "r = Ok v"
      using assms(2) Some by (auto simp: can_consume_l2_block_def)
    have "builder_inv b'"
      unfolding b' using inv consume_check_fields [OF vp]
      by (intro builder_inv_current assms) (auto simp: proposal_ok_def)
    with b' show ?thesis
      using consume_check_verdict [of enc "bconfig b" d p p'] vp consume_check_fields [OF vp]
      by (auto simp: room_def)
  qed (use assms Some in \<open>auto simp: can_consume_l2_block_def\<close>)
qed

lemma builder_inv_add_draft:
  assumes "builder_inv b" "room b" "add_l2_draft_block d b = (r, b')"
  shows "builder_inv b'"
proof (cases "is_ok r")
  case True
  then obtain pl p p' where b': "b' = b\<lparr>current_proposal := Some p'\<rparr>" "current_proposal b = Some p"
    and add: "proposal_add_l2_block p (create_block_from_draft p d) = Ok (pl, p')"
    using assms(3) by (auto simp: is_ok_iff add_l2_draft_block_Ok_iff)
  show ?thesis
    unfolding b'(1) using add b'(2) assms(2) builder_invD(2) [OF assms(1) b'(2)]
    by (intro builder_inv_current assms) (auto simp: add_l2_block_Ok_iff room_def proposal_ok_def)
next
  case False
  with assms show ?thesis using on_current_not_Ok by (metis add_l2_draft_block_def)
qed

lemma builder_inv_on_current:
  assumes "builder_inv b" "on_current f msg b = (r, b')"
    and "\<And>p a p'. current_proposal b = Some p \<Longrightarrow> f p = Ok (a, p') \<Longrightarrow>
       \<not> p_pending_confirmation p' \<and> proposal_ok (bconfig b) p'"
  shows "builder_inv b'"
proof (cases "is_ok r")
  case True
  with assms(2) obtain p a p' where "current_proposal b = Some p" "f p = Ok (a, p')"
    "b' = b\<lparr>current_proposal := Some p'\<rparr>"
    by (auto simp: is_ok_iff on_current_Ok_iff)
  with assms show ?thesis by (auto intro: builder_inv_current)
qed (use assms on_current_not_Ok in metis)

lemma can_add_forced_inclusion_iff:
  "can_add_forced_inclusion b \<longleftrightarrow> (\<exists>p. current_proposal b = Some p \<and> p_l2_blocks p = [] \<and>
     unat (p_num_forced_inclusion p) < unat (max_forced_inclusions (bconfig b)))"
  by (auto simp: can_add_forced_inclusion_def word_less_nat_alt split: option.splits)

lemma builder_inv_add_fi:
  assumes "builder_inv b" "can_add_forced_inclusion b" "add_fi_block d cp b = (r, b')"
  shows "builder_inv b'"
  using builder_invD(2) [OF assms(1)] assms(2)
  by (intro builder_inv_on_current [OF assms(1) assms(3) [unfolded add_fi_block_def]])
    (auto simp: proposal_add_forced_inclusion_def can_add_forced_inclusion_iff proposal_ok_def
      word_le_nat_alt)

lemma builder_inv_inc_fi:
  assumes "builder_inv b" "can_add_forced_inclusion b" "inc_forced_inclusion b = (r, b')"
  shows "builder_inv b'"
  using builder_invD(2) [OF assms(1)] assms(2)
  by (intro builder_inv_on_current [OF assms(1) assms(3) [unfolded inc_forced_inclusion_def]])
    (auto simp: proposal_inc_forced_inclusion_def can_add_forced_inclusion_iff proposal_ok_def
      word_le_nat_alt)

lemma builder_inv_remove_last:
  assumes "builder_inv b" "remove_last_l2_block b = (r, b')"
  shows "builder_inv b'"
  using assms builder_invD(2) [OF assms(1)]
  by (auto simp: remove_last_l2_block_def proposal_remove_last_l2_block_def Let_def proposal_ok_def
      intro!: builder_inv_current split: option.splits outcome.splits if_splits)

lemma builder_inv_decrease:
  assumes "builder_inv b" shows "builder_inv (decrease_forced_inclusion_count b)"
  using assms builder_invD(2) [OF assms(1)]
  by (auto simp: decrease_forced_inclusion_count_def proposal_dec_forced_inclusion_def Let_def
      proposal_ok_def word_le_nat_alt intro!: builder_inv_current split: option.splits)

lemma builder_inv_remove_confirmed:
  assumes "builder_inv b" shows "builder_inv (remove_confirmed_proposal b)"
  unfolding remove_confirmed_proposal_def
proof (rule builder_inv_queue [OF assms])
  fix p assume "p \<in> set (proposals (queue_remove_confirmed (queue b)))"
  then have "p \<in> set (proposals (queue b))"
    by (auto simp: pq.contents_confirm split: if_splits dest: list.set_sel(2))
  then show "p_l2_blocks p \<noteq> [] \<and> proposal_ok (bconfig b) p" by (rule builder_invD(3) [OF assms])
qed (simp add: pq.single_flight_confirm builder_invD [OF assms])

lemma quiet_remove_confirmed: "builder_inv b \<Longrightarrow> quiet (remove_confirmed_proposal b)"
  using pq.confirm_all_undispatched [OF builder_invD(1)]
  by (auto simp: quiet_def remove_confirmed_proposal_def)

lemma builder_inv_mark_resubmit:
  assumes "builder_inv b" shows "builder_inv (mark_not_confirmed_proposal_to_resubmit b)"
  unfolding mark_not_confirmed_proposal_to_resubmit_def
proof (rule builder_inv_queue [OF assms])
  fix p assume "p \<in> set (proposals (queue_mark_front_for_resubmit (queue b)))"
  then obtain p' where "p' \<in> set (proposals (queue b))" "p_l2_blocks p = p_l2_blocks p'"
    "p_num_forced_inclusion p = p_num_forced_inclusion p'"
    by (cases "proposals (queue b)") (force simp: queue_mark_front_for_resubmit_def)+
  with builder_invD(3) [OF assms, of p'] show "p_l2_blocks p \<noteq> [] \<and> proposal_ok (bconfig b) p"
    by (simp add: proposal_ok_def)
qed (simp add: pq.single_flight_resubmit builder_invD [OF assms])

lemma quiet_mark_resubmit: "builder_inv b \<Longrightarrow> quiet (mark_not_confirmed_proposal_to_resubmit b)"
  using pq.resubmit_all_undispatched [OF builder_invD(1)]
  by (auto simp: quiet_def mark_not_confirmed_proposal_to_resubmit_def)

lemma builder_inv_prepend:
  assumes "builder_inv b" "quiet b"
    and "\<And>p. p \<in> set ps \<Longrightarrow> \<not> p_pending_confirmation p \<and> p_l2_blocks p \<noteq> [] \<and> proposal_ok (bconfig b) p"
  shows "builder_inv (prepend_proposals ps b)"
  unfolding prepend_proposals_def using assms builder_invD(3) [OF assms(1)]
  by (intro builder_inv_queue [OF assms(1)] pq.single_flight_prepend)
    (auto simp: quiet_def queue_prepend_def)

lemma builder_inv_clone: "builder_inv (clone_without_proposals b)"
  by (intro builder_invI)
    (auto simp: clone_without_proposals_def pq.single_flight_empty pq.contents_empty)

lemma builder_inv_take:
  "builder_inv b \<Longrightarrow> take_proposals_to_send b = (ps, b') \<Longrightarrow>
     builder_inv b' \<and> ps = proposals (queue b)"
  by (auto simp: take_proposals_to_send_def queue_take_all_def pq.single_flight_def
      intro!: builder_inv_queue)

lemma builder_inv_recover_open:
  "builder_inv b \<Longrightarrow> builder_inv (recover_open pid a cb ts b)"
  unfolding recover_open_def
  by (auto intro!: builder_inv_current builder_inv_finalize)

lemma builder_inv_raise_anchor: "builder_inv b \<Longrightarrow> builder_inv (raise_anchor a b)"
  unfolding raise_anchor_def
  by (rule builder_inv_current) (auto simp: proposal_ok_def dest: builder_invD split: if_splits)

lemma builder_inv_add_block:
  assumes "builder_inv b" "room b" "add_l2_block_and_get_current_proposal blk b = (r, b')"
  shows "builder_inv b'"
  using builder_invD(2) [OF assms(1)] assms(2)
  by (intro builder_inv_on_current [OF assms(1) assms(3) [unfolded add_l2_block_and_get_current_proposal_def]])
    (auto simp: add_l2_block_Ok_iff room_def proposal_ok_def)

lemma builder_inv_recover_from: "keeps builder_inv (recover_from enc rlp pid a cb txs ts gas fi)"
proof -
  have fi: "keeps builder_inv
      (bind (gets (\<lambda>b. cb = default_coinbase (bconfig b) \<and> can_add_forced_inclusion b)) (\<lambda>ok.
         if ok then inc_forced_inclusion else raise e))" for e
    by (rule tripleI) (auto simp: raise_def intro: builder_inv_inc_fi split: if_splits)
  have block: "keeps builder_inv (bind (can_consume_l2_block enc d) (\<lambda>fits.
       if fits then bind (add_l2_block_and_get_current_proposal blk) (\<lambda>_. return ()) else raise e))"
    for d blk e
  proof (rule triple_bind [where R = "\<lambda>v b. builder_inv b \<and> (v \<longrightarrow> room b)"])
    show "triple builder_inv (can_consume_l2_block enc d)
      (\<lambda>r s. case r of Ok v \<Rightarrow> builder_inv s \<and> (v \<longrightarrow> room s) | Err e \<Rightarrow> builder_inv s | Panic \<Rightarrow> builder_inv s)"
      by (rule tripleI) (auto dest: builder_inv_can_consume split: outcome.splits)
    show "triple (\<lambda>b. builder_inv b \<and> (v \<longrightarrow> room b))
      (if v then bind (add_l2_block_and_get_current_proposal blk) (\<lambda>_. return ()) else raise e)
      (\<lambda>_. builder_inv)" for v
      using builder_inv_add_block
      by (auto simp: triple_def raise_def bind_def return_def split: prod.splits outcome.splits)
  qed
  show ?thesis
    unfolding recover_from_def Let_def
    by (intro keeps_bind keeps_if keeps_modify fi block)
      (simp_all add: builder_inv_recover_open builder_inv_raise_anchor)
qed

lemma builder_inv_try_submit:
  assumes "builder_inv b" "try_submit_oldest_proposal send only_full ts (b, w) = (r, (b', w'))"
  shows "builder_inv b'"
proof -
  define b1 where "b1 = (if submit_due only_full ts b = Ok True then finalize_current_proposal b else b)"
  have inv1: "builder_inv b1" using assms by (simp add: b1_def builder_inv_finalize)
  have "b' = b1 \<or> b' = b \<or> (\<exists>p. queue_front (queue b1) = Some p \<and>
      b' = b1\<lparr>queue := queue_set_front (p\<lparr>p_pending_confirmation := True\<rparr>) (queue b1)\<rparr>)"
    using assms(2)
    by (auto simp: try_submit_oldest_proposal_def b1_def Let_def
        split: outcome.splits option.splits if_splits prod.splits)
  then show ?thesis
  proof (elim disjE exE conjE)
    fix p assume front: "queue_front (queue b1) = Some p"
      and b': "b' = b1\<lparr>queue := queue_set_front (p\<lparr>p_pending_confirmation := True\<rparr>) (queue b1)\<rparr>"
    from front have ne: "proposals (queue b1) \<noteq> []" and p: "p \<in> set (proposals (queue b1))"
      by (auto simp: queue_front_def split: list.splits)
    show "builder_inv b'"
      unfolding b'
      using ne builder_invD [OF inv1] builder_invD(3) [OF inv1 p]
      by (intro builder_inv_queue [OF inv1] pq.single_flight_set_front)
        (auto simp: pq.contents_set_front proposal_ok_def dest: list.set_sel(2))
  qed (use assms inv1 in auto)
qed

section \<open>What the builder promises\<close>

definition total_fi :: "'tx builder \<Rightarrow> nat" where
  "total_fi b = sum_list (map (\<lambda>p. unat (p_num_forced_inclusion p)) (planned b))"

text \<open>Concrete data for evaluation: transactions are numbers, an encoder of one byte per block.\<close>

definition demo_config :: batch_builder_config where
  "demo_config =
     \<lparr>max_bytes_size_of_batch = 100, max_blocks_per_batch = 3, l1_slot_duration_sec = 12,
      max_time_shift_between_blocks_sec = 255, max_anchor_height_offset = 64, default_coinbase = 7,
      preconf_min_txs = 3, preconf_max_skipped_l2_slots = 2, proposal_max_time_sec = 60,
      max_forced_inclusions = 1\<rparr>"

definition demo_anchor :: anchor_block_info where
  "demo_anchor = \<lparr>ab_id = 9, ab_timestamp_sec = 1000, ab_hash = 1, ab_state_root = 2\<rparr>"

definition demo_draft :: "u64 \<Rightarrow> u64 \<Rightarrow> nat l2_block_draft" where
  "demo_draft bytes ts =
     \<lparr>d_prebuilt_tx_list = \<lparr>tx_list = [5], estimated_gas_used = 0, bytes_length = bytes\<rparr>,
      d_timestamp_sec = ts, d_gas_limit_without_anchor = 30\<rparr>"

definition demo_enc :: "nat encoder" where
  "demo_enc ms = Some (replicate (min 50 (length ms)) 0)"

definition demo_builder :: "nat builder" where
  "demo_builder = create_new_proposal 4 demo_anchor 1000 (builder_new demo_config mainnet_clock)"

lemmas demo_defs = demo_config_def demo_anchor_def demo_draft_def demo_enc_def demo_builder_def
  builder_new_def create_new_proposal_def finalize_current_proposal_def fresh_proposal_def
  queue_new_def

lemmas builder_eval = demo_defs eval_arith can_consume_l2_block_def consume_check_def
  add_l2_draft_block_def on_current_def proposal_add_l2_draft_block_def proposal_add_l2_block_def
  create_block_from_draft_def l2_block_new_from_def proposal_compress_def is_within_bytes_limit_def
  is_within_block_limit_def is_within_time_limit_def Let_def

text \<open>
  C17: A block that \<open>can_consume_l2_block\<close> admits fits. Once it is added, the proposal has at most
  \<open>max_blocks_per_batch\<close> blocks, and its accounted size is within \<open>max_bytes_size_of_batch\<close>, or else
  its compressed manifest, new block included, is. The hypothesis is that a byte vector has fewer
  than \<open>2 ^ 64\<close> elements.
\<close>
theorem consumed_block_fits:
  assumes vec: "\<forall>ms data. enc ms = Some data \<longrightarrow> length data < 2 ^ 64"
    and consume: "can_consume_l2_block enc d b = (Ok True, b1)"
    and added: "add_l2_draft_block d b1 = (Ok pl, b2)"
  shows "\<exists>p. current_proposal b2 = Some p \<and>
    length (p_l2_blocks p) \<le> unat (max_blocks_per_batch (bconfig b)) \<and>
    (p_total_bytes p \<le> max_bytes_size_of_batch (bconfig b) \<or>
     (\<exists>data. enc (map block_manifest_of (p_l2_blocks p)) = Some data \<and>
        length data \<le> unat (max_bytes_size_of_batch (bconfig b))))"
proof -
  from consume obtain p p1 where p: "consume_check enc (bconfig b) d p = Ok (True, p1)"
    and b1: "b1 = b\<lparr>current_proposal := Some p1\<rparr>"
    by (auto simp: can_consume_Ok_iff)
  from added b1 obtain p2 where p2: "proposal_add_l2_block p1 (create_block_from_draft p1 d) = Ok (pl, p2)"
    and b2: "current_proposal b2 = Some p2"
    by (auto simp: add_l2_draft_block_Ok_iff)
  then have total: "add (p_total_bytes p1) (draft_bytes d) = Ok (p_total_bytes p2)"
    and blocks: "length (p_l2_blocks p2) = Suc (length (p_l2_blocks p1))"
    by (auto simp: add_l2_block_Ok_iff)
  have count: "length (p_l2_blocks p2) \<le> unat (max_blocks_per_batch (bconfig b))"
    using consume_check_verdict [OF p] consume_check_fields [OF p] blocks by simp
  consider (sum) "is_within_bytes_limit (bconfig b) (p_total_bytes p2)"
    | (manifest) "is_within_bytes_limit (bconfig b) (p_total_bytes (proposal_compress enc p2))"
    using p total p2
    by (auto simp: consume_check_def Let_def proposal_add_l2_draft_block_def
        simp del: add_Ok_iff split: outcome.splits if_splits)
  then show ?thesis
  proof cases
    case sum
    with count b2 show ?thesis by (auto simp: is_within_bytes_limit_def)
  next
    case manifest
    with count b2 vec show ?thesis
      by (auto simp: is_within_bytes_limit_def proposal_compress_def word_le_nat_alt unat_of_nat_lt
          split: option.splits)
  qed
qed

theorem consumed_block_fits_witness:
  "\<exists>b1 pl b2 p. can_consume_l2_block demo_enc (demo_draft 200 1002) demo_builder = (Ok True, b1) \<and>
     add_l2_draft_block (demo_draft 200 1002) b1 = (Ok pl, b2) \<and> current_proposal b2 = Some p \<and>
     p_total_bytes p = 200 \<and> length (p_l2_blocks p) \<le> 3 \<and>
     (\<exists>data. demo_enc (map block_manifest_of (p_l2_blocks p)) = Some data \<and> length data \<le> 100)"
proof -
  have vec: "\<forall>ms data. demo_enc ms = Some data \<longrightarrow> length data < 2 ^ 64"
    by (auto simp: demo_enc_def)
  obtain b1 where c: "can_consume_l2_block demo_enc (demo_draft 200 1002) demo_builder = (Ok True, b1)"
    by (simp add: builder_eval)
  obtain pl b2 where a: "add_l2_draft_block (demo_draft 200 1002) b1 = (Ok pl, b2)"
    and total: "\<And>p. current_proposal b2 = Some p \<Longrightarrow> p_total_bytes p = 200"
    using c by (auto simp: builder_eval)
  from consumed_block_fits [OF vec c a] c a total show ?thesis
    by (fastforce simp: demo_defs)
qed

lemma recover_from_all_blocks:
  assumes "recover_from enc rlp pid a cb txs ts gas fi b = (r, b')"
  shows "all_blocks b' = all_blocks b @
    (if r = Ok () \<and> \<not> fi then [l2_block_new_from (pre_built_new rlp txs) ts cb (ab_id a) gas] else [])"
proof (cases fi)
  case True
  with assms show ?thesis
    by (auto simp: recover_from_def Let_def raise_def dest: inc_forced_inclusion_all_blocks
        split: if_splits)
next
  case False
  define b1 where "b1 = raise_anchor a (recover_open pid a cb ts b)"
  define d where "d = \<lparr>d_prebuilt_tx_list = pre_built_new rlp txs, d_timestamp_sec = ts,
    d_gas_limit_without_anchor = gas\<rparr>"
  define blk where "blk = l2_block_new_from (pre_built_new rlp txs) ts cb (ab_id a) gas"
  obtain v b2 where v: "can_consume_l2_block enc d b1 = (v, b2)" by fastforce
  have b2: "all_blocks b2 = all_blocks b" using can_consume_all_blocks [OF v] by (simp add: b1_def)
  obtain u b3 where u: "add_l2_block_and_get_current_proposal blk b2 = (u, b3)" by fastforce
  have b3: "all_blocks b3 = all_blocks b @ (if is_ok u then [blk] else [])"
    using u b2
    by (auto simp: add_l2_block_and_get_current_proposal_def on_current_def add_l2_block_Ok_iff
        all_blocks_split current_blocks_def split: option.splits outcome.splits)
  from assms False v u have "(r = Ok () \<and> is_ok u \<and> b' = b3) \<or> (r \<noteq> Ok () \<and> b' = b2) \<or>
      (r \<noteq> Ok () \<and> \<not> is_ok u \<and> b' = b3)"
    unfolding recover_from_def Let_def d_def [symmetric] blk_def [symmetric]
    by (auto simp: b1_def bind_def raise_def modify_def return_def split: outcome.splits if_splits)
  then show ?thesis using False b2 b3 by (auto simp: blk_def)
qed

text \<open>
  C16: Submission takes the oldest proposal and only that one. When it succeeds, the log of blocks
  is unchanged, and either there was nothing to send and nothing was sent, or the blocks and the
  forced inclusion count of the front proposal were handed to L1 and this proposal is marked as
  awaiting confirmation.
\<close>
theorem submit_dispatches_oldest:
  assumes "try_submit_oldest_proposal send only_full ts (b, w) = (Ok (), (b', w'))"
  shows "all_blocks b' = all_blocks b \<and>
    (case proposals (queue b') of
       [] \<Rightarrow> w' = w
     | p # ps \<Rightarrow> p_pending_confirmation p \<and>
         send (p_l2_blocks p) (p_num_forced_inclusion p) w = (Ok (), w'))"
proof -
  from assms obtain due where due: "submit_due only_full ts b = Ok due"
    by (auto simp: try_submit_oldest_proposal_def split: outcome.splits)
  define b1 where "b1 = (if due then finalize_current_proposal b else b)"
  have blocks: "all_blocks b1 = all_blocks b" by (simp add: b1_def)
  show ?thesis
  proof (cases "proposals (queue b1)")
    case Nil
    with assms due have "b' = b1 \<and> w' = w"
      by (auto simp: try_submit_oldest_proposal_def b1_def queue_front_def Let_def)
    with Nil blocks show ?thesis by simp
  next
    case (Cons p ps)
    with assms due have "\<not> p_pending_confirmation p"
      "send (p_l2_blocks p) (p_num_forced_inclusion p) w = (Ok (), w')"
      "b' = b1\<lparr>queue := queue_set_front (p\<lparr>p_pending_confirmation := True\<rparr>) (queue b1)\<rparr>"
      by (auto simp: try_submit_oldest_proposal_def b1_def [symmetric] queue_front_def Let_def
          split: if_splits prod.splits outcome.splits)
    with Cons blocks show ?thesis
      by (simp add: all_blocks_split current_blocks_def queue_set_front_def)
  qed
qed

theorem submit_dispatches_oldest_witness:
  "\<exists>b' w'. try_submit_oldest_proposal (\<lambda>bs n w. (Ok (), w @ [length bs])) False 1002
       (snd (add_l2_draft_block (demo_draft 10 1002) demo_builder), []) = (Ok (), (b', w')) \<and>
     w' = [1] \<and> (\<exists>p. proposals (queue b') = [p] \<and> p_pending_confirmation p)"
proof -
  obtain b' w' where r: "try_submit_oldest_proposal (\<lambda>bs n w. (Ok (), w @ [length bs])) False 1002
      (snd (add_l2_draft_block (demo_draft 10 1002) demo_builder), []) = (Ok (), (b', w'))"
    and front: "\<exists>p. proposals (queue b') = [p] \<and> length (p_l2_blocks p) = 1"
    by (simp add: try_submit_oldest_proposal_def submit_due_def queue_front_def queue_push_def
        queue_set_front_def builder_eval)
  from submit_dispatches_oldest [OF r] r front show ?thesis by auto
qed

text \<open>
  When a new block is due. With a configuration in which the maximal time shift is at least one
  L1 slot and a positive heartbeat, and a slot timestamp small enough for its milliseconds to fit
  in 64 bits, \<open>should_new_block_be_created\<close> answers without a panic, and it says yes exactly if
  sequencing ends, enough transactions are pending, the current proposal has no block yet, the
  last block is within one L1 slot of the maximal time shift, or more than the allowed number of
  L2 slots were skipped since the last block.
\<close>
lemma new_block_due_iff:
  assumes conf: "l1_slot_duration_sec (bconfig b) \<le> max_time_shift_between_blocks_sec (bconfig b)"
    and heart: "preconf_heartbeat_ms (bclock b) \<noteq> 0"
    and small: "unat ts * 1000 < 2 ^ 64"
  shows "\<exists>due. should_new_block_be_created b txs ts eos = Ok due \<and>
    (due \<longleftrightarrow> eos \<or>
      preconf_min_txs (bconfig b) \<le> (case txs of None \<Rightarrow> 0 | Some l \<Rightarrow> of_nat (length (tx_list l))) \<or>
      (case Option.bind (current_proposal b) last_block_timestamp of
         None \<Rightarrow> True
       | Some last_ts \<Rightarrow>
           last_ts \<le> ts \<and> unat (max_time_shift_between_blocks_sec (bconfig b)) \<le>
             unat ts - unat last_ts + unat (l1_slot_duration_sec (bconfig b)) \<or>
           unat (preconf_max_skipped_l2_slots (bconfig b)) <
             (unat ts - unat last_ts) * 1000 div unat (preconf_heartbeat_ms (bclock b))))"
proof (cases "Option.bind (current_proposal b) last_block_timestamp")
  case None
  then show ?thesis
    by (auto simp: should_new_block_be_created_def is_empty_block_required_def
        is_time_shift_between_blocks_expiring_def Let_def)
next
  case (Some l)
  have ms: "unat (saturating_sub ts l) * 1000 < 2 ^ 64"
    using small by simp
  then obtain m :: u64 where m: "mul (saturating_sub ts l) 1000 = Ok m"
    and um: "unat m = (unat ts - unat l) * 1000"
    by (simp add: mul_def unat_word_ariths)
  have lim: "unat (max_time_shift_between_blocks_sec (bconfig b) - l1_slot_duration_sec (bconfig b)) =
     unat (max_time_shift_between_blocks_sec (bconfig b)) - unat (l1_slot_duration_sec (bconfig b))"
    using conf by (rule unat_minus_le)
  have el: "l \<le> ts \<Longrightarrow> unat (ts - l) = unat ts - unat l" by (rule unat_minus_le)
  show ?thesis
    using Some m um heart conf lim el
    by (auto simp: should_new_block_be_created_def is_empty_block_required_def
        is_time_shift_between_blocks_expiring_def is_last_slot_for_empty_block_def Let_def
        sub_def div_chk_def unat_div word_le_nat_alt word_less_nat_alt
        simp del: mul_Ok_iff)
qed

lemma total_fi_split:
  "total_fi b = sum_list (map (\<lambda>p. unat (p_num_forced_inclusion p)) (proposals (queue b))) +
     (case current_proposal b of None \<Rightarrow> 0 | Some p \<Rightarrow> unat (p_num_forced_inclusion p))"
  by (simp add: total_fi_def planned_def split: option.splits)

text \<open>
  Closing a proposal keeps the number of forced inclusions that are due for L1, except in one
  case: a current proposal that holds forced inclusions and no other block is dropped together
  with them. The equivalence says that this is the only case.
\<close>
lemma finalize_keeps_forced_inclusions_iff:
  "total_fi (finalize_current_proposal b) = total_fi b \<longleftrightarrow>
     \<not> (has_current_forced_inclusion b \<and> current_blocks b = [])"
  by (auto simp: total_fi_split finalize_current_proposal_def queue_push_def
      has_current_forced_inclusion_def has_forced_inclusion_def current_blocks_def
      word_less_nat_alt split: option.splits)

text \<open>
  C38: Rolling back a failed block restores the builder exactly if the current proposal had a block
  before. If the failed block was the first one, the whole proposal is discarded, and the forced
  inclusions it had already preconfirmed are forgotten with it.
\<close>
theorem rollback_restores_iff:
  assumes "add_l2_draft_block d b = (Ok pl, b1)" "remove_last_l2_block b1 = (Ok (), b2)"
  shows "(b2 = b \<longleftrightarrow> current_blocks b \<noteq> []) \<and>
    (current_blocks b = [] \<longrightarrow> current_proposal b2 = None) \<and>
    (total_fi b2 = total_fi b \<longleftrightarrow> current_blocks b \<noteq> [] \<or> \<not> has_current_forced_inclusion b)"
proof -
  from assms(1) obtain p where p: "current_proposal b = Some p"
    by (auto simp: add_l2_draft_block_Ok_iff)
  then have "current_proposal (b\<lparr>current_proposal := None\<rparr>) \<noteq> current_proposal b" by simp
  then have ne: "b\<lparr>current_proposal := None\<rparr> \<noteq> b" by metis
  from remove_after_add_draft [OF assms(1) p] assms(2)
  have "b2 = (if p_l2_blocks p = [] then b\<lparr>current_proposal := None\<rparr> else b)" by simp
  with p ne show ?thesis
    by (auto simp: current_blocks_def total_fi_split has_current_forced_inclusion_def
        has_forced_inclusion_def word_less_nat_alt)
qed

text \<open>A builder whose current proposal holds one forced inclusion.\<close>

definition demo_forced :: "nat builder" where
  "demo_forced = snd (inc_forced_inclusion demo_builder)"

theorem rollback_restores_iff_witness:
  "\<exists>pl b1 b2. add_l2_draft_block (demo_draft 10 1002) demo_forced = (Ok pl, b1) \<and>
     remove_last_l2_block b1 = (Ok (), b2) \<and> total_fi demo_forced = 1 \<and> total_fi b2 \<noteq> 1"
proof -
  have f: "total_fi demo_forced = 1" "has_current_forced_inclusion demo_forced"
    "current_blocks demo_forced = []"
    by (simp_all add: demo_forced_def inc_forced_inclusion_def proposal_inc_forced_inclusion_def
        total_fi_split has_current_forced_inclusion_def has_forced_inclusion_def current_blocks_def
        builder_eval)
  obtain pl b1 where a: "add_l2_draft_block (demo_draft 10 1002) demo_forced = (Ok pl, b1)"
    by (simp add: demo_forced_def inc_forced_inclusion_def proposal_inc_forced_inclusion_def builder_eval)
  then obtain b2 where r: "remove_last_l2_block b1 = (Ok (), b2)"
    using remove_after_add_draft by (fastforce simp: add_l2_draft_block_Ok_iff)
  from rollback_restores_iff [OF a r] a r f show ?thesis by auto
qed

section \<open>The builder as a transition system\<close>

text \<open>
  One step is one call. The guards are those of the callers in the proposal manager: a block is
  added after \<open>can_consume_l2_block\<close> said yes or right after a new proposal was opened, a forced
  inclusion after \<open>can_add_forced_inclusion\<close>, and recovered proposals, themselves the queue of
  another builder with the same configuration, are put in front while nothing is in flight.
\<close>

inductive builder_step ::
  "'tx encoder \<Rightarrow> ('tx list \<Rightarrow> u8 list) \<Rightarrow> ('tx l2_block_v2 list \<Rightarrow> u16 \<Rightarrow> ('w, unit) action) \<Rightarrow>
   'tx builder \<Rightarrow> 'tx builder \<Rightarrow> bool"
  for enc :: "'tx encoder" and rlp :: "'tx list \<Rightarrow> u8 list"
    and send :: "'tx l2_block_v2 list \<Rightarrow> u16 \<Rightarrow> ('w, unit) action" where
  probe: "can_consume_l2_block enc d b = (r, b') \<Longrightarrow> builder_step enc rlp send b b'"
| create: "builder_step enc rlp send b (create_new_proposal pid a ts b)"
| append: "room b \<Longrightarrow> add_l2_draft_block d b = (r, b') \<Longrightarrow> builder_step enc rlp send b b'"
| forced: "can_add_forced_inclusion b \<Longrightarrow> add_fi_block d cp b = (r, b') \<Longrightarrow>
    builder_step enc rlp send b b'"
| rollback: "remove_last_l2_block b = (r, b') \<Longrightarrow> builder_step enc rlp send b b'"
| unforce: "builder_step enc rlp send b (decrease_forced_inclusion_count b)"
| recover: "recover_from enc rlp pid a cb txs ts gas fi b = (r, b') \<Longrightarrow> builder_step enc rlp send b b'"
| finalize: "builder_step enc rlp send b (finalize_current_proposal b)"
| submit: "try_submit_oldest_proposal send only_full ts (b, w) = (r, (b', w')) \<Longrightarrow>
    builder_step enc rlp send b b'"
| confirmed: "builder_step enc rlp send b (remove_confirmed_proposal b)"
| resubmit: "builder_step enc rlp send b (mark_not_confirmed_proposal_to_resubmit b)"
| take_all: "take_proposals_to_send b = (ps, b') \<Longrightarrow> builder_step enc rlp send b b'"
| adopt: "quiet b \<Longrightarrow> builder_inv v \<Longrightarrow> quiet v \<Longrightarrow> bconfig v = bconfig b \<Longrightarrow>
    take_proposals_to_send v = (ps, v') \<Longrightarrow> builder_step enc rlp send b (prepend_proposals ps b)"

lemma builder_inv_step:
  assumes "builder_step enc rlp send b b'" "builder_inv b"
  shows "builder_inv b'"
  using assms
proof (cases rule: builder_step.cases)
  case (adopt v ps v')
  have ps: "ps = proposals (queue v)" using builder_inv_take [OF adopt(3,6)] ..
  show ?thesis
    unfolding adopt(1)
  proof (rule builder_inv_prepend [OF assms(2) adopt(2)])
    fix p assume "p \<in> set ps"
    with builder_invD(3) [OF adopt(3)] adopt(4,5) ps
    show "\<not> p_pending_confirmation p \<and> p_l2_blocks p \<noteq> [] \<and> proposal_ok (bconfig b) p"
      by (simp add: quiet_def)
  qed
next
  case (recover pid a cb txs ts gas fi r)
  from tripleD [OF builder_inv_recover_from assms(2) recover] show ?thesis .
next
  case (probe d r)
  from builder_inv_can_consume [OF assms(2) probe] show ?thesis ..
next
  case (append d r)
  from builder_inv_add_draft [OF assms(2) append] show ?thesis .
next
  case (forced d cp r)
  from builder_inv_add_fi [OF assms(2) forced] show ?thesis .
next
  case (rollback r)
  from builder_inv_remove_last [OF assms(2) rollback] show ?thesis .
next
  case (submit only_full ts w r w')
  from builder_inv_try_submit [OF assms(2) submit] show ?thesis .
next
  case (take_all ps)
  from builder_inv_take [OF assms(2) take_all] show ?thesis ..
qed (simp_all add: builder_inv_create builder_inv_decrease builder_inv_finalize
    builder_inv_remove_confirmed builder_inv_mark_resubmit)

interpretation bsys: safe_system "\<lambda>b. \<exists>c clk. b = builder_new c clk" "builder_step enc rlp send"
  builder_inv
  for enc rlp send
  by unfold_locales (auto intro: builder_inv_step)



end
