(* ===== verification/Services.thy ===== *)
theory Services
  imports Slot_Clock Proposal
begin

text \<open>
  The boundary of the model. Everything the node talks to is a field of the record \<open>services\<close>:
  JSON-RPC providers of L1 and L2, the inbox contract, the Taiko driver, the transaction pool of
  the engine, the transaction monitor, the system clock. A service is an action on an abstract
  world \<open>'w\<close>: it may answer differently each time, fail, and change the world. Pure functions of
  third-party crates (ABI decoding, the base fee formula, manifest coding) are functions, and
  constants of those crates are constants of the record.

  \<open>env\<close> is the part of the process that several components share through an \<open>Arc\<close>: the world, the
  cancellation token, the cache of the safe block finder, and the cache of the operators.
\<close>

datatype block_tag = Latest | Pending | Number u64

text \<open>
  What the code reads of \<open>alloy::rpc::types::Block\<close>. The transactions are full objects or hashes,
  depending on the request.
\<close>

record 'tx rpc_block =
  rb_number :: u64
  rb_hash :: b256
  rb_timestamp :: u64
  rb_gas_limit :: u64
  rb_base_fee :: "u64 option"
  rb_extra_data :: "u8 list"
  rb_beneficiary :: address
  rb_state_root :: b256
  rb_transactions :: "'tx list option"
  rb_tx_hashes :: "b256 list option"

record ('w, 'tx) provider =
  get_block :: "block_tag \<Rightarrow> bool \<Rightarrow> ('w, 'tx rpc_block option) action"
  get_block_number :: "('w, u64) action"
  get_transaction :: "b256 \<Rightarrow> ('w, 'tx option) action"
  get_transaction_count :: "address \<Rightarrow> block_tag \<Rightarrow> ('w, u64) action"
  get_transaction_count_at :: "address \<Rightarrow> b256 \<Rightarrow> ('w, u64) action"

type_synonym u48 = "48 word"

record blob_slice =
  bs_timestamp :: u48
  bs_blob_hashes :: "b256 list"
  bs_offset :: "24 word"

record protocol_config =
  pc_basefee_sharing_pctg :: u8
  pc_max_anchor_offset :: u64
  pc_timestamp_max_offset :: u64

record executable_data =
  ed_base_fee_per_gas :: u64
  ed_block_number :: u64
  ed_extra_data :: "u8 list"
  ed_fee_recipient :: address
  ed_gas_limit :: u64
  ed_parent_hash :: b256
  ed_timestamp :: u64
  ed_transactions :: "u8 list"

record build_preconf_block_request =
  rq_executable_data :: executable_data
  rq_end_of_sequencing :: bool
  rq_is_forced_inclusion :: bool

datatype recv = Received transaction_error | ChannelEmpty | Disconnected

text \<open>
  \<^verbatim>\<open>src/common/src/l2/taiko_driver/models.rs\<close>: the status the driver reports.
\<close>

record taiko_status =
  highest_unsafe_l2_payload_block_id :: u64
  end_of_sequencing_block_hash :: b256

text \<open>\<^verbatim>\<open>src/pacaya/src/l1/operators_cache/state.rs\<close>.\<close>

record operators =
  ops_current :: address
  ops_next :: address

record operators_cache_state =
  oc_timestamp :: u64
  oc_operators :: operators

record ('w, 'tx) services =
  l1_provider :: "('w, 'tx) provider"
  l2_provider :: "('w, 'tx) provider"
  system_now :: "('w, system_time) action"
  slot_clock_of :: slot_clock
  protocol_config_of :: protocol_config
  preconfer_address :: address
  inbox_core_state :: "u64 option \<Rightarrow> ('w, u48) action"
  inbox_forced_inclusion_state :: "('w, u48 \<times> u48) action"
  inbox_batched_state :: "('w, u48 \<times> u48 \<times> u48) action"
  inbox_forced_inclusions :: "u48 \<Rightarrow> u48 \<Rightarrow> ('w, blob_slice list) action"
  inbox_activation_timestamp :: "('w, u48) action"
  blob_bytes :: "u64 \<Rightarrow> b256 list \<Rightarrow> ('w, u8 list) action"
  decode_manifest :: "u8 list \<Rightarrow> 24 word \<Rightarrow> 'tx list list outcome"
  convert_tx_envelopes :: "'tx list \<Rightarrow> 'tx list outcome"
  head_l1_origin :: "('w, u64) action"
  l1_origin_is_forced :: "u64 \<Rightarrow> ('w, bool) action"
  last_certain_block_id :: "u64 \<Rightarrow> ('w, u64 option) action"
  pending_tx_list :: "u64 \<Rightarrow> u64 \<Rightarrow> u64 \<Rightarrow> ('w, 'tx pre_built_tx_list option) action"
  tx_input :: "'tx \<Rightarrow> u8 list"
  abi_anchor_v4 :: "u8 list \<Rightarrow> checkpoint option"
  abi_anchor_v3 :: "u8 list \<Rightarrow> u64 option"
  next_base_fee :: "'tx rpc_block \<Rightarrow> u64 \<Rightarrow> u64 \<Rightarrow> u64"
  golden_touch_address :: address
  sign_anchor_tx :: "u64 \<Rightarrow> u64 \<Rightarrow> checkpoint \<Rightarrow> 'tx outcome"
  compress_tx_list :: "'tx list \<Rightarrow> u8 list outcome"
  rlp_encode :: "'tx list \<Rightarrow> u8 list"
  compress_manifest :: "'tx encoder"
  preconf_blocks :: "build_preconf_block_request \<Rightarrow> operation_type \<Rightarrow> ('w, build_preconf_block_response) action"
  monitor_new_transaction :: "'tx l2_block_v2 list \<Rightarrow> u16 \<Rightarrow> u64 \<Rightarrow> ('w, unit) action"
  transaction_in_progress :: "('w, bool) action"
  try_recv_error :: "('w, recv) action"
  set_expected_reorg :: "u64 \<Rightarrow> ('w, unit) action"
  verifier_thread_finished :: "('w, bool) action"
  join_again :: "('w, 'tx proposal list) action"
  driver_status :: "('w, taiko_status) action"
  whitelist_current_operator :: "b256 \<Rightarrow> ('w, address) action"
  whitelist_next_operator :: "b256 \<Rightarrow> ('w, address) action"
  anchor_gas_limit :: u64
  min_block_gas_limit :: u64
  max_block_gas_limit :: u64
  initial_base_fee :: u64
  max_bytes_per_tx_list :: u64
  throttling_factor :: u64
  min_bytes_per_tx_list :: u64

record 'w env =
  world :: 'w
  cancelled :: bool
  finder_cache :: "u64 \<Rightarrow> u64 option"
  operators_cache :: "operators_cache_state option"

definition fresh_env :: "'w \<Rightarrow> 'w env" where
  "fresh_env w = \<lparr>world = w, cancelled = False, finder_cache = Map.empty, operators_cache = None\<rparr>"

definition on_world :: "('w, 'a) action \<Rightarrow> ('w env, 'a) action" where
  "on_world = zoom world (\<lambda>w e. e\<lparr>world := w\<rparr>)"

text \<open>\<open>src/common/src/utils/cancellation_token.rs\<close>: a critical error sets the flag for good.\<close>

definition cancel_on_critical_error :: "('w env, unit) action" where
  "cancel_on_critical_error = modify (\<lambda>e. e\<lparr>cancelled := True\<rparr>)"

definition is_cancelled :: "('w env, bool) action" where
  "is_cancelled = gets cancelled"

lemma keeps_on_world: "(\<And>e w. I e \<Longrightarrow> I (e\<lparr>world := w\<rparr>)) \<Longrightarrow> keeps I (on_world m)"
  unfolding on_world_def by (rule keeps_zoom [where J = "\<lambda>_. True"]) (auto simp: triple_def)

lemma on_world_cancelled [simp]: "cancelled (snd (on_world m e)) = cancelled e"
  "finder_cache (snd (on_world m e)) = finder_cache e"
  "operators_cache (snd (on_world m e)) = operators_cache e"
  by (simp_all add: on_world_def zoom_def split: prod.splits)

lemma fresh_env_sel [simp]:
  "world (fresh_env w) = w" "cancelled (fresh_env w) = False"
  "finder_cache (fresh_env w) = Map.empty" "operators_cache (fresh_env w) = None"
  by (simp_all add: fresh_env_def)

section \<open>Services for evaluation\<close>

text \<open>A chain of ten blocks whose services answer and change nothing; transactions are numbers.\<close>

definition demo_block :: "u64 \<Rightarrow> nat rpc_block" where
  "demo_block n =
     \<lparr>rb_number = n, rb_hash = ucast n, rb_timestamp = 1000 + 2 * n, rb_gas_limit = 40000000,
      rb_base_fee = Some 7, rb_extra_data = [30, 0, 0, 0, 0, 0, ucast n], rb_beneficiary = 7,
      rb_state_root = 3, rb_transactions = Some [unat n], rb_tx_hashes = Some [ucast n]\<rparr>"

definition demo_provider :: "(unit, nat) provider" where
  "demo_provider =
     \<lparr>get_block = (\<lambda>tag full. return (Some (case tag of Number n \<Rightarrow> demo_block n | _ \<Rightarrow> demo_block 10))),
      get_block_number = return 10,
      get_transaction = (\<lambda>h. return (Some (unat h))),
      get_transaction_count = (\<lambda>a tag. return 0),
      get_transaction_count_at = (\<lambda>a h. return 0)\<rparr>"

definition demo_services :: "(unit, nat) services" where
  "demo_services =
     \<lparr>l1_provider = demo_provider, l2_provider = demo_provider,
      system_now = return (int (from_secs 1606824023 + from_secs 1200)),
      slot_clock_of = mainnet_clock,
      protocol_config_of = \<lparr>pc_basefee_sharing_pctg = 30, pc_max_anchor_offset = 128,
        pc_timestamp_max_offset = 1536\<rparr>,
      preconfer_address = 7,
      inbox_core_state = (\<lambda>_. return 5),
      inbox_forced_inclusion_state = return (3, 9),
      inbox_batched_state = return (5, 3, 9),
      inbox_forced_inclusions = (\<lambda>i n. return [\<lparr>bs_timestamp = 1000, bs_blob_hashes = [1], bs_offset = 0\<rparr>]),
      inbox_activation_timestamp = return 1,
      blob_bytes = (\<lambda>ts hs. return [1, 2]),
      decode_manifest = (\<lambda>bs off. Ok [[11]]),
      convert_tx_envelopes = (\<lambda>txs. Ok txs),
      head_l1_origin = return 4,
      l1_origin_is_forced = (\<lambda>n. return False),
      last_certain_block_id = (\<lambda>pid. return None),
      pending_tx_list = (\<lambda>fee gas bytes. return None),
      tx_input = (\<lambda>tx. [of_nat tx]),
      abi_anchor_v4 = (\<lambda>bs. Some \<lparr>cp_block_number = 2, cp_block_hash = 1, cp_state_root = 1\<rparr>),
      abi_anchor_v3 = (\<lambda>bs. None),
      next_base_fee = (\<lambda>blk dt fee. fee),
      golden_touch_address = 1,
      sign_anchor_tx = (\<lambda>nonce fee cp. Ok 99),
      compress_tx_list = (\<lambda>txs. Ok [1]),
      rlp_encode = (\<lambda>txs. replicate (length txs) 0),
      compress_manifest = (\<lambda>ms. Some (replicate (min 50 (length ms)) 0)),
      preconf_blocks = (\<lambda>rq op. return \<lparr>resp_number = ed_block_number (rq_executable_data rq),
        resp_hash = 1, resp_state_root = 1, resp_parent_hash = ed_parent_hash (rq_executable_data rq),
        resp_is_forced_inclusion = rq_is_forced_inclusion rq\<rparr>),
      monitor_new_transaction = (\<lambda>bs n nonce. return ()),
      transaction_in_progress = return False,
      try_recv_error = return ChannelEmpty,
      set_expected_reorg = (\<lambda>n. return ()),
      verifier_thread_finished = return True,
      join_again = lift Panic,
      driver_status = return \<lparr>highest_unsafe_l2_payload_block_id = 10, end_of_sequencing_block_hash = 10\<rparr>,
      whitelist_current_operator = (\<lambda>h. return 7),
      whitelist_next_operator = (\<lambda>h. return 8),
      anchor_gas_limit = 1000000, min_block_gas_limit = 10000000, max_block_gas_limit = 45000000,
      initial_base_fee = 25000000, max_bytes_per_tx_list = 1000, throttling_factor = 4,
      min_bytes_per_tx_list = 100\<rparr>"

end
