(* ===== verification/Extra_Data.thy ===== *)
theory Extra_Data
  imports Prelude
begin

text \<open>
  \<^verbatim>\<open>src/shasta/src/l2/extra_data.rs\<close>: the seven bytes of a block header that carry the base fee
  sharing percentage and the 48-bit proposal id. Positional number systems come first, over
  the naturals; the code's big-endian conversions are read through them.
\<close>

section \<open>Big-endian digits\<close>

definition digits :: "nat \<Rightarrow> nat \<Rightarrow> nat list" where
  "digits k x = map (\<lambda>i. x div 256 ^ i mod 256) (rev [0..<k])"

definition horner :: "nat list \<Rightarrow> nat" where
  "horner ds = foldl (\<lambda>a d. a * 256 + d) 0 ds"

lemma length_digits [simp]: "length (digits k x) = k"
  by (simp add: digits_def)

lemma digits_Suc: "digits (Suc k) x = digits k (x div 256) @ [x mod 256]"
proof -
  have "rev [0..<Suc k] = map Suc (rev [0..<k]) @ [0]"
    by (metis map_Suc_upt rev.simps(2) rev_map upt_conv_Cons zero_less_Suc)
  then show ?thesis by (simp add: digits_def div_mult2_eq)
qed

lemma horner_snoc: "horner (ds @ [d]) = horner ds * 256 + d"
  by (simp add: horner_def)

lemma horner_digits: "horner (digits k x) = x mod 256 ^ k"
proof (induction k arbitrary: x)
  case 0
  then show ?case by (simp add: digits_def horner_def)
next
  case (Suc k)
  show ?case
    by (simp add: digits_Suc horner_snoc Suc.IH mod_mult2_eq mult.commute)
qed

lemma digits_horner:
  "\<forall>d \<in> set ds. d < 256 \<Longrightarrow> digits (length ds) (horner ds) = ds \<and> horner ds < 256 ^ length ds"
proof (induction ds rule: rev_induct)
  case Nil
  then show ?case by (simp add: digits_def horner_def)
next
  case (snoc d ds)
  then have d: "d < 256" and ds: "digits (length ds) (horner ds) = ds" "horner ds < 256 ^ length ds"
    by auto
  have "(horner ds * 256 + d) div 256 = horner ds" "(horner ds * 256 + d) mod 256 = d"
    using d by simp_all
  moreover have "horner ds * 256 + d < 256 * 256 ^ length ds"
  proof -
    have "(horner ds + 1) * 256 \<le> 256 ^ length ds * 256"
      using ds(2) by (intro mult_le_mono) auto
    with d show ?thesis by simp
  qed
  ultimately show ?case using ds by (simp add: digits_Suc horner_snoc)
qed

lemma digits_zero_prefix: "x < 256 ^ k \<Longrightarrow> digits (k + j) x = replicate j 0 @ digits k x"
proof (induction k arbitrary: x)
  case 0
  then show ?case by (simp add: digits_def map_replicate_const)
next
  case (Suc k)
  from Suc.prems have "x div 256 < 256 ^ k" by (simp add: less_mult_imp_div_less mult.commute)
  with Suc.IH show ?case by (simp add: digits_Suc)
qed

section \<open>The conversions of the language\<close>

definition to_be_bytes :: "u64 \<Rightarrow> u8 list" where
  "to_be_bytes x = map (\<lambda>i. ucast (drop_bit (8 * i) x)) (rev [0..<8])"

definition from_be_bytes :: "u8 list \<Rightarrow> u64" where
  "from_be_bytes bs = foldl (\<lambda>a b. a * 256 + ucast b) 0 bs"

lemma unat_drop_byte: "unat (drop_bit (8 * i) (x :: u64)) = unat x div 256 ^ i"
proof -
  have "take_bit LENGTH(64) (unat x) = unat x"
    using unat_lt_len [of x] by (simp add: take_bit_nat_eq_self)
  then have "unat (drop_bit (8 * i) x) = drop_bit (8 * i) (unat x)"
    by (simp only: unsigned_drop_bit_eq)
  also have "\<dots> = unat x div 256 ^ i" by (simp add: drop_bit_eq_div power_mult)
  finally show ?thesis .
qed

lemma to_be_bytes_digits: "map unat (to_be_bytes x) = digits 8 (unat x)"
proof -
  have "unat (ucast (drop_bit (8 * i) x) :: u8) = unat x div 256 ^ i mod 256" for i
    by (simp only: unsigned_ucast_eq unat_drop_byte take_bit_eq_mod) simp
  then show ?thesis by (simp add: to_be_bytes_def digits_def)
qed

lemma from_be_bytes_horner: "from_be_bytes bs = of_nat (horner (map unat bs))"
  by (induction bs rule: rev_induct) (simp_all add: from_be_bytes_def horner_def)

lemma map_unat_eq_iff [simp]: "map unat xs = map unat (ys :: 'a::len word list) \<longleftrightarrow> xs = ys"
  by (rule inj_map_eq_map) (simp add: inj_def word_unat_eq_iff)

section \<open>The header field\<close>

definition EXTRA_DATA_LEN :: nat where "EXTRA_DATA_LEN = 7"

definition MAX_PROPOSAL_ID :: u64 where "MAX_PROPOSAL_ID = 0xFFFFFFFFFFFF"

definition MAX_BASEFEE_PCTG :: u8 where "MAX_BASEFEE_PCTG = 100"

record extra_data =
  basefee_sharing_pctg :: u8
  proposal_id :: u64

definition encode :: "extra_data \<Rightarrow> u8 list outcome" where
  "encode e =
     (if MAX_BASEFEE_PCTG < basefee_sharing_pctg e
      then Err (Anyhow ''basefee_sharing_pctg exceeds 100'')
      else if MAX_PROPOSAL_ID < proposal_id e
      then Err (Anyhow ''proposal_id exceeds 48 bits'')
      else Ok (basefee_sharing_pctg e # drop 2 (to_be_bytes (proposal_id e))))"

definition decode :: "u8 list \<Rightarrow> extra_data outcome" where
  "decode extra =
     (if length extra \<noteq> EXTRA_DATA_LEN then Err (Anyhow ''Invalid extra data length'')
      else if MAX_BASEFEE_PCTG < extra ! 0 then Err (Anyhow ''Invalid basefee_sharing_pctg'')
      else Ok \<lparr>basefee_sharing_pctg = extra ! 0,
               proposal_id = from_be_bytes ([0, 0] @ drop 1 extra)\<rparr>)"

lemma id_range_iff: "\<not> MAX_PROPOSAL_ID < x \<longleftrightarrow> unat x < 256 ^ 6"
  by (auto simp: MAX_PROPOSAL_ID_def word_less_nat_alt)

lemma drop_to_be_bytes: "unat x < 256 ^ 6 \<Longrightarrow> map unat (drop 2 (to_be_bytes x)) = digits 6 (unat x)"
  using digits_zero_prefix [of "unat x" 6 2] by (simp flip: drop_map add: to_be_bytes_digits)

lemma horner_zeros: "horner (0 # 0 # ds) = horner ds"
  by (simp add: horner_def)

lemma unat_from_be_bytes:
  assumes "length bs = 6"
  shows "unat (from_be_bytes ([0, 0] @ bs)) = horner (map unat bs) \<and> horner (map unat bs) < 256 ^ 6 \<and>
    digits 6 (horner (map unat bs)) = map unat bs"
proof -
  have "\<forall>d \<in> set (map unat bs). d < 256"
    using unat_lt_len [where 'a = 8] by auto
  from digits_horner [OF this] assms
  have d: "digits 6 (horner (map unat bs)) = map unat bs" "horner (map unat bs) < 256 ^ 6" by simp_all
  then have "horner (map unat bs) < 2 ^ LENGTH(64)" by simp
  then have "unat (of_nat (horner (map unat bs)) :: u64) = horner (map unat bs)"
    by (rule unat_of_nat_lt)
  with d show ?thesis by (simp add: from_be_bytes_horner horner_zeros)
qed

text \<open>
  C22: The header field is a faithful code for the pair of sharing percentage and proposal id.
  A byte string is the encoding of a pair exactly if it decodes to this pair. Decoding an encoded
  pair gives the pair back, every byte string that decodes is the one encoding of its pair, and
  every pair out of range and every other byte string is refused.
\<close>
theorem encode_iff_decode: "encode e = Ok bs \<longleftrightarrow> decode bs = Ok e"
proof
  assume enc: "encode e = Ok bs"
  then have pct: "\<not> MAX_BASEFEE_PCTG < basefee_sharing_pctg e"
    and pid: "unat (proposal_id e) < 256 ^ 6"
    and bs: "bs = basefee_sharing_pctg e # drop 2 (to_be_bytes (proposal_id e))"
    by (auto simp: encode_def id_range_iff split: if_splits)
  have len: "length (drop 2 (to_be_bytes (proposal_id e))) = 6" by (simp add: to_be_bytes_def)
  have "unat (from_be_bytes ([0, 0] @ drop 2 (to_be_bytes (proposal_id e)))) = unat (proposal_id e)"
    by (metis unat_from_be_bytes [OF len] drop_to_be_bytes [OF pid] horner_digits mod_less pid)
  then have "from_be_bytes ([0, 0] @ drop 2 (to_be_bytes (proposal_id e))) = proposal_id e"
    by (simp only: word_unat_eq_iff)
  with bs pct len show "decode bs = Ok e" by (simp add: decode_def EXTRA_DATA_LEN_def)
next
  assume dec: "decode bs = Ok e"
  then have len: "length (drop 1 bs) = 6" and pct: "\<not> MAX_BASEFEE_PCTG < bs ! 0" and ne: "bs \<noteq> []"
    and e: "e = \<lparr>basefee_sharing_pctg = bs ! 0, proposal_id = from_be_bytes ([0, 0] @ drop 1 bs)\<rparr>"
    by (auto simp: decode_def EXTRA_DATA_LEN_def split: if_splits)
  note u = unat_from_be_bytes [OF len]
  have "map unat (drop 2 (to_be_bytes (proposal_id e))) = map unat (drop 1 bs)"
    using u drop_to_be_bytes [of "proposal_id e"] by (simp add: e)
  then have "drop 2 (to_be_bytes (proposal_id e)) = drop 1 bs" by (simp only: map_unat_eq_iff)
  moreover have "\<not> MAX_PROPOSAL_ID < proposal_id e" using u by (simp add: e id_range_iff)
  ultimately show "encode e = Ok bs"
    using pct ne by (simp add: encode_def e) (cases bs; simp)
qed

end
