(* ===== verification/Execution_Layers.thy ===== *)
theory Execution_Layers
  imports Services Extra_Data
begin

text \<open>
  The clients of the two chains, as actions on the world:
  \<^item> \<^verbatim>\<open>src/common/src/shared/execution_layer.rs\<close>, the calls both chains share, over a provider;
  \<^item> \<^verbatim>\<open>src/shasta/src/l1/execution_layer.rs\<close>, the inbox contract;
  \<^item> \<^verbatim>\<open>src/shasta/src/l2/execution_layer.rs\<close> and \<^verbatim>\<open>src/shasta/src/l2/taiko.rs\<close>, the L2 node;
  \<^item> \<^verbatim>\<open>src/common/src/l2/engine.rs\<close>, the size limit of the transaction pool request;
  \<^item> \<^verbatim>\<open>src/common/src/shared/anchor_block_info.rs\<close>, the constructors that read the chain.
\<close>

section \<open>Calls that both chains share\<close>

definition get_block_info_by_number ::
  "('w, 'tx) provider \<Rightarrow> u64 \<Rightarrow> ('w, u64 \<times> b256 \<times> b256) action" where
  "get_block_info_by_number p number =
     bind (map_err ''Failed to get block by number'' (get_block p (Number number) False)) (\<lambda>r.
     bind (lift (ok_or r ''Failed to get block by number'')) (\<lambda>block.
     return (rb_timestamp block, rb_hash block, rb_state_root block)))"

definition get_block_timestamp_by_number :: "('w, 'tx) provider \<Rightarrow> u64 \<Rightarrow> ('w, u64) action" where
  "get_block_timestamp_by_number p number =
     bind (get_block p (Number number) False) (\<lambda>r.
     bind (lift (ok_or r ''Failed to get block by number'')) (\<lambda>block.
     return (rb_timestamp block)))"

definition get_block_header :: "('w, 'tx) provider \<Rightarrow> block_tag \<Rightarrow> ('w, 'tx rpc_block) action" where
  "get_block_header p tag =
     bind (map_err ''Failed to get block header'' (get_block p tag False)) (\<lambda>r.
     lift (ok_or r ''Failed to get block header''))"

definition get_block_hash :: "('w, 'tx) provider \<Rightarrow> u64 \<Rightarrow> ('w, b256) action" where
  "get_block_hash p number =
     bind (map_err ''Failed to get block hash'' (get_block_header p (Number number))) (\<lambda>block.
     return (rb_hash block))"

definition get_block_with_txs :: "('w, 'tx) provider \<Rightarrow> block_tag \<Rightarrow> ('w, 'tx rpc_block) action" where
  "get_block_with_txs p tag =
     bind (map_err ''Failed to get latest block'' (get_block p tag True)) (\<lambda>r.
     lift (ok_or r ''Failed to get latest block''))"

definition get_latest_block_id :: "('w, 'tx) provider \<Rightarrow> ('w, u64) action" where
  "get_latest_block_id p = map_err ''Failed to get latest block number'' (get_block_number p)"

definition get_block_by_number ::
  "('w, 'tx) provider \<Rightarrow> u64 \<Rightarrow> bool \<Rightarrow> ('w, 'tx rpc_block) action" where
  "get_block_by_number p number full_txs =
     bind (map_err ''Failed to get block by number'' (get_block p (Number number) full_txs)) (\<lambda>r.
     lift (ok_or r ''Failed to get L2 block: value was None''))"

definition get_transaction_by_hash :: "('w, 'tx) provider \<Rightarrow> b256 \<Rightarrow> ('w, 'tx) action" where
  "get_transaction_by_hash p hash =
     bind (map_err ''Failed to get L2 transaction by hash'' (get_transaction p hash)) (\<lambda>r.
     lift (ok_or r ''Failed to get transaction: value is None''))"

definition get_account_nonce :: "('w, 'tx) provider \<Rightarrow> address \<Rightarrow> block_tag \<Rightarrow> ('w, u64) action" where
  "get_account_nonce p account tag =
     map_err ''Failed to get nonce'' (get_transaction_count p account tag)"

section \<open>Anchor blocks\<close>

definition anchor_from_block_number ::
  "('w, 'tx) services \<Rightarrow> u64 \<Rightarrow> ('w, anchor_block_info) action" where
  "anchor_from_block_number S number =
     bind (get_block_info_by_number (l1_provider S) number) (\<lambda>(ts, hash, root).
     return \<lparr>ab_id = number, ab_timestamp_sec = ts, ab_hash = hash, ab_state_root = root\<rparr>)"

definition anchor_from_chain_state ::
  "('w, 'tx) services \<Rightarrow> u64 \<Rightarrow> u64 \<Rightarrow> u64 \<Rightarrow> ('w, anchor_block_info) action" where
  "anchor_from_chain_state S l1_height_lag last_anchor_id min_anchor_offset =
     bind (get_latest_block_id (l1_provider S)) (\<lambda>l1_height.
     bind (lift (calculate_anchor_block_id l1_height l1_height_lag last_anchor_id min_anchor_offset))
       (anchor_from_block_number S))"

definition anchor_from_precomputed_data ::
  "('w, 'tx) services \<Rightarrow> u64 \<Rightarrow> b256 \<Rightarrow> b256 \<Rightarrow> ('w, anchor_block_info) action" where
  "anchor_from_precomputed_data S number hash root =
     bind (get_block_timestamp_by_number (l1_provider S) number) (\<lambda>ts.
     return \<lparr>ab_id = number, ab_timestamp_sec = ts, ab_hash = hash, ab_state_root = root\<rparr>)"

section \<open>The inbox contract\<close>

record inbox_forced_inclusion_state_rec =
  fi_next_proposal_id :: u64
  fi_head :: u64
  fi_tail :: u64

definition get_preconfer_nonce_pending :: "('w, 'tx) services \<Rightarrow> ('w, u64) action" where
  "get_preconfer_nonce_pending S = get_account_nonce (l1_provider S) (preconfer_address S) Pending"

definition get_preconfer_nonce_latest :: "('w, 'tx) services \<Rightarrow> ('w, u64) action" where
  "get_preconfer_nonce_latest S = get_account_nonce (l1_provider S) (preconfer_address S) Latest"

definition send_proposal_to_l1 ::
  "('w, 'tx) services \<Rightarrow> 'tx l2_block_v2 list \<Rightarrow> u16 \<Rightarrow> ('w, unit) action" where
  "send_proposal_to_l1 S l2_blocks num_forced_inclusion =
     bind (map_err ''get_preconfer_nonce_pending (send_proposal_to_l1) failed''
             (get_preconfer_nonce_pending S)) (\<lambda>pending_nonce.
     map_err ''Sending proposal to L1 failed''
       (monitor_new_transaction S l2_blocks num_forced_inclusion pending_nonce))"

definition is_transaction_in_progress :: "('w, 'tx) services \<Rightarrow> ('w, bool) action" where
  "is_transaction_in_progress S = map_err ''is_transaction_in_progress'' (transaction_in_progress S)"

definition get_activation_timestamp :: "('w, 'tx) services \<Rightarrow> ('w, u64) action" where
  "get_activation_timestamp S =
     bind (map_err ''Failed to call activationTimestamp for Inbox'' (inbox_activation_timestamp S))
       (\<lambda>ts. return (ucast ts))"

definition get_forced_inclusion_head :: "('w, 'tx) services \<Rightarrow> ('w, u64) action" where
  "get_forced_inclusion_head S =
     bind (map_err ''Failed to call getForcedInclusionState for Inbox'' (inbox_forced_inclusion_state S))
       (\<lambda>(head, tail). return (ucast head))"

definition get_forced_inclusion_tail :: "('w, 'tx) services \<Rightarrow> ('w, u64) action" where
  "get_forced_inclusion_tail S =
     bind (map_err ''Failed to call getForcedInclusionState for Inbox'' (inbox_forced_inclusion_state S))
       (\<lambda>(head, tail). return (ucast tail))"

text \<open>\<open>U48::from\<close> panics on a value that does not fit.\<close>

definition u48_from :: "u64 \<Rightarrow> u48 outcome" where
  "u48_from x = (if unat x < 2 ^ 48 then Ok (ucast x) else Panic)"

definition get_forced_inclusion :: "('w, 'tx) services \<Rightarrow> u64 \<Rightarrow> ('w, blob_slice) action" where
  "get_forced_inclusion S idx =
     bind (lift (u48_from idx)) (\<lambda>idx48.
     bind (map_err ''Failed to call getForcedInclusions for Inbox'' (inbox_forced_inclusions S idx48 1))
       (\<lambda>inclusions.
     lift (ok_or (case inclusions of [] \<Rightarrow> None | x # _ \<Rightarrow> Some x) ''No forced inclusion at index'')))"

definition get_inbox_state :: "('w, 'tx) services \<Rightarrow> ('w, u48) action" where
  "get_inbox_state S = map_err ''Failed to call getInboxState for Inbox'' (inbox_core_state S None)"

definition get_inbox_state_when_timestamp_reached ::
  "('w, 'tx) services \<Rightarrow> u64 \<Rightarrow> ('w, u48 option) action" where
  "get_inbox_state_when_timestamp_reached S ts =
     bind (map_err ''Failed to fetch latest block'' (get_block (l1_provider S) Latest False)) (\<lambda>r.
     bind (lift (ok_or r ''Latest block not found'')) (\<lambda>block_header.
     if rb_timestamp block_header < ts then return None
     else bind (map_err ''Failed to call getCoreState for Inbox''
                 (inbox_core_state S (Some (rb_number block_header)))) (\<lambda>core_state.
          return (Some core_state))))"

definition get_inbox_next_proposal_id :: "('w, 'tx) services \<Rightarrow> ('w, u64) action" where
  "get_inbox_next_proposal_id S =
     bind (map_err ''getCoreState (get_inbox_next_proposal_id)'' (inbox_core_state S None))
       (\<lambda>n. return (ucast n))"

definition get_inbox_forced_inclusion_state ::
  "('w, 'tx) services \<Rightarrow> ('w, inbox_forced_inclusion_state_rec) action" where
  "get_inbox_forced_inclusion_state S =
     bind (map_err ''Failed to send batch request'' (inbox_batched_state S)) (\<lambda>(next_id, head, tail).
     return \<lparr>fi_next_proposal_id = ucast next_id, fi_head = ucast head, fi_tail = ucast tail\<rparr>)"

section \<open>The L2 execution layer\<close>

definition get_proposal_id_from_geth :: "('w, 'tx) services \<Rightarrow> block_tag \<Rightarrow> ('w, u64) action" where
  "get_proposal_id_from_geth S tag =
     bind (get_block_header (l2_provider S) tag) (\<lambda>block.
     bind (lift (decode (rb_extra_data block))) (\<lambda>d. return (proposal_id d)))"

definition get_last_synced_proposal_id_from_geth :: "('w, 'tx) services \<Rightarrow> ('w, u64) action" where
  "get_last_synced_proposal_id_from_geth S = get_proposal_id_from_geth S Latest"

definition get_proposal_id_from_geth_by_block_id ::
  "('w, 'tx) services \<Rightarrow> u64 \<Rightarrow> ('w, u64) action" where
  "get_proposal_id_from_geth_by_block_id S block_id = get_proposal_id_from_geth S (Number block_id)"

definition get_latest_block_id_and_proposal_id :: "('w, 'tx) services \<Rightarrow> ('w, u64 \<times> u64) action" where
  "get_latest_block_id_and_proposal_id S =
     bind (get_block_header (l2_provider S) Latest) (\<lambda>block.
     bind (lift (decode (rb_extra_data block))) (\<lambda>d. return (rb_number block, proposal_id d)))"

definition get_anchor_transaction_input ::
  "('w, 'tx) services \<Rightarrow> block_tag \<Rightarrow> ('w, u8 list) action" where
  "get_anchor_transaction_input S tag =
     bind (get_block_with_txs (l2_provider S) tag) (\<lambda>block.
     case rb_transactions block of
       None \<Rightarrow> raise (Anyhow ''No transactions in L2 block'')
     | Some [] \<Rightarrow> raise (Anyhow ''get_anchor_transaction_input: Cannot get anchor transaction'')
     | Some (anchor_tx # _) \<Rightarrow> return (tx_input S anchor_tx))"

definition decode_anchor_id_from_tx_data :: "('w, 'tx) services \<Rightarrow> u8 list \<Rightarrow> u64 outcome" where
  "decode_anchor_id_from_tx_data S data =
     (case abi_anchor_v4 S data of
        Some cp \<Rightarrow> Ok (ucast (cp_block_number cp))
      | None \<Rightarrow> ok_or (abi_anchor_v3 S data) ''Failed to decode anchor id from tx data'')"

definition get_anchor_block_id_from_geth :: "('w, 'tx) services \<Rightarrow> u64 \<Rightarrow> ('w, u64) action" where
  "get_anchor_block_id_from_geth S block_id =
     (if block_id = 0 then return 0
      else bind (map_err ''get_anchor_block_id_from_geth'' (get_anchor_transaction_input S (Number block_id)))
             (\<lambda>input. lift (decode_anchor_id_from_tx_data S input)))"

definition get_anchor_tx_data :: "('w, 'tx) services \<Rightarrow> u8 list \<Rightarrow> checkpoint outcome" where
  "get_anchor_tx_data S data = ok_or (abi_anchor_v4 S data) ''Failed to decode anchor tx data''"

definition get_head_l1_origin :: "('w, 'tx) services \<Rightarrow> ('w, u64) action" where
  "get_head_l1_origin S = map_err ''Failed to fetch taiko_headL1Origin'' (head_l1_origin S)"

definition get_forced_inclusion_form_l1origin :: "('w, 'tx) services \<Rightarrow> u64 \<Rightarrow> ('w, bool) action" where
  "get_forced_inclusion_form_l1origin S block_id =
     map_err ''Failed to get forced inclusion'' (l1_origin_is_forced S block_id)"

definition decode_block_params_from_tx_data :: "('w, 'tx) services \<Rightarrow> u8 list \<Rightarrow> checkpoint outcome" where
  "decode_block_params_from_tx_data S data =
     ok_or (abi_anchor_v4 S data) ''Failed to decode proposal id from tx data''"

definition get_block_params_from_geth :: "('w, 'tx) services \<Rightarrow> u64 \<Rightarrow> ('w, checkpoint) action" where
  "get_block_params_from_geth S block_id =
     bind (map_err ''get_block_params_from_geth'' (get_anchor_transaction_input S (Number block_id)))
       (\<lambda>input. lift (decode_block_params_from_tx_data S input))"

definition construct_anchor_tx ::
  "('w, 'tx) services \<Rightarrow> l2_slot_info \<Rightarrow> checkpoint \<Rightarrow> ('w, 'tx) action" where
  "construct_anchor_tx S info params =
     bind (map_err ''Failed to get transaction count''
             (get_transaction_count_at (l2_provider S) (golden_touch_address S) (parent_hash info))) (\<lambda>nonce.
     bind (lift (sign_anchor_tx S nonce (base_fee info) params)) (\<lambda>tx.
     bind (lift (add (parent_id info) 1)) (\<lambda>_. return tx)))"

section \<open>The engine\<close>

fun throttle :: "u64 \<Rightarrow> u64 \<Rightarrow> nat \<Rightarrow> u64 outcome" where
  "throttle factor sz 0 = Ok sz"
| "throttle factor sz (Suc n) =
     and_then (div_chk sz factor) (\<lambda>q. throttle factor (saturating_sub sz q) n)"

definition calculate_max_bytes_per_tx_list :: "u64 \<Rightarrow> u64 \<Rightarrow> u64 \<Rightarrow> u64 \<Rightarrow> u64 outcome" where
  "calculate_max_bytes_per_tx_list max_bytes factor batches min_bytes =
     and_then (throttle factor max_bytes (unat batches)) (\<lambda>sz.
     Ok (min max_bytes (max sz min_bytes)))"

definition get_pending_l2_tx_list_from_l2_engine ::
  "('w, 'tx) services \<Rightarrow> u64 \<Rightarrow> u64 \<Rightarrow> u64 \<Rightarrow> ('w, 'tx pre_built_tx_list option) action" where
  "get_pending_l2_tx_list_from_l2_engine S fee proposals_ready_to_send gas_limit =
     bind (lift (calculate_max_bytes_per_tx_list (max_bytes_per_tx_list S) (throttling_factor S)
                  proposals_ready_to_send (min_bytes_per_tx_list S))) (\<lambda>max_bytes.
     map_err ''Failed to get L2 tx lists'' (pending_tx_list S fee gas_limit max_bytes))"

section \<open>Taiko\<close>

definition get_latest_l2_block_id :: "('w, 'tx) services \<Rightarrow> ('w, u64) action" where
  "get_latest_l2_block_id S = get_latest_block_id (l2_provider S)"

definition get_l2_block_by_number ::
  "('w, 'tx) services \<Rightarrow> u64 \<Rightarrow> bool \<Rightarrow> ('w, 'tx rpc_block) action" where
  "get_l2_block_by_number S = get_block_by_number (l2_provider S)"

definition get_l2_block_hash :: "('w, 'tx) services \<Rightarrow> u64 \<Rightarrow> ('w, b256) action" where
  "get_l2_block_hash S = get_block_hash (l2_provider S)"

text \<open>
  The capacity \<open>end_block - start_block + 1\<close> is computed before the loop, so an empty range panics
  already there.
\<close>

definition fetch_l2_blocks_until_latest ::
  "('w, 'tx) services \<Rightarrow> u64 \<Rightarrow> bool \<Rightarrow> ('w, 'tx rpc_block list) action" where
  "fetch_l2_blocks_until_latest S start_block full_txs =
     bind (get_latest_l2_block_id S) (\<lambda>end_block.
     bind (lift (and_then (sub end_block start_block) (\<lambda>n. add n 1))) (\<lambda>_.
     for_each (\<lambda>blocks n. bind (get_l2_block_by_number S n full_txs) (\<lambda>b. return (blocks @ [b])))
       [] (range_incl start_block end_block)))"

definition get_last_certain_block_id_by_proposal_id ::
  "('w, 'tx) services \<Rightarrow> u64 \<Rightarrow> ('w, u64) action" where
  "get_last_certain_block_id_by_proposal_id S pid =
     bind (last_certain_block_id S pid) (\<lambda>r. lift (ok_or r ''no last certain block id returned''))"

fun count_fi_blocks :: "('w, 'tx) services \<Rightarrow> u64 \<Rightarrow> u64 list \<Rightarrow> u64 \<Rightarrow> ('w, u64) action" where
  "count_fi_blocks S tail [] head = return head"
| "count_fi_blocks S tail (block_id # ids) head =
     bind (get_forced_inclusion_form_l1origin S block_id) (\<lambda>forced.
     bind (if forced then lift (add head 1) else return head) (\<lambda>head'.
     if head' = tail then return head' else count_fi_blocks S tail ids head'))"

definition calculate_current_fi_head ::
  "('w, 'tx) services \<Rightarrow> inbox_forced_inclusion_state_rec \<Rightarrow> ('w, u64) action" where
  "calculate_current_fi_head S st =
     (if 2 < fi_next_proposal_id st \<and> fi_head st < fi_tail st
      then bind (lift (sub (fi_next_proposal_id st) 1)) (\<lambda>pid.
           bind (get_last_certain_block_id_by_proposal_id S pid) (\<lambda>safe_block_id.
           bind (get_latest_l2_block_id S) (\<lambda>unsafe_block_id.
           bind (lift (add safe_block_id 1)) (\<lambda>first.
           count_fi_blocks S (fi_tail st) (range_incl first unsafe_block_id) (fi_head st)))))
      else return (fi_head st))"

definition get_base_fee :: "('w, 'tx) services \<Rightarrow> 'tx rpc_block \<Rightarrow> ('w, u64) action" where
  "get_base_fee S parent_block =
     (if rb_number parent_block = 0 then return (initial_base_fee S)
      else bind (lift (sub (rb_number parent_block) 1)) (\<lambda>grandparent_number.
           bind (get_block_header (l2_provider S) (Number grandparent_number)) (\<lambda>grandparent.
           bind (lift (ok_or (checked_sub (rb_timestamp parent_block) (rb_timestamp grandparent))
                   ''get_base_fee:Timestamp underflow occurred'')) (\<lambda>timestamp_diff.
           bind (lift (ok_or (rb_base_fee parent_block)
                   ''get_base_fee: Parent block missing base fee per gas'')) (\<lambda>fee.
           return (next_base_fee S parent_block timestamp_diff fee))))))"

definition clamp :: "u64 \<Rightarrow> u64 \<Rightarrow> u64 \<Rightarrow> u64 outcome" where
  "clamp x lo hi = (if hi < lo then Panic else Ok (max lo (min x hi)))"

definition get_l2_slot_info_by_parent_block ::
  "('w, 'tx) services \<Rightarrow> block_tag \<Rightarrow> ('w, l2_slot_info) action" where
  "get_l2_slot_info_by_parent_block S parent =
     bind (system_now S) (\<lambda>now.
     bind (lift (get_l2_slot_begin_timestamp (slot_clock_of S) now)) (\<lambda>l2_slot_timestamp.
     bind (get_block_header (l2_provider S) parent) (\<lambda>parent_block.
     bind (if rb_number parent_block \<noteq> 0
           then lift (ok_or (checked_sub (rb_gas_limit parent_block) (anchor_gas_limit S))
                        ''parent_gas_limit is less than ANCHOR_V3_V4_GAS_LIMIT'')
           else return (rb_gas_limit parent_block)) (\<lambda>gas.
     bind (lift (clamp gas (min_block_gas_limit S) (max_block_gas_limit S))) (\<lambda>gas.
     bind (get_base_fee S parent_block) (\<lambda>fee.
     return \<lparr>base_fee = fee, slot_timestamp = l2_slot_timestamp, parent_id = rb_number parent_block,
             parent_hash = rb_hash parent_block, parent_gas_limit_without_anchor = gas,
             parent_timestamp = rb_timestamp parent_block\<rparr>))))))"

definition get_l2_slot_info :: "('w, 'tx) services \<Rightarrow> ('w, l2_slot_info) action" where
  "get_l2_slot_info S = get_l2_slot_info_by_parent_block S Latest"

section \<open>Properties\<close>

lemma throttle_Ok: "factor \<noteq> 0 \<Longrightarrow> \<exists>r. throttle factor sz n = Ok r \<and> r \<le> sz"
proof (induction n arbitrary: sz)
  case (Suc n)
  then obtain r where "throttle factor (saturating_sub sz (sz div factor)) n = Ok r"
    "r \<le> saturating_sub sz (sz div factor)" by blast
  moreover have "saturating_sub sz (sz div factor) \<le> sz" by (simp add: word_le_nat_alt)
  ultimately show ?case using Suc.prems by (auto simp: div_chk_def)
qed simp

lemma throttle_add:
  "throttle factor sz (m + n) = and_then (throttle factor sz m) (\<lambda>r. throttle factor r n)"
  by (induction m arbitrary: sz) (simp_all add: and_then_assoc)

text \<open>
  The request size for the transaction pool. With a non-zero throttling factor the limit is
  always defined, never above \<open>max_bytes_per_tx_list\<close>, never below \<open>min_bytes_per_tx_list\<close> unless
  the maximum itself is, and it does not grow with the number of proposals waiting to be sent.
\<close>
lemma throttled_tx_list_size:
  assumes "factor \<noteq> 0" "batches \<le> batches'"
  shows "\<exists>r r'. calculate_max_bytes_per_tx_list hi factor batches lo = Ok r \<and>
    calculate_max_bytes_per_tx_list hi factor batches' lo = Ok r' \<and>
    r' \<le> r \<and> r \<le> hi \<and> min hi lo \<le> r'"
proof -
  obtain s where s: "throttle factor hi (unat batches) = Ok s" using throttle_Ok assms(1) by blast
  obtain s' where s': "throttle factor s (unat batches' - unat batches) = Ok s'" "s' \<le> s"
    using throttle_Ok assms(1) by blast
  have "unat batches' = unat batches + (unat batches' - unat batches)"
    using assms(2) by (simp add: word_le_nat_alt)
  then have "throttle factor hi (unat batches') = Ok s'"
    using s s' throttle_add [of factor hi "unat batches" "unat batches' - unat batches"] by simp
  with s s' show ?thesis
    by (auto simp: calculate_max_bytes_per_tx_list_def min_def max_def)
qed

lemma map_err_Ok: "m s = (Ok a, s') \<Longrightarrow> map_err msg m s = (Ok a, s')"
  by (simp add: map_err_def attempt_def return_def)

lemma count_fi_blocks_run:
  assumes forced: "\<And>b. l1_origin_is_forced S b w = (Ok (forced b), w)"
  shows "head < tail \<Longrightarrow> \<exists>r. count_fi_blocks S tail ids head w = (Ok r, w) \<and>
    unat r = min (unat tail) (unat head + length (filter forced ids))"
proof (induction ids arbitrary: head)
  case Nil
  then show ?case by (simp add: return_def word_less_nat_alt)
next
  case (Cons b ids)
  have q: "get_forced_inclusion_form_l1origin S b w = (Ok (forced b), w)"
    unfolding get_forced_inclusion_form_l1origin_def by (rule map_err_Ok) (rule forced)
  have lt: "unat head < unat tail" using Cons.prems by (simp add: word_less_nat_alt)
  show ?case
  proof (cases "forced b")
    case True
    have "unat head + 1 < 2 ^ 64" using lt unat_lt_len [of tail] by simp
    then obtain h :: u64 where h: "add head 1 = Ok h" "unat h = unat head + 1"
      by (simp add: add_def unat_word_ariths)
    show ?thesis
    proof (cases "h = tail")
      case True
      with h lt q \<open>forced b\<close> show ?thesis
        by (simp add: bind_def lift_def q return_def min_def del: add_Ok_iff)
    next
      case False
      with h lt have "h < tail" by (auto simp: word_less_nat_alt word_unat_eq_iff)
      from Cons.IH [OF this] h False q \<open>forced b\<close> show ?thesis
        by (simp add: bind_def lift_def q del: add_Ok_iff)
    qed
  next
    case False
    with Cons.IH [OF Cons.prems] Cons.prems q show ?thesis
      by (auto simp: bind_def return_def q)
  qed
qed

text \<open>
  The unsafe head of the forced inclusion queue. If the L2 node tells for each block whether
  it is a forced inclusion, the computed index is the head recorded on L1 plus the number of
  forced inclusion blocks above the last safe block, cut off at the tail of the queue. In
  particular it is always between the head and the tail.
\<close>
lemma current_fi_head_counts:
  assumes "2 < fi_next_proposal_id st" "fi_head st < fi_tail st"
    and "last_certain_block_id S (fi_next_proposal_id st - 1) w = (Ok (Some safe), w')"
    and "get_block_number (l2_provider S) w' = (Ok tip, w'')"
    and "\<And>b. l1_origin_is_forced S b w'' = (Ok (forced b), w'')"
    and "unat safe + 1 < 2 ^ 64"
  shows "\<exists>r. calculate_current_fi_head S st w = (Ok r, w'') \<and>
    unat r = min (unat (fi_tail st))
      (unat (fi_head st) + length (filter forced (range_incl (safe + 1) tip)))"
proof -
  have pid: "sub (fi_next_proposal_id st) 1 = Ok (fi_next_proposal_id st - 1)"
    using assms(1) by (auto simp: sub_def word_le_nat_alt word_less_nat_alt)
  have first: "add safe 1 = Ok (safe + 1)" using assms(6) by (simp add: add_def)
  have top: "get_latest_l2_block_id S w' = (Ok tip, w'')"
    unfolding get_latest_l2_block_id_def get_latest_block_id_def by (rule map_err_Ok) (rule assms)
  have safe: "get_last_certain_block_id_by_proposal_id S (fi_next_proposal_id st - 1) w = (Ok safe, w')"
    using assms(3) by (simp add: get_last_certain_block_id_by_proposal_id_def bind_def lift_def)
  have run: "calculate_current_fi_head S st w =
      count_fi_blocks S (fi_tail st) (range_incl (safe + 1) tip) (fi_head st) w''"
    using assms(1,2) pid first
    by (simp add: calculate_current_fi_head_def bind_def lift_def safe top del: add_Ok_iff sub_Ok_iff)
  show ?thesis unfolding run by (rule count_fi_blocks_run) (use assms in auto)
qed

lemma for_each_fetch:
  assumes "\<And>n. get_block (l2_provider S) (Number n) full w = (Ok (Some (blk n)), w)"
  shows "for_each (\<lambda>blocks n. bind (get_l2_block_by_number S n full) (\<lambda>b. return (blocks @ [b]))) acc ns w
    = (Ok (acc @ map blk ns), w)"
proof -
  have "map_err msg (get_block (l2_provider S) (Number n) full) w = (Ok (Some (blk n)), w)" for msg n
    by (rule map_err_Ok) (rule assms)
  then show ?thesis
    by (induction ns arbitrary: acc)
      (simp_all add: bind_def return_def lift_def get_l2_block_by_number_def get_block_by_number_def)
qed

text \<open>
  Fetching the blocks above a given height. With an L2 node that serves every block, the blocks
  from \<open>start_block\<close> to the latest one are returned in order; but if the chain has no block at or
  above \<open>start_block\<close>, the call does not return an empty list, it panics on the computation of
  the capacity.
\<close>
lemma fetch_blocks_or_panic:
  assumes "get_block_number (l2_provider S) w = (Ok latest, w)"
    and "\<And>n. get_block (l2_provider S) (Number n) full w = (Ok (Some (blk n)), w)"
    and "start \<noteq> 0"
  shows "fetch_l2_blocks_until_latest S start full w =
    ((if latest < start then Panic else Ok (map blk (range_incl start latest))), w)"
proof -
  have top: "get_latest_l2_block_id S w = (Ok latest, w)"
    unfolding get_latest_l2_block_id_def get_latest_block_id_def by (rule map_err_Ok) (rule assms)
  show ?thesis
  proof (cases "latest < start")
    case True
    then have "sub latest start = Panic" by (auto simp: sub_def)
    with True top show ?thesis
      by (simp add: fetch_l2_blocks_until_latest_def bind_def lift_def del: sub_Panic_iff)
  next
    case False
    have pos: "0 < unat start" using assms(3) by (simp add: unat_gt_0)
    from False have "sub latest start = Ok (latest - start)" by (auto simp: sub_def)
    moreover have "unat (latest - start) + 1 < 2 ^ 64"
      using False pos unat_lt_len [of latest] by (auto simp: unat_minus_le word_less_nat_alt word_le_nat_alt)
    then have "add (latest - start) 1 = Ok (latest - start + 1)" by (simp add: add_def)
    ultimately show ?thesis
      using False top for_each_fetch [OF assms(2)]
      by (simp add: fetch_l2_blocks_until_latest_def bind_def lift_def del: add_Ok_iff sub_Ok_iff)
  qed
qed

end
