(* ===== verification/Forced_Inclusion.thy ===== *)
theory Forced_Inclusion
  imports Execution_Layers
begin

text \<open>
  \<^verbatim>\<open>src/shasta/src/forced_inclusion/mod.rs\<close>: the node's cursor into the queue of forced inclusions of
  the inbox contract. The state is the cursor \<open>index\<close> paired with the world.
\<close>

type_synonym 'w fi_state = "u64 \<times> 'w"

definition fi_world :: "('w, 'a) action \<Rightarrow> ('w fi_state, 'a) action" where
  "fi_world = zoom snd (\<lambda>w (i, _). (i, w))"

definition forced_inclusion_new :: "('w, 'tx) services \<Rightarrow> ('w, u64) action" where
  "forced_inclusion_new S = get_forced_inclusion_head S"

definition sync_queue_index_with_head :: "('w, 'tx) services \<Rightarrow> ('w fi_state, u64) action" where
  "sync_queue_index_with_head S =
     bind (fi_world (get_forced_inclusion_head S)) (\<lambda>head.
     bind (modify (\<lambda>(_, w). (head, w))) (\<lambda>_. return head))"

definition extract_transactions_from_blob_bytes ::
  "('w, 'tx) services \<Rightarrow> u8 list \<Rightarrow> 24 word \<Rightarrow> 'tx list option outcome" where
  "extract_transactions_from_blob_bytes S bytes offset =
     and_then (decode_manifest S bytes offset) (\<lambda>blocks.
     case blocks of
       [txs] \<Rightarrow> and_then (convert_tx_envelopes S txs) (\<lambda>txs'. Ok (Some txs'))
     | _ \<Rightarrow> Err (Anyhow ''Expected exactly one block in forced inclusion manifest''))"

definition decode_current_forced_inclusion ::
  "('w, 'tx) services \<Rightarrow> ('w fi_state, 'tx list option) action" where
  "decode_current_forced_inclusion S =
     bind (fi_world (get_forced_inclusion_tail S)) (\<lambda>tail.
     bind (gets fst) (\<lambda>idx.
     if tail \<le> idx then return None
     else bind (fi_world (get_forced_inclusion S idx)) (\<lambda>blob.
          bind (fi_world (blob_bytes S (ucast (bs_timestamp blob)) (bs_blob_hashes blob))) (\<lambda>bytes.
          or_value (lift (extract_transactions_from_blob_bytes S bytes (bs_offset blob))) (Some [])))))"

definition increment_index :: "('w fi_state, unit) action" where
  "increment_index =
     bind (gets (\<lambda>(i, _). add i 1)) (\<lambda>r.
     bind (lift r) (\<lambda>i. modify (\<lambda>(_, w). (i, w))))"

definition consume_forced_inclusion ::
  "('w, 'tx) services \<Rightarrow> ('w fi_state, 'tx list option) action" where
  "consume_forced_inclusion S =
     bind (decode_current_forced_inclusion S) (\<lambda>fi.
     bind (if fi \<noteq> None then increment_index else return ()) (\<lambda>_. return fi))"

definition release_forced_inclusion :: "('w fi_state, unit) action" where
  "release_forced_inclusion = modify (\<lambda>(i, w). (if 0 < i then i - 1 else i, w))"

lemma fi_world_index: "fi_world m (i, w) = (r, (i', w')) \<longleftrightarrow> i' = i \<and> m w = (r, w')"
  by (auto simp: fi_world_def zoom_def split: prod.splits)

lemma decode_keeps_index: "decode_current_forced_inclusion S (i, w) = (r, (i', w')) \<Longrightarrow> i' = i"
  by (auto simp: decode_current_forced_inclusion_def bind_def gets_def return_def or_value_def attempt_def
      lift_def fi_world_def zoom_def split: prod.splits outcome.splits if_splits)

lemma decode_Some_below_tail:
  assumes "decode_current_forced_inclusion S (i, w) = (Ok (Some txs), (i', w'))"
  shows "\<exists>tail w1. get_forced_inclusion_tail S w = (Ok tail, w1) \<and> i < tail"
  using assms
  by (auto simp: decode_current_forced_inclusion_def bind_def gets_def return_def fi_world_def zoom_def
      split: prod.splits outcome.splits if_splits)

lemma consume_Some:
  assumes "consume_forced_inclusion S (i, w) = (Ok (Some txs), (i', w'))"
  shows "unat i' = unat i + 1 \<and> release_forced_inclusion (i', v) = (Ok (), (i, v)) \<and>
    (\<exists>tail w1. get_forced_inclusion_tail S w = (Ok tail, w1) \<and> i < tail)"
proof -
  obtain d j u where d: "decode_current_forced_inclusion S (i, w) = (d, (j, u))"
    by (metis prod.collapse)
  have j: "j = i" by (rule decode_keeps_index [OF d])
  from assms d j have add: "d = Ok (Some txs)" "add i 1 = Ok i'"
    by (auto simp: consume_forced_inclusion_def increment_index_def bind_def gets_def lift_def
        modify_def return_def simp del: add_Ok_iff split: outcome.splits if_splits)
  have below: "\<exists>tail w1. get_forced_inclusion_tail S w = (Ok tail, w1) \<and> i < tail"
    by (rule decode_Some_below_tail) (use d add in blast)
  from add have i': "unat i' = unat i + 1" by simp
  then have "0 < i'" "i' - 1 = i"
    by (auto simp: word_less_nat_alt word_unat_eq_iff unat_minus_le word_le_nat_alt)
  with i' below show ?thesis by (simp add: release_forced_inclusion_def modify_def)
qed

text \<open>
  The cursor moves by exactly one on a consumed forced inclusion, which lies strictly before the
  tail of the queue at that moment, and not at all otherwise, whether there was nothing to consume or
  a service failed; and releasing a consumed inclusion puts the cursor back.
\<close>
lemma forced_inclusion_cursor:
  assumes "consume_forced_inclusion S (i, w) = (r, (i', w'))" "r \<noteq> Panic"
  shows "(case r of
      Ok (Some txs) \<Rightarrow> unat i' = unat i + 1 \<and> release_forced_inclusion (i', w') = (Ok (), (i, w')) \<and>
        (\<exists>tail w1. get_forced_inclusion_tail S w = (Ok tail, w1) \<and> i < tail)
    | _ \<Rightarrow> i' = i)"
proof -
  obtain d j v where d: "decode_current_forced_inclusion S (i, w) = (d, (j, v))"
    by (metis prod.collapse)
  have j: "j = i" by (rule decode_keeps_index [OF d])
  show ?thesis
  proof (cases "\<exists>txs. d = Ok (Some txs)")
    case True
    with assms d j have "\<exists>txs. r = Ok (Some txs)"
      by (auto simp: consume_forced_inclusion_def increment_index_def bind_def gets_def lift_def
          modify_def return_def split: outcome.splits)
    with assms consume_Some show ?thesis by fastforce
  next
    case False
    with assms d j show ?thesis
      by (auto simp: consume_forced_inclusion_def bind_def return_def split: outcome.splits option.splits)
  qed
qed

text \<open>
  A forced inclusion cannot block the node by being malformed: once its blob is at hand, a payload
  that does not decode to exactly one block of well-formed transactions is consumed as an empty
  list of transactions, never reported as an error.
\<close>
lemma malformed_forced_inclusion_is_empty:
  assumes "get_forced_inclusion_tail S w = (Ok tail, w1)" "i < tail"
    and "get_forced_inclusion S i w1 = (Ok blob, w2)"
    and "blob_bytes S (ucast (bs_timestamp blob)) (bs_blob_hashes blob) w2 = (Ok bytes, w3)"
    and "extract_transactions_from_blob_bytes S bytes (bs_offset blob) = Err e"
  shows "consume_forced_inclusion S (i, w) = (Ok (Some []), (i + 1, w3))"
proof -
  have "add i 1 = Ok (i + 1)"
    using assms(2) unat_lt_len [of tail] by (simp add: add_def word_less_nat_alt)
  with assms show ?thesis
    by (auto simp: consume_forced_inclusion_def decode_current_forced_inclusion_def increment_index_def
        fi_world_def zoom_def bind_def return_def gets_def modify_def lift_def or_value_def attempt_def
        simp del: add_Ok_iff)
qed

end
