(* ===== verification/Guards.thy ===== *)
theory Guards
  imports Services
begin

text \<open>
  The guards of the main loop: the head verifier (\<^verbatim>\<open>src/common/src/shared/head_verifier.rs\<close>), which
  tracks the L2 head the node expects, and the watchdog (\<^verbatim>\<open>src/common/src/utils/watchdog.rs\<close>), which
  cancels the node after too many failed heartbeats in a row.
\<close>

section \<open>Head verifier\<close>

record head_status =
  head_number :: u64
  head_hash :: b256

definition head_verifier_new :: head_status where
  "head_verifier_new = \<lparr>head_number = 0, head_hash = 0\<rparr>"

definition head_set :: "u64 \<Rightarrow> b256 \<Rightarrow> head_status \<Rightarrow> head_status" where
  "head_set number hash h = \<lparr>head_number = number, head_hash = hash\<rparr>"

definition head_verify :: "u64 \<Rightarrow> b256 \<Rightarrow> head_status \<Rightarrow> bool" where
  "head_verify number hash h = (number = head_number h \<and> hash = head_hash h)"

definition verify_next_and_set :: "u64 \<Rightarrow> b256 \<Rightarrow> b256 \<Rightarrow> (head_status, bool) action" where
  "verify_next_and_set number hash parent h =
     (case add (head_number h) 1 of
        Ok expected \<Rightarrow>
          if number = expected \<and> parent = head_hash h then (Ok True, head_set number hash h)
          else (Ok False, h)
      | Err e \<Rightarrow> (Err e, h)
      | Panic \<Rightarrow> (Panic, h))"

text \<open>A run over the blocks the driver reported: number, hash and parent hash of each.\<close>

fun verify_all :: "(u64 \<times> b256 \<times> b256) list \<Rightarrow> (head_status, bool) action" where
  "verify_all [] = return True"
| "verify_all ((number, hash, parent) # bs) =
     bind (verify_next_and_set number hash parent) (\<lambda>ok.
     if ok then verify_all bs else return False)"

text \<open>The specification: consecutive numbers, each block pointing at the hash of the one before.\<close>

fun chain_from :: "nat \<Rightarrow> b256 \<Rightarrow> (u64 \<times> b256 \<times> b256) list \<Rightarrow> bool" where
  "chain_from n h [] = True"
| "chain_from n h ((number, hash, parent) # bs) =
     (unat number = Suc n \<and> parent = h \<and> chain_from (Suc n) hash bs)"

lemma verify_next_True_iff:
  "verify_next_and_set number hash parent h = (Ok True, h') \<longleftrightarrow>
     unat number = Suc (unat (head_number h)) \<and> parent = head_hash h \<and> h' = head_set number hash h"
proof (cases "add (head_number h) 1")
  case (Ok x)
  then have "unat x = Suc (unat (head_number h))" by simp
  with Ok show ?thesis by (auto simp: verify_next_and_set_def word_unat_eq_iff simp del: add_Ok_iff)
next
  case Panic
  then have "2 ^ 64 \<le> unat (head_number h) + 1" by simp
  moreover have "unat number < 2 ^ 64" using unat_lt_len [of number] by simp
  ultimately show ?thesis using Panic by (auto simp: verify_next_and_set_def simp del: add_Panic_iff)
qed simp

text \<open>
  C35: The head verifier accepts exactly the sequences of blocks that extend the expected head
  without a gap and without a fork: consecutive numbers, each parent hash equal to the hash before.
  The head it then expects is the last block of the sequence.
\<close>
theorem verify_all_iff_chain:
  "verify_all bs h = (Ok True, h') \<longleftrightarrow>
     chain_from (unat (head_number h)) (head_hash h) bs \<and>
     h' = (if bs = [] then h else head_set (fst (last bs)) (fst (snd (last bs))) h)"
proof (induction bs arbitrary: h)
  case Nil
  then show ?case by (auto simp: return_def)
next
  case (Cons b bs)
  obtain number hash parent where b: "b = (number, hash, parent)" by (cases b)
  have "verify_all (b # bs) h = (Ok True, h') \<longleftrightarrow>
      (\<exists>h1. verify_next_and_set number hash parent h = (Ok True, h1) \<and> verify_all bs h1 = (Ok True, h'))"
    by (auto simp: b bind_Ok_iff return_def split: if_splits)
  then show ?case
    by (auto simp: b verify_next_True_iff Cons.IH head_set_def)
qed

section \<open>Counters of consecutive failures\<close>

text \<open>
  Two parts of the node count failures in a row and give up above a limit: the watchdog counts
  failed heartbeats, the operator counts slots in which the driver is out of sync. The locale
  is what they have in common; its lemma says when such a counter trips.
\<close>

fun beats :: "(bool \<Rightarrow> ('s, 'a) action) \<Rightarrow> bool list \<Rightarrow> ('s, unit) action" where
  "beats beat [] = return ()"
| "beats beat (ok # oks) = bind (beat ok) (\<lambda>_. beats beat oks)"

definition failures_at_end :: "bool list \<Rightarrow> nat" where
  "failures_at_end oks = length (takeWhile Not (rev oks))"

lemma failures_at_end_simps [simp]:
  "failures_at_end [] = 0"
  "failures_at_end (oks @ [True]) = 0"
  "failures_at_end (oks @ [False]) = Suc (failures_at_end oks)"
  by (simp_all add: failures_at_end_def)

lemma failures_at_end_le: "failures_at_end oks \<le> length oks"
  using length_takeWhile_le [of Not "rev oks"] by (simp add: failures_at_end_def)

lemma failures_at_end_iff: "k \<le> failures_at_end oks \<longleftrightarrow> (\<exists>ys. oks = ys @ replicate k False)"
proof (induction k arbitrary: oks)
  case (Suc k)
  have rep: "replicate (Suc k) False = replicate k False @ [False]"
    by (simp add: replicate_append_same)
  show ?case
    unfolding rep
  proof (cases oks rule: rev_cases)
    case (snoc ys y)
    then show "Suc k \<le> failures_at_end oks \<longleftrightarrow> (\<exists>ys. oks = ys @ replicate k False @ [False])"
      by (cases y) (simp_all add: Suc.IH flip: append_assoc)
  qed simp
qed simp

definition has_failure_run :: "nat \<Rightarrow> bool list \<Rightarrow> bool" where
  "has_failure_run k oks \<longleftrightarrow> (\<exists>ys zs. oks = ys @ replicate k False @ zs)"

lemma has_failure_run_snoc:
  "has_failure_run k (oks @ [ok]) \<longleftrightarrow> has_failure_run k oks \<or> k \<le> failures_at_end (oks @ [ok])"
proof
  assume "has_failure_run k (oks @ [ok])"
  then obtain ys zs where eq: "oks @ [ok] = ys @ replicate k False @ zs"
    by (auto simp: has_failure_run_def)
  show "has_failure_run k oks \<or> k \<le> failures_at_end (oks @ [ok])"
  proof (cases zs rule: rev_cases)
    case Nil
    with eq show ?thesis by (auto simp: failures_at_end_iff)
  next
    case (snoc zs' z)
    with eq have "oks = ys @ replicate k False @ zs'" by simp
    then show ?thesis by (auto simp: has_failure_run_def)
  qed
next
  assume "has_failure_run k oks \<or> k \<le> failures_at_end (oks @ [ok])"
  then show "has_failure_run k (oks @ [ok])"
    unfolding has_failure_run_def failures_at_end_iff by (metis append.assoc append_Nil2)
qed

lemma beats_append: "beats beat (xs @ ys) s = bind (beats beat xs) (\<lambda>_. beats beat ys) s"
  by (induction xs arbitrary: s) (auto simp: bind_def return_def split: prod.splits outcome.splits)

locale trip_counter =
  fixes beat :: "bool \<Rightarrow> ('s, 'a) action"
    and count :: "'s \<Rightarrow> u64"
    and tripped :: "'s \<Rightarrow> bool"
    and limit :: nat
    and live :: "'s \<Rightarrow> bool"
  assumes success: "live s \<Longrightarrow> \<exists>a s'. beat True s = (Ok a, s') \<and> live s' \<and> count s' = 0 \<and> tripped s' = tripped s"
    and failure: "live s \<Longrightarrow> unat (count s) + 1 < 2 ^ 64 \<Longrightarrow>
      \<exists>a s'. beat False s = (Ok a, s') \<and> live s' \<and> unat (count s') = Suc (unat (count s)) \<and>
        tripped s' = (tripped s \<or> limit < Suc (unat (count s)))"
begin

lemma beats_run:
  assumes "live s" "count s = 0"
  shows "length oks < 2 ^ 64 \<Longrightarrow> \<exists>s'. beats beat oks s = (Ok (), s') \<and> live s' \<and>
     unat (count s') = failures_at_end oks \<and>
     (tripped s' \<longleftrightarrow> tripped s \<or> has_failure_run (Suc limit) oks)"
proof (induction oks rule: rev_induct)
  case Nil
  with assms show ?case by (auto simp: return_def has_failure_run_def)
next
  case (snoc ok oks)
  then obtain s1 where IH: "beats beat oks s = (Ok (), s1)" "live s1"
    "unat (count s1) = failures_at_end oks"
    "tripped s1 \<longleftrightarrow> tripped s \<or> has_failure_run (Suc limit) oks" by auto
  show ?case
  proof (cases ok)
    case True
    with IH success [OF IH(2)] show ?thesis
      by (auto simp: beats_append bind_def return_def has_failure_run_snoc)
  next
    case False
    have "unat (count s1) + 1 < 2 ^ 64"
      using IH(3) failures_at_end_le [of oks] snoc.prems by simp
    from failure [OF IH(2) this] False IH show ?thesis
      by (auto simp: beats_append bind_def return_def has_failure_run_snoc)
  qed
qed

end

section \<open>Watchdog\<close>

record watchdog =
  counter :: u64
  max_counter :: u64

definition watchdog_new :: "u64 \<Rightarrow> watchdog" where
  "watchdog_new m = \<lparr>counter = 0, max_counter = m\<rparr>"

definition watchdog_reset :: "(watchdog \<times> 'w env, unit) action" where
  "watchdog_reset = modify (\<lambda>(d, e). (d\<lparr>counter := 0\<rparr>, e))"

definition watchdog_increment :: "(watchdog \<times> 'w env, unit) action" where
  "watchdog_increment =
     bind (gets (\<lambda>(d, e). add (counter d) 1)) (\<lambda>r.
     bind (lift r) (\<lambda>n.
     bind (modify (\<lambda>(d, e). (d\<lparr>counter := n\<rparr>, e))) (\<lambda>_.
     bind (gets (\<lambda>(d, e). max_counter d < n)) (\<lambda>over.
     if over then zoom snd (\<lambda>e (d, _). (d, e)) cancel_on_critical_error else return ()))))"

definition watchdog_beat :: "bool \<Rightarrow> (watchdog \<times> 'w env, unit) action" where
  "watchdog_beat ok = (if ok then watchdog_reset else watchdog_increment)"

interpretation wd: trip_counter watchdog_beat "\<lambda>(d, _). counter d" "\<lambda>(_, e). cancelled e"
  "unat m" "\<lambda>(d, _). max_counter d = m" for m
proof
  fix s :: "watchdog \<times> 'w env"
  assume live: "case s of (d, _) \<Rightarrow> max_counter d = m"
  show "\<exists>a s'. watchdog_beat True s = (Ok a, s') \<and> (case s' of (d, _) \<Rightarrow> max_counter d = m) \<and>
      (case s' of (d, _) \<Rightarrow> counter d) = 0 \<and>
      (case s' of (_, e) \<Rightarrow> cancelled e) = (case s of (_, e) \<Rightarrow> cancelled e)"
    using live by (cases s) (simp add: watchdog_beat_def watchdog_reset_def modify_def)
  assume "unat (case s of (d, _) \<Rightarrow> counter d) + 1 < 2 ^ 64"
  then obtain n where "add (case s of (d, _) \<Rightarrow> counter d) 1 = Ok n"
    "unat n = Suc (unat (case s of (d, _) \<Rightarrow> counter d))"
    by (simp add: add_def unat_word_ariths)
  with live show "\<exists>a s'. watchdog_beat False s = (Ok a, s') \<and> (case s' of (d, _) \<Rightarrow> max_counter d = m) \<and>
      unat (case s' of (d, _) \<Rightarrow> counter d) = Suc (unat (case s of (d, _) \<Rightarrow> counter d)) \<and>
      (case s' of (_, e) \<Rightarrow> cancelled e) =
        ((case s of (_, e) \<Rightarrow> cancelled e) \<or> unat m < Suc (unat (case s of (d, _) \<Rightarrow> counter d)))"
    by (cases s) (auto simp: watchdog_beat_def watchdog_increment_def bind_def modify_def return_def gets_def
        lift_def zoom_def cancel_on_critical_error_def word_less_nat_alt simp del: add_Ok_iff)
qed

text \<open>The watchdog over a sequence of heartbeats, \<open>True\<close> for one that succeeded.\<close>

definition heartbeats :: "bool list \<Rightarrow> (watchdog \<times> 'w env, unit) action" where
  "heartbeats = beats watchdog_beat"

text \<open>
  The watchdog trips exactly on a run of failures. Over any sequence of fewer than \<open>2 ^ 64\<close>
  heartbeats, the token is cancelled if and only if more than \<open>max_counter\<close> heartbeats failed in a
  row somewhere in the sequence; scattered failures, however many, never trip it.
\<close>
lemma watchdog_trips_iff_failure_run:
  assumes "length oks < 2 ^ 64" "\<not> cancelled e"
  shows "\<exists>d' e'. heartbeats oks (watchdog_new m, e) = (Ok (), (d', e')) \<and>
    (cancelled e' \<longleftrightarrow> (\<exists>ys zs. oks = ys @ replicate (Suc (unat m)) False @ zs))"
  using wd.beats_run [of m "(watchdog_new m, e)", OF _ _ assms(1)] assms(2)
  unfolding has_failure_run_def heartbeats_def by (auto simp: watchdog_new_def)

end
