(* ===== verification/Proposal_Manager.thy ===== *)
theory Proposal_Manager
  imports Proposal_Builder Forced_Inclusion Guards
begin

text \<open>
  \<^verbatim>\<open>src/shasta/src/node/proposal_manager/mod.rs\<close> and \<^verbatim>\<open>src/shasta/src/node/block_advancer.rs\<close>: the manager
  adds L2 blocks to the current proposal and to the L2 chain, keeps the two in step, rebuilds
  proposals from the chain (recovery), and replays blocks on a new anchor (reanchoring).

  A manager method is an action on the manager paired with the shared environment \<open>env\<close>. The
  block advancer is a trait object of the code; it is the parameter \<open>adv\<close>, and
  \<open>advance_head_to_new_l2_block\<close> is the implementation of the Shasta node.
\<close>

section \<open>State\<close>

record 'tx manager =
  proposal_builder :: "'tx builder"
  fi_index :: u64
  l1_height_lag :: u64
  min_anchor_offset :: u64
  max_blocks_to_reanchor :: u64
  propose_forced_inclusion :: bool

record recovered_block_info =
  rec_proposal_id :: u64
  rec_timestamp :: u64

type_synonym ('w, 'tx) mstate = "'tx manager \<times> 'w env"

type_synonym ('w, 'tx) advancer =
  "'tx l2_block_payload \<Rightarrow> l2_slot_context \<Rightarrow> operation_type \<Rightarrow> ('w, build_preconf_block_response) action"

definition m_world :: "('w, 'a) action \<Rightarrow> (('w, 'tx) mstate, 'a) action" where
  "m_world m = zoom snd (\<lambda>e (g, _). (g, e)) (on_world m)"

definition m_env :: "('w env, 'a) action \<Rightarrow> (('w, 'tx) mstate, 'a) action" where
  "m_env = zoom snd (\<lambda>e (g, _). (g, e))"

definition m_builder :: "('tx builder, 'a) action \<Rightarrow> (('w, 'tx) mstate, 'a) action" where
  "m_builder = zoom (\<lambda>(g, _). proposal_builder g) (\<lambda>b (g, e). (g\<lparr>proposal_builder := b\<rparr>, e))"

definition m_fi :: "('w fi_state, 'a) action \<Rightarrow> (('w, 'tx) mstate, 'a) action" where
  "m_fi = zoom (\<lambda>(g, e). (fi_index g, world e)) (\<lambda>(i, w) (g, e). (g\<lparr>fi_index := i\<rparr>, e\<lparr>world := w\<rparr>))"

definition m_submit ::
  "('tx builder \<times> 'w, 'a) action \<Rightarrow> (('w, 'tx) mstate, 'a) action" where
  "m_submit = zoom (\<lambda>(g, e). (proposal_builder g, world e))
     (\<lambda>(b, w) (g, e). (g\<lparr>proposal_builder := b\<rparr>, e\<lparr>world := w\<rparr>))"

definition m_get :: "('tx builder \<Rightarrow> 'a) \<Rightarrow> (('w, 'tx) mstate, 'a) action" where
  "m_get f = gets (\<lambda>(g, _). f (proposal_builder g))"

section \<open>The block advancer of the Shasta node\<close>

definition advance_head_to_new_l2_block :: "('w, 'tx) services \<Rightarrow> ('w, 'tx) advancer" where
  "advance_head_to_new_l2_block S payload ctx op =
     bind (lift (try_from (unat (pl_anchor_block_id payload)))) (\<lambda>number.
     let params = \<lparr>cp_block_number = number, cp_block_hash = pl_anchor_block_hash payload,
                   cp_state_root = pl_anchor_state_root payload\<rparr> in
     bind (map_err ''advance_head_to_new_l2_block: Failed to construct anchor tx''
             (construct_anchor_tx S (slot_info ctx) params)) (\<lambda>anchor_tx.
     bind (lift (compress_tx_list S (anchor_tx # pl_tx_list payload))) (\<lambda>tx_list_bytes.
     bind (map_err ''advance_head_to_new_l2_block: Failed to encode extra data''
             (lift (encode \<lparr>basefee_sharing_pctg = pc_basefee_sharing_pctg (protocol_config_of S),
                            proposal_id = pl_proposal_id payload\<rparr>))) (\<lambda>extra.
     bind (lift (add (parent_id (slot_info ctx)) 1)) (\<lambda>block_number.
     bind (lift (add (pl_gas_limit_without_anchor payload) (anchor_gas_limit S))) (\<lambda>gas_limit.
     preconf_blocks S
       \<lparr>rq_executable_data =
          \<lparr>ed_base_fee_per_gas = base_fee (slot_info ctx), ed_block_number = block_number,
           ed_extra_data = extra, ed_fee_recipient = pl_coinbase payload, ed_gas_limit = gas_limit,
           ed_parent_hash = parent_hash (slot_info ctx), ed_timestamp = pl_timestamp_sec payload,
           ed_transactions = tx_list_bytes\<rparr>,
        rq_end_of_sequencing = end_of_sequencing ctx,
        rq_is_forced_inclusion = pl_is_forced_inclusion payload\<rparr> op))))))"

section \<open>Adding blocks\<close>

definition m_try_submit_oldest_proposal ::
  "('w, 'tx) services \<Rightarrow> bool \<Rightarrow> u64 \<Rightarrow> (('w, 'tx) mstate, unit) action" where
  "m_try_submit_oldest_proposal S only_full ts =
     m_submit (try_submit_oldest_proposal (send_proposal_to_l1 S) only_full ts)"

definition m_should_new_block_be_created ::
  "'tx pre_built_tx_list option \<Rightarrow> l2_slot_context \<Rightarrow> (('w, 'tx) mstate, bool) action" where
  "m_should_new_block_be_created pending ctx =
     bind (m_get (\<lambda>b. should_new_block_be_created b pending (slot_timestamp (slot_info ctx))
                        (end_of_sequencing ctx))) lift"

definition add_draft_block_to_proposal ::
  "('w, 'tx) advancer \<Rightarrow> 'tx l2_block_draft \<Rightarrow> l2_slot_context \<Rightarrow> operation_type \<Rightarrow>
   (('w, 'tx) mstate, build_preconf_block_response) action" where
  "add_draft_block_to_proposal adv d ctx op =
     bind (m_builder (add_l2_draft_block d)) (\<lambda>payload.
     attempt (m_world (adv payload ctx op)) return
       (\<lambda>_. bind (m_builder remove_last_l2_block) (\<lambda>_.
            raise (Anyhow ''Failed to advance head to new L2 block''))))"

definition add_new_l2_block_with_forced_inclusion_when_needed ::
  "('w, 'tx) services \<Rightarrow> ('w, 'tx) advancer \<Rightarrow> l2_slot_context \<Rightarrow> operation_type \<Rightarrow>
   (('w, 'tx) mstate, build_preconf_block_response option) action" where
  "add_new_l2_block_with_forced_inclusion_when_needed S adv ctx op =
     bind (m_get can_add_forced_inclusion) (\<lambda>can_add.
     if \<not> can_add then return None
     else bind (m_fi (consume_forced_inclusion S)) (\<lambda>fi.
       case fi of
         None \<Rightarrow> return None
       | Some txs \<Rightarrow>
           bind (lift (add (parent_timestamp (slot_info ctx)) 1)) (\<lambda>ts.
           let fi_block = \<lparr>d_prebuilt_tx_list = empty_with_tx_list txs, d_timestamp_sec = ts,
                 d_gas_limit_without_anchor = parent_gas_limit_without_anchor (slot_info ctx)\<rparr> in
           bind (m_world (get_block_params_from_geth S (parent_id (slot_info ctx)))) (\<lambda>anchor_params.
           bind (m_builder (add_fi_block fi_block anchor_params)) (\<lambda>payload.
           attempt (m_world (adv payload ctx op)) (\<lambda>r. return (Some r))
             (\<lambda>_. bind (m_fi release_forced_inclusion) (\<lambda>_.
                  bind (m_builder (modify decrease_forced_inclusion_count)) (\<lambda>_.
                  raise (Anyhow ''Failed to advance head to new forced inclusion L2 block'')))))))))"

definition get_next_proposal_id ::
  "('w, 'tx) services \<Rightarrow> u64 \<Rightarrow> (('w, 'tx) mstate, u64) action" where
  "get_next_proposal_id S parent_block_id =
     bind (m_get get_current_proposal_id) (\<lambda>current.
     case current of
       Some pid \<Rightarrow> lift (add pid 1)
     | None \<Rightarrow>
         attempt (m_world (get_proposal_id_from_geth_by_block_id S parent_block_id))
           (\<lambda>pid. lift (add pid 1))
           (\<lambda>_. bind (m_world (get_inbox_state S)) (\<lambda>next_id.
                if next_id = 1 then return 1
                else raise (Anyhow ''Failed to get last synced proposal id from Taiko Geth''))))"

definition m_create_new_proposal ::
  "('w, 'tx) services \<Rightarrow> u64 \<Rightarrow> u64 \<Rightarrow> (('w, 'tx) mstate, u64) action" where
  "m_create_new_proposal S parent_block_id l2_slot_timestamp =
     bind (map_err ''Create new proposal: failed to get last synced anchor block ID from Taiko Geth''
             (m_world (get_anchor_block_id_from_geth S parent_block_id))) (\<lambda>last_anchor_id.
     bind (gets (\<lambda>(g, _). (l1_height_lag g, min_anchor_offset g))) (\<lambda>(lag, off).
     bind (m_world (anchor_from_chain_state S lag last_anchor_id off)) (\<lambda>anchor.
     bind (get_next_proposal_id S parent_block_id) (\<lambda>pid.
     bind (m_builder (modify (create_new_proposal pid anchor l2_slot_timestamp))) (\<lambda>_.
     return (ab_id anchor))))))"

definition add_new_l2_block ::
  "('w, 'tx) services \<Rightarrow> ('w, 'tx) advancer \<Rightarrow> 'tx pre_built_tx_list \<Rightarrow> l2_slot_context \<Rightarrow>
   operation_type \<Rightarrow> bool \<Rightarrow> (('w, 'tx) mstate, build_preconf_block_response) action" where
  "add_new_l2_block S adv txs ctx op allow_forced_inclusion =
     (let ts = slot_timestamp (slot_info ctx) in
      bind (m_get get_current_proposal_last_block_timestamp) (\<lambda>last_ts.
      if last_ts = Some ts
      then raise (Anyhow ''Cannot add another block with the same timestamp as the last block'')
      else
        bind (gets (\<lambda>(g, _). propose_forced_inclusion g)) (\<lambda>propose.
        let allow = (propose \<and> allow_forced_inclusion \<and> \<not> end_of_sequencing ctx);
            d = \<lparr>d_prebuilt_tx_list = txs, d_timestamp_sec = ts,
                 d_gas_limit_without_anchor = parent_gas_limit_without_anchor (slot_info ctx)\<rparr>
        in
        bind (lift (add (parent_id (slot_info ctx)) 1)) (\<lambda>_.
        bind (m_builder (can_consume_l2_block (compress_manifest S) d)) (\<lambda>fits.
        bind (if \<not> fits then bind (m_create_new_proposal S (parent_id (slot_info ctx)) ts) (\<lambda>_. return ())
              else return ()) (\<lambda>_.
        bind (if allow then add_new_l2_block_with_forced_inclusion_when_needed S adv ctx op
              else return None) (\<lambda>fi.
        case fi of
          Some fi_block \<Rightarrow> return fi_block
        | None \<Rightarrow> add_draft_block_to_proposal adv d ctx op)))))))"

definition preconfirm_block ::
  "('w, 'tx) services \<Rightarrow> ('w, 'tx) advancer \<Rightarrow> 'tx pre_built_tx_list option \<Rightarrow> l2_slot_context \<Rightarrow>
   (('w, 'tx) mstate, build_preconf_block_response) action" where
  "preconfirm_block S adv pending ctx =
     bind (add_new_l2_block S adv (case pending of Some l \<Rightarrow> l | None \<Rightarrow> pre_built_empty) ctx Preconfirm True)
       (\<lambda>preconfed_block.
     bind (m_world (system_now S)) (\<lambda>now.
     bind (m_get (is_greater_than_max_anchor_height_offset now)) (\<lambda>r.
     bind (lift r) (\<lambda>exceeded.
     bind (if exceeded then m_builder (modify finalize_current_proposal) else return ()) (\<lambda>_.
     return preconfed_block)))))"

section \<open>Housekeeping\<close>

definition manager_new ::
  "('w, 'tx) services \<Rightarrow> u64 \<Rightarrow> u64 \<Rightarrow> batch_builder_config \<Rightarrow> u64 \<Rightarrow> bool \<Rightarrow> ('w, 'tx manager) action" where
  "manager_new S lag off config max_reanchor propose =
     bind (forced_inclusion_new S) (\<lambda>idx.
     return \<lparr>proposal_builder = builder_new config (slot_clock_of S), fi_index = idx,
             l1_height_lag = lag, min_anchor_offset = off, max_blocks_to_reanchor = max_reanchor,
             propose_forced_inclusion = propose\<rparr>)"

definition reset_builder :: "('w, 'tx) services \<Rightarrow> (('w, 'tx) mstate, unit) action" where
  "reset_builder S =
     bind (m_fi (sync_queue_index_with_head S)) (\<lambda>_.
     m_builder (modify (\<lambda>b. builder_new (bconfig b) (slot_clock_of S))))"

definition has_proposals :: "'tx manager \<Rightarrow> bool" where
  "has_proposals g = (\<not> builder_is_empty (proposal_builder g))"

definition is_offsets_valid :: "('w, 'tx) services \<Rightarrow> u64 \<Rightarrow> u64 \<Rightarrow> bool" where
  "is_offsets_valid S anchor_block_offset timestamp_offset =
     (anchor_block_offset \<le> pc_max_anchor_offset (protocol_config_of S) \<and>
      timestamp_offset \<le> pc_timestamp_max_offset (protocol_config_of S))"

definition get_l1_anchor_block_and_timestamp_offset_for_l2_block ::
  "('w, 'tx) services \<Rightarrow> u64 \<Rightarrow> ('w, u64 \<times> u64) action" where
  "get_l1_anchor_block_and_timestamp_offset_for_l2_block S l2_block_height =
     bind (get_l2_block_by_number S l2_block_height False) (\<lambda>block.
     bind (lift (ok_or (case rb_tx_hashes block of Some (h # _) \<Rightarrow> Some h | _ \<Rightarrow> None)
             ''get_anchor_block_offset: No transactions in block'')) (\<lambda>anchor_tx_hash.
     bind (get_transaction_by_hash (l2_provider S) anchor_tx_hash) (\<lambda>l2_anchor_tx.
     bind (lift (decode_anchor_id_from_tx_data S (tx_input S l2_anchor_tx))) (\<lambda>l1_anchor_block_id.
     bind (get_block_timestamp_by_number (l1_provider S) l1_anchor_block_id) (\<lambda>anchor_ts.
     bind (system_now S) (\<lambda>now.
     bind (lift (slots_since_l1_block (slot_clock_of S) anchor_ts now)) (\<lambda>anchor_offset.
     bind (system_now S) (\<lambda>now'.
     return (anchor_offset, seconds_since (slot_clock_of S) (rb_timestamp block) now')))))))))"

definition m_clone_without_proposals :: "u64 \<Rightarrow> 'tx manager \<Rightarrow> 'tx manager" where
  "m_clone_without_proposals head g =
     g\<lparr>proposal_builder := clone_without_proposals (proposal_builder g), fi_index := head\<rparr>"

definition m_prepend_proposals :: "'tx proposal list \<Rightarrow> (('w, 'tx) mstate, unit) action" where
  "m_prepend_proposals ps = m_builder (modify (prepend_proposals ps))"

definition set_fi_head :: "u64 \<Rightarrow> (('w, 'tx) mstate, unit) action" where
  "set_fi_head head = modify (\<lambda>(g, e). (g\<lparr>fi_index := head\<rparr>, e))"

definition is_forced_inclusion :: "('w, 'tx) services \<Rightarrow> u64 \<Rightarrow> ('w, bool) action" where
  "is_forced_inclusion S block_id =
     map_err ''Failed to get forced inclusion flag from Taiko Geth''
       (get_forced_inclusion_form_l1origin S block_id)"

section \<open>Recovery\<close>

definition validate_block_proposal_id :: "u64 \<Rightarrow> u64 \<Rightarrow> unit outcome" where
  "validate_block_proposal_id pid parent_pid =
     (case checked_sub pid parent_pid of
        Some diff \<Rightarrow> if diff \<le> 1 then Ok () else Err (Anyhow ''Proposal ID validation failed'')
      | None \<Rightarrow> Err (Anyhow ''Proposal ID validation failed''))"

definition validate_block_timestamp ::
  "('w, 'tx) services \<Rightarrow> u64 \<Rightarrow> u64 \<Rightarrow> system_time \<Rightarrow> unit outcome" where
  "validate_block_timestamp S block_timestamp parent_ts sys_now =
     and_then (duration_since_epoch sys_now) (\<lambda>now_duration.
     let now = as_secs now_duration in
     and_then (add parent_ts 1) (\<lambda>after_parent.
     let lower_bound = max after_parent (saturating_sub now (pc_timestamp_max_offset (protocol_config_of S))) in
     if block_timestamp < lower_bound \<or> now < block_timestamp
     then Err (Anyhow ''Derivation timestamp validation failed'')
     else Ok ()))"

definition recover_parent_info ::
  "('w, 'tx) services \<Rightarrow> u64 \<Rightarrow> u64 \<Rightarrow> recovered_block_info option \<Rightarrow> ('w, recovered_block_info) action"
where
  "recover_parent_info S block_height pid parent_info =
     (case parent_info of
        Some info \<Rightarrow> return info
      | None \<Rightarrow>
          if block_height = 0
          then raise (Anyhow ''recover_from_l2_block: parent_info must be provided for genesis'')
          else
            bind (lift (sub block_height 1)) (\<lambda>parent_height.
            bind (get_l2_block_by_number S parent_height False) (\<lambda>parent_block.
            bind (lift (decode (rb_extra_data parent_block))) (\<lambda>d.
            bind (lift (add (proposal_id d) 1)) (\<lambda>expected.
            if pid \<noteq> expected
            then raise (Anyhow ''recover_from_l2_block: proposal ID validation failed at the first recovered block'')
            else return \<lparr>rec_proposal_id = proposal_id d, rec_timestamp = rb_timestamp parent_block\<rparr>)))))"

text \<open>The second half of \<open>recover_from_l2_block\<close>, once the block has passed the checks.\<close>

definition replay_block ::
  "('w, 'tx) services \<Rightarrow> u64 \<Rightarrow> 'tx rpc_block \<Rightarrow> u64 \<Rightarrow> (('w, 'tx) mstate, recovered_block_info) action" where
  "replay_block S block_height block pid =
     (case rb_transactions block of
       None \<Rightarrow> raise (Anyhow ''recover_from_l2_block: No transactions in block'')
     | Some [] \<Rightarrow> raise (Anyhow ''recover_from_l2_block: Cannot get anchor transaction from block'')
     | Some (anchor_tx # txs) \<Rightarrow>
         bind (lift (ok_or (checked_sub (rb_gas_limit block) (anchor_gas_limit S))
                 ''block header gas limit is less than ANCHOR_V3_V4_GAS_LIMIT'')) (\<lambda>gas_limit.
         bind (lift (get_anchor_tx_data S (tx_input S anchor_tx))) (\<lambda>cp.
         bind (m_world (anchor_from_precomputed_data S (ucast (cp_block_number cp)) (cp_block_hash cp)
                 (cp_state_root cp))) (\<lambda>anchor_info.
         bind (m_world (is_forced_inclusion S block_height)) (\<lambda>forced.
         bind (m_builder (recover_from (compress_manifest S) (rlp_encode S) pid anchor_info
                 (rb_beneficiary block) txs (rb_timestamp block) gas_limit forced)) (\<lambda>_.
         return \<lparr>rec_proposal_id = pid, rec_timestamp = rb_timestamp block\<rparr>))))))"

definition recover_from_l2_block ::
  "('w, 'tx) services \<Rightarrow> u64 \<Rightarrow> recovered_block_info option \<Rightarrow>
   (('w, 'tx) mstate, recovered_block_info) action" where
  "recover_from_l2_block S block_height parent_info =
     bind (m_world (get_l2_block_by_number S block_height True)) (\<lambda>block.
     bind (lift (decode (rb_extra_data block))) (\<lambda>d.
     bind (m_world (recover_parent_info S block_height (proposal_id d) parent_info)) (\<lambda>info.
     bind (m_world (system_now S)) (\<lambda>now.
     bind (lift (validate_block_timestamp S (rb_timestamp block) (rec_timestamp info) now)) (\<lambda>_.
     bind (lift (validate_block_proposal_id (proposal_id d) (rec_proposal_id info))) (\<lambda>_.
     replay_block S block_height block (proposal_id d)))))))"

section \<open>Reanchoring\<close>

definition extract_block_transactions :: "'tx rpc_block \<Rightarrow> 'tx list outcome" where
  "extract_block_transactions block =
     ok_or (case rb_transactions block of Some (_ # txs) \<Rightarrow> Some txs | _ \<Rightarrow> None)
       ''Cannot extract transactions from block''"

definition prepare_reanchor_slot_info ::
  "('w, 'tx) services \<Rightarrow> u64 \<Rightarrow> (('w, 'tx) mstate, l2_slot_info \<times> u64) action" where
  "prepare_reanchor_slot_info S parent_block_id =
     bind (m_world (get_l2_slot_info_by_parent_block S (Number parent_block_id))) (\<lambda>info.
     bind (lift (sub (slot_timestamp info) (parent_timestamp info))) (\<lambda>gap.
     bind (gets (\<lambda>(g, _). min (max_blocks_to_reanchor g) gap)) (\<lambda>max_blocks.
     bind (lift (and_then (sub (slot_timestamp info) max_blocks) (\<lambda>t. add t 1))) (\<lambda>first_ts.
     return (slot_info_new_from_other info first_ts, max_blocks)))))"

definition get_l2_slot_info_for_reanchor ::
  "('w, 'tx) services \<Rightarrow> l2_slot_info \<Rightarrow> u64 \<Rightarrow> ('w, l2_slot_info) action" where
  "get_l2_slot_info_for_reanchor S first_slot_info processed_blocks =
     (if processed_blocks = 0 then return first_slot_info
      else bind (get_l2_slot_info S) (\<lambda>info.
           bind (lift (add (parent_timestamp info) 1)) (\<lambda>ts.
           return (slot_info_new_from_other info ts))))"

definition reanchor_block ::
  "('w, 'tx) services \<Rightarrow> ('w, 'tx) advancer \<Rightarrow> 'tx pre_built_tx_list \<Rightarrow> l2_slot_info \<Rightarrow> bool \<Rightarrow>
   (('w, 'tx) mstate, build_preconf_block_response) action" where
  "reanchor_block S adv txs info allow_forced_inclusion =
     add_new_l2_block S adv txs \<lparr>slot_info = info, end_of_sequencing = False\<rparr> Reanchor allow_forced_inclusion"

text \<open>
  The loop of \<open>reanchor_blocks\<close>. Its blocks are paired with their forced inclusion flags; \<open>blocks\<close> is
  the rest from \<open>current_block_pos\<close> on. A forced inclusion that is built in between does not advance
  the position, so the recursion is on both the rest and the remaining number of rounds.
\<close>

function reanchor_loop ::
  "('w, 'tx) services \<Rightarrow> ('w, 'tx) advancer \<Rightarrow> l2_slot_info \<Rightarrow> u64 \<Rightarrow> ('tx rpc_block \<times> bool) list \<Rightarrow>
   u64 \<Rightarrow> bool \<Rightarrow> ('w, 'tx) mstate \<Rightarrow> u64 outcome \<times> ('w, 'tx) mstate" where
  "reanchor_loop S adv first max_blocks blocks processed common st =
     (case blocks of
        [] \<Rightarrow> (Ok processed, st)
      | (block, forced) # rest \<Rightarrow>
          if \<not> processed < max_blocks then (Ok processed, st)
          else if forced then reanchor_loop S adv first max_blocks rest processed common st
          else
            (case extract_block_transactions block of
               Err e \<Rightarrow> (Err e, st)
             | Panic \<Rightarrow> (Panic, st)
             | Ok txs \<Rightarrow>
                 if txs = [] \<and> common
                 then reanchor_loop S adv first max_blocks rest processed common st
                 else
                   (case m_world (get_l2_slot_info_for_reanchor S first processed) st of
                      (Err e, st) \<Rightarrow> (Err e, st)
                    | (Panic, st) \<Rightarrow> (Panic, st)
                    | (Ok info, st) \<Rightarrow>
                        let is_last = (rest = [] \<or> processed + 1 = max_blocks) in
                        (case reanchor_block S adv (pre_built_new (rlp_encode S) txs) info (\<not> is_last) st of
                           (Err e, st) \<Rightarrow>
                             (case m_env cancel_on_critical_error st of
                                (_, st) \<Rightarrow> (Err (Anyhow ''Failed to reanchor block''), st))
                         | (Panic, st) \<Rightarrow> (Panic, st)
                         | (Ok preconfed, st) \<Rightarrow>
                             if resp_is_forced_inclusion preconfed
                             then reanchor_loop S adv first max_blocks blocks (processed + 1) common st
                             else reanchor_loop S adv first max_blocks rest (processed + 1) True st))))"
  by pat_completeness auto

termination
  by (relation "measure (\<lambda>(S, adv, first, max_blocks, blocks, processed, common, st).
        length blocks + (unat max_blocks - unat processed))")
    (auto dest!: less_imp_Suc split: if_splits)

declare reanchor_loop.simps [simp del]

definition reanchor_blocks ::
  "('w, 'tx) services \<Rightarrow> ('w, 'tx) advancer \<Rightarrow> ('tx rpc_block \<times> bool) list \<Rightarrow> u64 \<Rightarrow>
   (('w, 'tx) mstate, u64) action" where
  "reanchor_blocks S adv blocks parent_block_id =
     bind (prepare_reanchor_slot_info S parent_block_id) (\<lambda>(first, max_blocks).
     bind (reanchor_loop S adv first max_blocks blocks 0 False) (\<lambda>processed.
     bind (m_builder try_finalize_current_proposal) (\<lambda>_. return processed)))"

section \<open>Invariants of the manager\<close>

text \<open>
  The invariant that every operation keeps: the builder is in order, its configuration is \<open>c\<close>, with
  \<open>q\<close> nothing is in flight, and with \<open>L = Some l\<close> the log of blocks is \<open>l\<close>.
\<close>

definition binv ::
  "bool \<Rightarrow> batch_builder_config \<Rightarrow> 'tx l2_block_v2 list option \<Rightarrow> 'tx builder \<Rightarrow> bool" where
  "binv q c L b \<longleftrightarrow> builder_inv b \<and> (q \<longrightarrow> quiet b) \<and> bconfig b = c \<and> (\<forall>l. L = Some l \<longrightarrow> all_blocks b = l)"

abbreviation on_mgr :: "('tx builder \<Rightarrow> bool) \<Rightarrow> ('w, 'tx) mstate \<Rightarrow> bool" where
  "on_mgr P \<equiv> \<lambda>(g, e). P (proposal_builder g)"

lemma triple_m_builder:
  "triple P m Q \<Longrightarrow> triple (on_mgr P) (m_builder m) (\<lambda>r. on_mgr (Q r))"
  by (auto simp: triple_def m_builder_def zoom_def split: prod.splits)

lemma triple_m_world: "triple (on_mgr P) (m_world m) (\<lambda>_. on_mgr P)"
  by (auto simp: triple_def m_world_def on_world_def zoom_def split: prod.splits)

lemma triple_m_env: "triple (on_mgr P) (m_env m) (\<lambda>_. on_mgr P)"
  by (auto simp: triple_def m_env_def zoom_def split: prod.splits)

lemma triple_m_fi: "triple (on_mgr P) (m_fi m) (\<lambda>_. on_mgr P)"
  by (auto simp: triple_def m_fi_def zoom_def split: prod.splits)

lemma triple_m_get: "triple (on_mgr P) (m_get f) (\<lambda>r s. on_mgr P s \<and> on_mgr (\<lambda>b. r = Ok (f b)) s)"
  by (auto simp: triple_def m_get_def gets_def)

lemmas keeps_mgr [keeps_rules] = triple_m_world triple_m_env triple_m_fi

lemma keeps_m_get [keeps_rules]: "keeps (on_mgr P) (m_get f)"
  by (rule triple_conseq [OF triple_m_get]) auto

lemma keeps_gets_pair [keeps_rules]: "keeps I (gets f)"
  by (simp add: triple_def gets_def)

lemma keeps_m_builder: "keeps P m \<Longrightarrow> keeps (on_mgr P) (m_builder m)"
  by (rule triple_m_builder)

lemma quiet_cong: "queue b' = queue b \<Longrightarrow> quiet b' = quiet b"
  by (simp add: quiet_def)

lemma binvI:
  "builder_inv b \<Longrightarrow> (q \<Longrightarrow> quiet b) \<Longrightarrow> bconfig b = c \<Longrightarrow> (\<And>l. L = Some l \<Longrightarrow> all_blocks b = l) \<Longrightarrow>
   binv q c L b"
  by (simp add: binv_def)

lemma quiet_finalize: "builder_inv b \<Longrightarrow> quiet b \<Longrightarrow> quiet (finalize_current_proposal b)"
  by (auto simp: quiet_def finalize_current_proposal_def pq.contents_push
      dest: builder_invD split: option.splits)

lemma binv_finalize: "binv q c L b \<Longrightarrow> binv q c L (finalize_current_proposal b)"
  by (auto simp: binv_def builder_inv_finalize quiet_finalize)

lemma queue_create [simp]: "queue (create_new_proposal pid a ts b) = queue (finalize_current_proposal b)"
  "bconfig (create_new_proposal pid a ts b) = bconfig b"
  by (simp_all add: create_new_proposal_def)

lemma binv_create: "binv q c L b \<Longrightarrow> binv q c L (create_new_proposal pid a ts b)"
  using binv_finalize [of q c L b]
  by (auto simp: binv_def builder_inv_create quiet_cong [OF queue_create(1)])

lemma can_consume_frame:
  "can_consume_l2_block enc d b = (r, b') \<Longrightarrow> queue b' = queue b \<and> bconfig b' = bconfig b"
  by (auto simp: can_consume_l2_block_def split: option.splits outcome.splits)

lemma on_current_frame: "on_current f msg b = (r, b') \<Longrightarrow> queue b' = queue b \<and> bconfig b' = bconfig b"
  by (auto simp: on_current_def split: option.splits outcome.splits)

lemma triple_can_consume:
  "triple (binv q c L) (can_consume_l2_block enc d)
     (\<lambda>r b. binv q c L b \<and> (r = Ok True \<longrightarrow> room b))"
proof (rule tripleI)
  fix b r b'
  assume inv: "binv q c L b" and run: "can_consume_l2_block enc d b = (r, b')"
  from inv have bi: "builder_inv b" by (simp add: binv_def)
  note builder_inv_can_consume [OF bi run] can_consume_frame [OF run] can_consume_all_blocks [OF run]
  with inv show "binv q c L b' \<and> (r = Ok True \<longrightarrow> room b')"
    by (auto simp: binv_def quiet_def)
qed

lemma triple_add_fi:
  "triple (\<lambda>b. binv q c L b \<and> room b \<and> can_add_forced_inclusion b) (add_fi_block d cp)
     (\<lambda>r b. binv q c L b \<and> room b \<and> (is_ok r \<longrightarrow> has_current_forced_inclusion b))"
proof (rule tripleI)
  fix b r b'
  assume inv: "binv q c L b \<and> room b \<and> can_add_forced_inclusion b" and run: "add_fi_block d cp b = (r, b')"
  have bi: "builder_inv b'" using builder_inv_add_fi [OF _ _ run] inv by (simp add: binv_def)
  have fr: "queue b' = queue b \<and> bconfig b' = bconfig b"
    using on_current_frame run by (metis add_fi_block_def)
  have "all_blocks b' = all_blocks b \<and> room b' \<and> (is_ok r \<longrightarrow> has_current_forced_inclusion b')"
    using run inv
    by (auto simp: add_fi_block_def on_current_def proposal_add_forced_inclusion_def all_blocks_split
        current_blocks_def room_def has_current_forced_inclusion_def has_forced_inclusion_def
        word_less_nat_alt split: option.splits outcome.splits)
  with bi fr inv show "binv q c L b' \<and> room b' \<and> (is_ok r \<longrightarrow> has_current_forced_inclusion b')"
    by (auto simp: binv_def quiet_def)
qed

lemma keeps_decrease: "keeps (binv q c L) (modify decrease_forced_inclusion_count)"
proof (rule keeps_modify)
  fix b assume inv: "binv q c L b"
  have "queue (decrease_forced_inclusion_count b) = queue b"
    "bconfig (decrease_forced_inclusion_count b) = bconfig b"
    "all_blocks (decrease_forced_inclusion_count b) = all_blocks b"
    by (auto simp: decrease_forced_inclusion_count_def Let_def proposal_dec_forced_inclusion_def
        proposal_is_empty_def all_blocks_split current_blocks_def split: option.splits)
  with inv show "binv q c L (decrease_forced_inclusion_count b)"
    by (auto simp: binv_def quiet_def builder_inv_decrease)
qed

lemma keeps_create: "keeps (on_mgr (binv q c L)) (m_create_new_proposal S pid ts)"
  unfolding m_create_new_proposal_def get_next_proposal_id_def
  by (intro keeps_rules keeps_m_builder keeps_modify binv_create)

lemma triple_create:
  "triple (on_mgr (binv q c L)) (m_create_new_proposal S pid ts)
     (\<lambda>r s. on_mgr (binv q c L) s \<and> (is_ok r \<longrightarrow> on_mgr room s))"
proof (rule tripleI)
  fix s r s'
  assume inv: "on_mgr (binv q c L) s" and run: "m_create_new_proposal S pid ts s = (r, s')"
  have "on_mgr room s'" if "is_ok r"
    using run that
    by (auto simp: is_ok_iff m_create_new_proposal_def bind_Ok_iff m_builder_def zoom_def modify_def
        return_def room_create split: prod.splits)
  with tripleD [OF keeps_create inv run] show "on_mgr (binv q c L) s' \<and> (is_ok r \<longrightarrow> on_mgr room s')"
    by blast
qed

lemma triple_fi_step:
  "triple (on_mgr (\<lambda>b. binv q c L b \<and> room b))
     (add_new_l2_block_with_forced_inclusion_when_needed S adv ctx op)
     (\<lambda>r. on_mgr (\<lambda>b. binv q c L b \<and> (r = Ok None \<longrightarrow> room b) \<and>
        (\<forall>x. r = Ok (Some x) \<longrightarrow> has_current_forced_inclusion b)))"
  (is "triple (on_mgr ?P) _ (\<lambda>r. on_mgr (?Q r))")
  unfolding add_new_l2_block_with_forced_inclusion_when_needed_def
proof (rule triple_bind [where R = "\<lambda>can. on_mgr (\<lambda>b. ?P b \<and> (can \<longrightarrow> can_add_forced_inclusion b))"],
    goal_cases)
  case 1
  show ?case by (rule triple_conseq [OF triple_m_get]) (auto split: outcome.splits)
next
  case (2 can)
  let ?P' = "\<lambda>b. ?P b \<and> can_add_forced_inclusion b"
  let ?F = "\<lambda>b. binv q c L b \<and> room b \<and> has_current_forced_inclusion b"
  have dec: "triple (on_mgr ?F) (m_builder (modify decrease_forced_inclusion_count))
      (\<lambda>_. on_mgr (binv q c L))"
    by (rule triple_conseq [OF keeps_m_builder [OF keeps_decrease]]) auto
  have undo: "triple (on_mgr ?F) (bind (m_fi release_forced_inclusion) (\<lambda>_.
      bind (m_builder (modify decrease_forced_inclusion_count)) (\<lambda>_. raise x)))
      (\<lambda>r. on_mgr (?Q r))" for x
    by (rule triple_bind_keeps [OF triple_m_fi triple_bind [OF triple_conseq [OF dec] triple_raise]])
      (auto split: outcome.splits)
  have adv: "triple (on_mgr ?F) (attempt (m_world (adv pl ctx op)) (\<lambda>r. return (Some r))
      (\<lambda>_. bind (m_fi release_forced_inclusion) (\<lambda>_.
           bind (m_builder (modify decrease_forced_inclusion_count)) (\<lambda>_. raise x))))
      (\<lambda>r. on_mgr (?Q r))" for pl x
    by (rule triple_attempt_keeps [OF triple_m_world triple_return undo]) auto
  have fi: "triple (on_mgr ?P') (m_builder (add_fi_block d cp))
     (\<lambda>r s. case r of Ok pl \<Rightarrow> on_mgr ?F s | Err e \<Rightarrow> on_mgr (?Q (Err e)) s | Panic \<Rightarrow> on_mgr (?Q Panic) s)"
    for d cp
    by (rule triple_conseq [OF triple_m_builder [OF triple_add_fi [of q c L d cp]]])
      (auto split: outcome.splits)
  show ?case
  proof (rule triple_if, goal_cases)
    case 1
    show ?case by (rule triple_return) auto
  next
    case 2
    have "triple (on_mgr ?P') (bind (m_fi (consume_forced_inclusion S)) (\<lambda>fi.
       case fi of
         None \<Rightarrow> return None
       | Some txs \<Rightarrow>
           bind (lift (add (parent_timestamp (slot_info ctx)) 1)) (\<lambda>ts.
           bind (m_world (get_block_params_from_geth S (parent_id (slot_info ctx)))) (\<lambda>anchor_params.
           bind (m_builder (add_fi_block (fi_block txs ts) anchor_params)) (\<lambda>payload.
           attempt (m_world (adv payload ctx op)) (\<lambda>r. return (Some r))
             (\<lambda>_. bind (m_fi release_forced_inclusion) (\<lambda>_.
                  bind (m_builder (modify decrease_forced_inclusion_count)) (\<lambda>_. raise x))))))))
      (\<lambda>r. on_mgr (?Q r))" for fi_block x
      by (intro triple_bind_keeps [OF triple_m_fi] triple_case_option triple_bind_keeps [OF keeps_lift]
          triple_bind_keeps [OF triple_m_world] triple_bind [OF fi adv] triple_return) auto
    then show ?case
      unfolding Let_def by (rule triple_pre) (use 2 in auto)
  qed
qed

text \<open>What adding a block does to the log.\<close>

definition block_added ::
  "'tx l2_block_v2 list \<Rightarrow> 'tx l2_block_draft \<Rightarrow> 'a outcome \<Rightarrow> 'tx builder \<Rightarrow> bool" where
  "block_added l d r b \<longleftrightarrow>
     (case r of
        Ok _ \<Rightarrow> \<exists>p. current_proposal b = Some p \<and> all_blocks b = l @ [create_block_from_draft p d]
      | Err _ \<Rightarrow> all_blocks b = l
      | Panic \<Rightarrow> True)"

lemma binv_None: "binv q c L b \<Longrightarrow> binv q c None b"
  by (simp add: binv_def)

lemma add_draft_run:
  assumes "binv q c (Some l) b" "room b" "add_l2_draft_block d b = (r, b')"
  shows "binv q c None b' \<and> block_added l d r b'"
proof -
  have inv: "builder_inv b'" using builder_inv_add_draft [OF _ assms(2,3)] assms(1) by (simp add: binv_def)
  have fr: "queue b' = queue b \<and> bconfig b' = bconfig b"
    using on_current_frame assms(3) by (metis add_l2_draft_block_def)
  have "block_added l d r b'"
  proof (cases r)
    case (Ok pl)
    with assms(3) obtain p p' where p: "current_proposal b = Some p"
      "proposal_add_l2_block p (create_block_from_draft p d) = Ok (pl, p')"
      "b' = b\<lparr>current_proposal := Some p'\<rparr>"
      by (auto simp: add_l2_draft_block_Ok_iff)
    then have "create_block_from_draft p' d = create_block_from_draft p d"
      by (auto simp: add_l2_block_Ok_iff create_block_from_draft_def)
    with p Ok assms(1) show ?thesis
      by (auto simp: block_added_def add_l2_block_Ok_iff all_blocks_split current_blocks_def binv_def)
  next
    case (Err e)
    with assms(3) have "b' = b" by (simp add: add_l2_draft_block_def on_current_not_Ok)
    with Err assms(1) show ?thesis by (simp add: block_added_def binv_def)
  qed (simp add: block_added_def)
  with inv fr assms(1) show ?thesis by (auto simp: binv_def quiet_def)
qed

lemma triple_draft_step:
  "triple (on_mgr (\<lambda>b. binv q c (Some l) b \<and> room b)) (add_draft_block_to_proposal adv d ctx op)
     (\<lambda>r. on_mgr (\<lambda>b. binv q c None b \<and> block_added l d r b))"
  (is "triple (on_mgr ?P) _ (\<lambda>r. on_mgr (?Q r))")
proof -
  let ?R = "\<lambda>pl b. binv q c None b \<and> block_added l d (Ok pl) b \<and>
    (\<exists>b0. ?P b0 \<and> add_l2_draft_block d b0 = (Ok pl, b))"
  have add: "triple ?P (add_l2_draft_block d)
      (\<lambda>r b. case r of Ok pl \<Rightarrow> ?R pl b | Err e \<Rightarrow> ?Q (Err e) b | Panic \<Rightarrow> ?Q Panic b)"
    by (rule tripleI) (auto dest: add_draft_run simp: block_added_def split: outcome.splits)
  have undo: "triple (?R pl) (bind remove_last_l2_block (\<lambda>_. raise x)) ?Q" for pl x
  proof (rule tripleI)
    fix b t and r :: "build_preconf_block_response outcome"
    assume R: "?R pl b" and run: "bind remove_last_l2_block (\<lambda>_. raise x) b = (r, t)"
    then obtain b0 p where b0: "?P b0" "add_l2_draft_block d b0 = (Ok pl, b)" "current_proposal b0 = Some p"
      by (auto simp: add_l2_draft_block_Ok_iff)
    from remove_after_add_draft [OF b0(2,3)] run
    have t: "r = Err x" "t = (if p_l2_blocks p = [] then b0\<lparr>current_proposal := None\<rparr> else b0)"
      by (auto simp: bind_def raise_def split: if_splits)
    have "builder_inv (b0\<lparr>current_proposal := None\<rparr>)"
      by (rule builder_inv_current) (use b0(1) in \<open>auto simp: binv_def\<close>)
    with t b0 show "?Q r t"
      by (auto simp: binv_def quiet_def block_added_def all_blocks_split current_blocks_def)
  qed
  have undo': "triple (on_mgr (?R pl)) (bind (m_builder remove_last_l2_block) (\<lambda>_. raise x))
      (\<lambda>r. on_mgr (?Q r))" for pl x
  proof -
    have eq: "bind (m_builder remove_last_l2_block) (\<lambda>_. raise x) =
        (m_builder (bind remove_last_l2_block (\<lambda>_. raise x)) :: (('w, 'tx) mstate, build_preconf_block_response) action)"
      by (rule ext) (auto simp: m_builder_def zoom_def bind_def raise_def split: prod.splits outcome.splits)
    show ?thesis unfolding eq by (rule triple_m_builder [OF undo])
  qed
  have adv: "triple (on_mgr (?R pl)) (attempt (m_world (adv pl ctx op)) return
      (\<lambda>_. bind (m_builder remove_last_l2_block) (\<lambda>_. raise x))) (\<lambda>r. on_mgr (?Q r))" for pl x
    by (rule triple_attempt_keeps [OF triple_m_world triple_return undo'])
      (auto simp: block_added_def)
  have add': "triple (on_mgr ?P) (m_builder (add_l2_draft_block d)) (\<lambda>r s. case r of
      Ok pl \<Rightarrow> on_mgr (?R pl) s | Err e \<Rightarrow> on_mgr (?Q (Err e)) s | Panic \<Rightarrow> on_mgr (?Q Panic) s)"
    by (rule triple_conseq [OF triple_m_builder [OF add]]) (auto split: outcome.splits)
  show ?thesis
    unfolding add_draft_block_to_proposal_def by (rule triple_bind [OF add' adv])
qed

text \<open>The draft that \<open>add_new_l2_block\<close> builds.\<close>

definition draft_of :: "'tx pre_built_tx_list \<Rightarrow> l2_slot_context \<Rightarrow> 'tx l2_block_draft" where
  "draft_of txs ctx = \<lparr>d_prebuilt_tx_list = txs, d_timestamp_sec = slot_timestamp (slot_info ctx),
     d_gas_limit_without_anchor = parent_gas_limit_without_anchor (slot_info ctx)\<rparr>"

definition add_result ::
  "'tx l2_block_v2 list \<Rightarrow> 'tx l2_block_draft \<Rightarrow> 'a outcome \<Rightarrow> 'tx builder \<Rightarrow> bool" where
  "add_result l d r b \<longleftrightarrow>
     block_added l d r b \<or> is_ok r \<and> all_blocks b = l \<and> has_current_forced_inclusion b"

lemma triple_add_new_l2_block:
  "triple (on_mgr (binv q c (Some l))) (add_new_l2_block S adv txs ctx op allow)
     (\<lambda>r. on_mgr (\<lambda>b. binv q c None b \<and> add_result l (draft_of txs ctx) r b))"
  (is "triple (on_mgr ?P) _ (\<lambda>r. on_mgr (?Q r))")
proof -
  let ?d = "draft_of txs ctx"
  have early: "?P b \<Longrightarrow> binv q c None b" "?P b \<Longrightarrow> add_result l ?d (Err e) b"
    "?P b \<Longrightarrow> add_result l ?d Panic b" for e b
    by (auto simp: add_result_def block_added_def binv_def)
  have consume: "triple (on_mgr ?P) (m_builder (can_consume_l2_block enc ?d)) (\<lambda>r s. case r of
      Ok fits \<Rightarrow> on_mgr (\<lambda>b. ?P b \<and> (fits \<longrightarrow> room b)) s
    | Err e \<Rightarrow> on_mgr (?Q (Err e)) s | Panic \<Rightarrow> on_mgr (?Q Panic) s)" for enc
    by (rule triple_conseq [OF triple_m_builder [OF triple_can_consume]])
      (auto split: outcome.splits intro: early)
  have create: "triple (on_mgr ?P) (bind (m_create_new_proposal S pid ts) (\<lambda>_. return ())) (\<lambda>r s. case r of
      Ok _ \<Rightarrow> on_mgr (\<lambda>b. ?P b \<and> room b) s
    | Err e \<Rightarrow> on_mgr (?Q (Err e)) s | Panic \<Rightarrow> on_mgr (?Q Panic) s)" for pid ts
    by (rule triple_bind [where R = "\<lambda>_. on_mgr (\<lambda>b. ?P b \<and> room b)"],
        rule triple_conseq [OF triple_create])
      (auto split: outcome.splits intro!: triple_return early)
  have opened: "triple (on_mgr (\<lambda>b. ?P b \<and> (fits \<longrightarrow> room b)))
      (if \<not> fits then bind (m_create_new_proposal S pid ts) (\<lambda>_. return ()) else return ()) (\<lambda>r s. case r of
      Ok _ \<Rightarrow> on_mgr (\<lambda>b. ?P b \<and> room b) s
    | Err e \<Rightarrow> on_mgr (?Q (Err e)) s | Panic \<Rightarrow> on_mgr (?Q Panic) s)" for fits pid ts
    by (rule triple_if; (rule triple_pre [OF create] | rule triple_return)) auto
  have forced: "triple (on_mgr (\<lambda>b. ?P b \<and> room b))
      (if allow' then add_new_l2_block_with_forced_inclusion_when_needed S adv ctx op else return None)
      (\<lambda>r s. case r of
        Ok x \<Rightarrow> on_mgr (\<lambda>b. ?P b \<and> (x = None \<longrightarrow> room b) \<and> (x \<noteq> None \<longrightarrow> has_current_forced_inclusion b)) s
      | Err e \<Rightarrow> on_mgr (?Q (Err e)) s | Panic \<Rightarrow> on_mgr (?Q Panic) s)" for allow'
    by (rule triple_if; (rule triple_conseq [OF triple_fi_step] | rule triple_return))
      (auto split: outcome.splits intro: early)
  have final: "triple (on_mgr (\<lambda>b. ?P b \<and> (x = None \<longrightarrow> room b) \<and> (x \<noteq> None \<longrightarrow> has_current_forced_inclusion b)))
      (case x of Some fi_block \<Rightarrow> return fi_block | None \<Rightarrow> add_draft_block_to_proposal adv ?d ctx op)
      (\<lambda>r. on_mgr (?Q r))" for x
    by (rule triple_case_option;
        (rule triple_return | rule triple_conseq [OF triple_draft_step [where d = ?d]]))
      (auto simp: add_result_def binv_def)
  show ?thesis
    unfolding add_new_l2_block_def Let_def draft_of_def [symmetric]
    by (intro triple_bind_keeps [OF keeps_m_get] triple_if triple_raise triple_bind_keeps [OF keeps_gets_pair]
        triple_bind_keeps [OF keeps_lift] triple_bind [OF consume] triple_bind [OF opened]
        triple_bind [OF forced final])
      (auto intro: early)
qed

lemma keeps_add_new_l2_block: "keeps (on_mgr (binv q c None)) (add_new_l2_block S adv txs ctx op allow)"
proof (rule tripleI)
  fix s r s'
  assume inv: "on_mgr (binv q c None) s" and run: "add_new_l2_block S adv txs ctx op allow s = (r, s')"
  then have "on_mgr (binv q c (Some (all_blocks (proposal_builder (fst s))))) s"
    by (auto simp: binv_def)
  from tripleD [OF triple_add_new_l2_block this run] show "on_mgr (binv q c None) s'" by auto
qed

text \<open>
  C3: Adding an L2 block is atomic with respect to the log of blocks. A failed attempt, at whatever
  step it fails, leaves the log as it was. A successful one appends exactly the block with the given
  transactions, the slot's timestamp and gas limit, and the coinbase and anchor of the current
  proposal; or it leaves the log alone because a forced inclusion was built instead, which then
  counts for the current proposal.
\<close>
theorem add_block_atomic:
  assumes "builder_inv (proposal_builder g)"
    and "add_new_l2_block S adv txs ctx op allow (g, e) = (r, (g', e'))"
  shows "case r of
      Err _ \<Rightarrow> all_blocks (proposal_builder g') = all_blocks (proposal_builder g)
    | Ok _ \<Rightarrow>
        (\<exists>p. current_proposal (proposal_builder g') = Some p \<and>
           all_blocks (proposal_builder g') = all_blocks (proposal_builder g) @
             [\<lparr>b_prebuilt_tx_list = txs, b_timestamp_sec = slot_timestamp (slot_info ctx),
               b_coinbase = p_coinbase p, b_anchor_block_number = p_anchor_block_id p,
               b_gas_limit_without_anchor = parent_gas_limit_without_anchor (slot_info ctx)\<rparr>]) \<or>
        (all_blocks (proposal_builder g') = all_blocks (proposal_builder g) \<and>
           has_current_forced_inclusion (proposal_builder g'))
    | Panic \<Rightarrow> True"
proof -
  have "on_mgr (binv False (bconfig (proposal_builder g)) (Some (all_blocks (proposal_builder g)))) (g, e)"
    using assms(1) by (simp add: binv_def)
  from tripleD [OF triple_add_new_l2_block this assms(2)]
  show ?thesis
    by (auto simp: add_result_def block_added_def create_block_from_draft_def l2_block_new_from_def
        draft_of_def split: outcome.splits)
qed

text \<open>A manager, a slot and an advancer for evaluation.\<close>

definition demo_manager :: "nat manager" where
  "demo_manager = \<lparr>proposal_builder = demo_builder, fi_index = 4, l1_height_lag = 2, min_anchor_offset = 1,
     max_blocks_to_reanchor = 8, propose_forced_inclusion = True\<rparr>"

definition demo_env :: "unit env" where
  "demo_env = fresh_env ()"

definition demo_ctx :: l2_slot_context where
  "demo_ctx = \<lparr>slot_info = \<lparr>base_fee = 7, slot_timestamp = 1022, parent_id = 10, parent_hash = 10,
     parent_gas_limit_without_anchor = 30000000, parent_timestamp = 1020\<rparr>, end_of_sequencing = False\<rparr>"

definition demo_txs :: "nat pre_built_tx_list" where
  "demo_txs = \<lparr>tx_list = [5], estimated_gas_used = 0, bytes_length = 10\<rparr>"

definition demo_adv :: "(unit, nat) advancer" where
  "demo_adv pl ctx op = return \<lparr>resp_number = 11, resp_hash = 1, resp_state_root = 1, resp_parent_hash = 10,
     resp_is_forced_inclusion = pl_is_forced_inclusion pl\<rparr>"

lemmas m_defs = m_world_def m_env_def m_builder_def m_fi_def m_get_def on_world_def zoom_def
lemmas demo_m_defs = demo_manager_def demo_env_def demo_ctx_def demo_txs_def demo_adv_def

lemma builder_inv_demo: "builder_inv demo_builder"
  by (simp add: demo_builder_def builder_inv_create)

theorem add_block_atomic_witness:
  "\<exists>r g' e'. add_new_l2_block demo_services demo_adv demo_txs demo_ctx Preconfirm False
       (demo_manager, demo_env) = (Ok r, (g', e')) \<and>
     (\<exists>p. current_proposal (proposal_builder g') = Some p \<and> all_blocks (proposal_builder g') =
        [\<lparr>b_prebuilt_tx_list = demo_txs, b_timestamp_sec = 1022, b_coinbase = p_coinbase p,
          b_anchor_block_number = p_anchor_block_id p, b_gas_limit_without_anchor = 30000000\<rparr>])"
proof -
  obtain r g' e' where run: "add_new_l2_block demo_services demo_adv demo_txs demo_ctx Preconfirm False
      (demo_manager, demo_env) = (Ok r, (g', e'))" and ne: "all_blocks (proposal_builder g') \<noteq> []"
    by (simp add: add_new_l2_block_def add_draft_block_to_proposal_def m_defs demo_m_defs bind_def gets_def
        return_def lift_def attempt_def builder_eval get_current_proposal_last_block_timestamp_def
        last_block_timestamp_def all_blocks_def planned_def)
  have "builder_inv (proposal_builder demo_manager)" by (simp add: demo_manager_def builder_inv_demo)
  moreover have "all_blocks (proposal_builder demo_manager) = []"
    by (simp add: demo_manager_def demo_defs all_blocks_def planned_def)
  ultimately show ?thesis
    using add_block_atomic [OF _ run] ne run by (auto simp: demo_ctx_def)
qed

section \<open>Forced inclusions\<close>

text \<open>
  What a failed forced inclusion block does to the cursor. If the L2 node rejects the block, the
  cursor is put back and the inclusion will be tried again. If instead the call that reads the
  parent's anchor parameters fails, right after the inclusion was consumed, the error is returned
  with the cursor already advanced: no block was built for this inclusion, and the manager will go
  on with the next one.
\<close>
lemma failed_forced_inclusion_cursor:
  fixes e :: "'w env"
  assumes "can_add_forced_inclusion (proposal_builder g)"
    and "consume_forced_inclusion S (fi_index g, world e) = (Ok (Some txs), (i', w1))"
    and "unat (parent_timestamp (slot_info ctx)) + 1 < 2 ^ 64"
    and "get_block_params_from_geth S (parent_id (slot_info ctx)) w1 = (params, w2)"
    and "\<And>pl w. fst (adv pl ctx op w) = Err (Anyhow msg)"
    and "add_new_l2_block_with_forced_inclusion_when_needed S adv ctx op (g, e) = (r, (g', e'))"
    and "params \<noteq> Panic"
  shows "(\<exists>x. r = Err x) \<and> total_fi (proposal_builder g') = total_fi (proposal_builder g) \<and>
    (is_ok params \<longrightarrow> fi_index g' = fi_index g) \<and>
    (\<not> is_ok params \<longrightarrow> unat (fi_index g') = unat (fi_index g) + 1)"
proof -
  obtain p where p: "current_proposal (proposal_builder g) = Some p"
    and lt: "unat (p_num_forced_inclusion p) < unat (max_forced_inclusions (bconfig (proposal_builder g)))"
    and nil: "p_l2_blocks p = []"
    using assms(1) by (auto simp: can_add_forced_inclusion_iff)
  have i': "unat i' = unat (fi_index g) + 1"
    using consume_Some [OF assms(2), of w1] by blast
  have release: "release_forced_inclusion (i', v) = (Ok (), (fi_index g, v))" for v :: 'w
    using consume_Some [OF assms(2), of v] by blast
  have ts: "add (parent_timestamp (slot_info ctx)) 1 = Ok (parent_timestamp (slot_info ctx) + 1)"
    using assms(3) by (simp add: add_def)
  show ?thesis
  proof (cases params)
    case (Err x)
    have "r = Err x \<and> g' = g\<lparr>fi_index := i'\<rparr>"
      using assms(1,2,4,6) ts Err
      by (auto simp: add_new_l2_block_with_forced_inclusion_when_needed_def m_defs bind_def gets_def
          lift_def Let_def simp del: add_Ok_iff)
    with i' Err show ?thesis by simp
  next
    case (Ok cp)
    have nfi: "add (p_num_forced_inclusion p) 1 = Ok (p_num_forced_inclusion p + 1)"
      "unat (p_num_forced_inclusion p + 1) = Suc (unat (p_num_forced_inclusion p))"
      using lt less_imp_Suc [of "p_num_forced_inclusion p" "max_forced_inclusions (bconfig (proposal_builder g))"]
        unat_lt_len [of "max_forced_inclusions (bconfig (proposal_builder g))"]
      by (auto simp: add_def word_less_nat_alt)
    have dec: "saturating_sub (p_num_forced_inclusion p + 1) 1 = p_num_forced_inclusion p"
      using nfi(2) by (simp add: word_unat_eq_iff)
    define w3 where "w3 = (\<lambda>pl. snd (adv pl ctx op w2))"
    have adv: "adv pl ctx op w2 = (Err (Anyhow msg), w3 pl)" for pl
      using assms(5) by (simp add: w3_def prod_eq_iff)
    have "is_ok r = False \<and> r \<noteq> Panic \<and> fi_index g' = fi_index g \<and>
      total_fi (proposal_builder g') = total_fi (proposal_builder g)"
      using assms(1,2,4,6) ts Ok p nil nfi dec adv release
      by (auto simp: add_new_l2_block_with_forced_inclusion_when_needed_def m_defs bind_def gets_def
          lift_def Let_def attempt_def raise_def add_fi_block_def on_current_def
          proposal_add_forced_inclusion_def modify_def decrease_forced_inclusion_count_def
          proposal_dec_forced_inclusion_def proposal_is_empty_def total_fi_split simp del: add_Ok_iff)
    with Ok show ?thesis by (cases r) auto
  qed (use assms(7) in simp)
qed

section \<open>The other operations keep the invariant\<close>

lemma keeps_preconfirm: "keeps (on_mgr (binv q c None)) (preconfirm_block S adv pending ctx)"
  unfolding preconfirm_block_def
  by (intro keeps_rules keeps_add_new_l2_block keeps_m_builder keeps_modify binv_finalize)

lemma binv_new: "binv q c None (builder_new c clk)"
  by (simp add: binv_def quiet_def builder_new_def pq.contents_empty builder_inv_new [unfolded builder_new_def])

lemma binv_rebuild: "binv q c None b \<Longrightarrow> binv q c None (builder_new (bconfig b) clk)"
  using binv_new [of q c clk] by (simp add: binv_def)

lemma keeps_reset: "keeps (on_mgr (binv q c None)) (reset_builder S)"
  unfolding reset_builder_def by (intro keeps_rules keeps_m_builder keeps_modify binv_rebuild)

lemma quiet_recover_open: "builder_inv b \<Longrightarrow> quiet b \<Longrightarrow> quiet (recover_open pid a cb ts b)"
  using quiet_finalize [of b] by (simp add: recover_open_def quiet_def)

lemma config_recover_open [simp]: "bconfig (recover_open pid a cb ts b) = bconfig b"
  by (simp add: recover_open_def)

lemma binv_recover_open: "binv q c None b \<Longrightarrow> binv q c None (recover_open pid a cb ts b)"
  by (auto simp: binv_def builder_inv_recover_open quiet_recover_open)

lemma binv_raise_anchor: "binv q c None b \<Longrightarrow> binv q c None (raise_anchor a b)"
  by (auto simp: binv_def builder_inv_raise_anchor) (simp_all add: raise_anchor_def quiet_def)

lemma keeps_recover_from: "keeps (binv q c None) (recover_from enc rlp pid a cb txs ts gas fi)"
proof -
  have inc: "triple (\<lambda>b. binv q c None b \<and> can_add_forced_inclusion b) inc_forced_inclusion
      (\<lambda>_. binv q c None)"
    by (rule tripleI)
      (auto simp: binv_def quiet_def inc_forced_inclusion_def intro: builder_inv_inc_fi [unfolded inc_forced_inclusion_def]
        dest: on_current_frame)
  have forced: "keeps (binv q c None)
      (bind (gets (\<lambda>b. cb = default_coinbase (bconfig b) \<and> can_add_forced_inclusion b)) (\<lambda>ok.
         if ok then inc_forced_inclusion else raise x))" for x
    by (rule triple_bind [where R = "\<lambda>ok b. binv q c None b \<and> (ok \<longrightarrow> can_add_forced_inclusion b)"],
        simp add: triple_def gets_def)
      (auto intro!: triple_if triple_raise triple_pre [OF inc])
  have add: "triple (\<lambda>b. binv q c None b \<and> room b) (add_l2_block_and_get_current_proposal blk)
      (\<lambda>_. binv q c None)" for blk
    by (rule tripleI)
      (auto simp: binv_def quiet_def add_l2_block_and_get_current_proposal_def
        intro: builder_inv_add_block [unfolded add_l2_block_and_get_current_proposal_def]
        dest: on_current_frame)
  have common: "keeps (binv q c None) (bind (can_consume_l2_block enc d) (\<lambda>fits.
       if fits then bind (add_l2_block_and_get_current_proposal blk) (\<lambda>_. return ()) else raise x))" for d blk x
    by (rule triple_bind [where R = "\<lambda>fits b. binv q c None b \<and> (fits \<longrightarrow> room b)"],
        rule triple_conseq [OF triple_can_consume])
      (auto split: outcome.splits intro!: triple_if triple_raise
        triple_bind [where R = "\<lambda>_. binv q c None", OF triple_conseq [OF add]] keeps_return)
  show ?thesis
    unfolding recover_from_def Let_def
    by (intro keeps_bind keeps_if keeps_modify forced common binv_recover_open binv_raise_anchor)
qed

lemma keeps_case_list [keeps_rules]:
  "(x = [] \<Longrightarrow> keeps I m) \<Longrightarrow> (\<And>a l. x = a # l \<Longrightarrow> keeps I (f a l)) \<Longrightarrow>
   keeps I (case x of [] \<Rightarrow> m | a # l \<Rightarrow> f a l)"
  by (cases x) auto

lemma keeps_recover_from_l2_block: "keeps (on_mgr (binv q c None)) (recover_from_l2_block S h info)"
  unfolding recover_from_l2_block_def replay_block_def
  by (intro keeps_rules keeps_m_builder keeps_recover_from)

text \<open>
  One round of the reanchoring loop: it stops without a change, stops with an error, skips a block,
  or builds a block and goes on, at the same position after a forced inclusion.
\<close>

inductive reanchor_error :: "('w, 'tx) services \<Rightarrow> ('w, 'tx) advancer \<Rightarrow> ('w, 'tx) mstate \<Rightarrow> ('w, 'tx) mstate \<Rightarrow> bool"
  for S :: "('w, 'tx) services" and adv :: "('w, 'tx) advancer" where
  same: "reanchor_error S adv st st"
| info: "m_world (m :: ('w, l2_slot_info) action) st = (r, st1) \<Longrightarrow> reanchor_error S adv st st1"
| build: "m_world (m :: ('w, l2_slot_info) action) st = (Ok i, st1) \<Longrightarrow>
    reanchor_block S adv l i allow st1 = (r, st2) \<Longrightarrow> reanchor_error S adv st st2"
| cancel: "m_world (m :: ('w, l2_slot_info) action) st = (Ok i, st1) \<Longrightarrow>
    reanchor_block S adv l i allow st1 = (r, st2) \<Longrightarrow>
    m_env cancel_on_critical_error st2 = (u, st3) \<Longrightarrow> reanchor_error S adv st st3"

lemma reanchor_loop_round:
  obtains
    (finished) "reanchor_loop S adv first mb blocks processed common st = (Ok processed, st)"
  | (failed) r st' where "reanchor_loop S adv first mb blocks processed common st = (r, st')" "\<not> is_ok r"
      "reanchor_error S adv st st'"
  | (skip) b rest where "blocks = b # rest" "reanchor_loop S adv first mb blocks processed common st =
      reanchor_loop S adv first mb rest processed common st"
  | (built) m i st1 l allow resp st2 b rest blocks' common' where "blocks = b # rest" "processed < mb"
      "m_world m st = (Ok (i :: l2_slot_info), st1)"
      "reanchor_block S adv l i allow st1 = (Ok resp, st2)" "blocks' = blocks \<or> blocks' = rest"
      "reanchor_loop S adv first mb blocks processed common st =
       reanchor_loop S adv first mb blocks' (processed + 1) common' st2"
proof (cases blocks)
  case Nil
  then have "reanchor_loop S adv first mb blocks processed common st = (Ok processed, st)"
    by (subst reanchor_loop.simps) simp
  then show ?thesis by (rule finished)
next
  case (Cons bf rest)
  obtain block forced where bf: "bf = (block, forced)" by (cases bf)
  note unf = reanchor_loop.simps [of S adv first mb blocks processed common st]
  show ?thesis
  proof (cases "processed < mb")
    case False
    with Cons bf have "reanchor_loop S adv first mb blocks processed common st = (Ok processed, st)"
      by (subst unf) simp
    then show ?thesis by (rule finished)
  next
    case lt: True
    show ?thesis
    proof (cases forced)
      case True
      show ?thesis by (rule skip [OF Cons]) (subst unf, use Cons bf lt True in simp)
    next
      case nf: False
      show ?thesis
      proof (cases "extract_block_transactions block")
        case (Ok txs)
        show ?thesis
        proof (cases "txs = [] \<and> common")
          case True
          show ?thesis by (rule skip [OF Cons]) (subst unf, use Cons bf lt nf Ok True in simp)
        next
          case False
          obtain ri st1 where i: "m_world (get_l2_slot_info_for_reanchor S first processed) st = (ri, st1)"
            by (metis prod.collapse)
          show ?thesis
          proof (cases ri)
            case Oki: (Ok info)
            define allow where "allow = (\<not> (rest = [] \<or> processed + 1 = mb))"
            define l where "l = pre_built_new (rlp_encode S) txs"
            obtain rr st2 where b: "reanchor_block S adv l info allow st1 = (rr, st2)"
              by (metis prod.collapse)
            note run = Cons bf lt nf Ok False i Oki b [unfolded l_def allow_def]
            show ?thesis
            proof (cases rr)
              case (Ok resp)
              let ?bs = "if resp_is_forced_inclusion resp then blocks else rest"
              let ?c = "if resp_is_forced_inclusion resp then common else True"
              have eq: "reanchor_loop S adv first mb blocks processed common st =
                  reanchor_loop S adv first mb ?bs (processed + 1) ?c st2"
                by (subst unf) (use run Ok in \<open>auto simp: Let_def\<close>)
              show ?thesis
                by (rule built [OF Cons lt i [unfolded Oki] b [unfolded Ok] _ eq]) simp
            next
              case (Err x)
              obtain u st3 where "m_env cancel_on_critical_error st2 = (u, st3)" by (metis prod.collapse)
              then show ?thesis
                using i b Oki
                by (intro failed [of "Err (Anyhow ''Failed to reanchor block'')" st3], subst unf)
                  (use run Err in \<open>auto simp: Let_def intro: reanchor_error.cancel\<close>)
            next
              case Panic
              then show ?thesis
                using i b Oki
                by (intro failed [of Panic st2], subst unf)
                  (use run in \<open>auto simp: Let_def intro: reanchor_error.build\<close>)
            qed
          next
            case (Err x)
            show ?thesis
              by (intro failed [of "Err x" st1], subst unf)
                (use Cons bf lt nf Ok False i Err in \<open>auto intro: reanchor_error.info\<close>)
          next
            case Panic
            show ?thesis
              by (intro failed [of Panic st1], subst unf)
                (use Cons bf lt nf Ok False i Panic in \<open>auto intro: reanchor_error.info\<close>)
          qed
        qed
      next
        case (Err x)
        show ?thesis
          by (intro failed [of "Err x" st], subst unf)
            (use Cons bf lt nf Err in \<open>auto intro: reanchor_error.same\<close>)
      next
        case Panic
        show ?thesis
          by (intro failed [of Panic st], subst unf)
            (use Cons bf lt nf Panic in \<open>auto intro: reanchor_error.same\<close>)
      qed
    qed
  qed
qed

lemma reanchor_loop_invariant:
  assumes world: "\<And>(m :: ('w, l2_slot_info) action) st r st'. I st \<Longrightarrow> m_world m st = (r, st') \<Longrightarrow> I st'"
    and build: "\<And>l i allow st r st'. I st \<Longrightarrow> reanchor_block S adv l i allow st = (r, st') \<Longrightarrow> I st'"
    and cancel: "\<And>st r st'. I st \<Longrightarrow> m_env cancel_on_critical_error st = (r, st') \<Longrightarrow> I st'"
  shows "I st \<Longrightarrow> reanchor_loop S adv first mb blocks processed common st = (r, st') \<Longrightarrow>
    I st' \<and> (\<forall>n. r = Ok n \<longrightarrow> processed \<le> n \<and> (processed \<le> mb \<longrightarrow> n \<le> mb))"
proof (induction "length blocks + (unat mb - unat processed)" arbitrary: blocks processed common st rule: less_induct)
  case less
  show ?case
  proof (rule reanchor_loop_round [of S adv first mb blocks processed common st], goal_cases)
    case 1
    with less.prems show ?case by auto
  next
    case (2 r1 st1)
    from 2(3) less.prems(1) have "I st1"
      by (induction rule: reanchor_error.cases) (blast intro: world build cancel)+
    with 2 less.prems show ?case by auto
  next
    case (3 b rest)
    with less.prems show ?case by (intro less.hyps [of rest processed st common]) auto
  next
    case (4 m i st1 l allow resp st2 b rest blocks' common')
    have "I st2" using build [OF world [OF less.prems(1) 4(3)] 4(4)] .
    moreover have sz: "length blocks' + (unat mb - unat (processed + 1)) <
        length blocks + (unat mb - unat processed)"
      using 4(1,5) less_imp_Suc [OF 4(2)] by auto
    ultimately have "I st' \<and> (\<forall>n. r = Ok n \<longrightarrow> processed + 1 \<le> n \<and> (processed + 1 \<le> mb \<longrightarrow> n \<le> mb))"
      using less.prems(2) 4(6) by (intro less.hyps [OF sz]) auto
    then show ?case using less_imp_Suc [OF 4(2)] by (auto simp: word_le_nat_alt)
  qed
qed

lemma keeps_reanchor_blocks: "keeps (on_mgr (binv q c None)) (reanchor_blocks S adv blocks parent)"
proof -
  let ?I = "on_mgr (binv q c None)"
  have loop: "keeps ?I (reanchor_loop S adv first mb bs processed common)" for first mb bs processed common
  proof (rule tripleI)
    fix st r st'
    assume inv: "?I st" and run: "reanchor_loop S adv first mb bs processed common st = (r, st')"
    have "?I st' \<and> (\<forall>n. r = Ok n \<longrightarrow> processed \<le> n \<and> (processed \<le> mb \<longrightarrow> n \<le> mb))"
    proof (rule reanchor_loop_invariant [where I = ?I, OF _ _ _ inv run])
      show "\<And>m st r st'. ?I st \<Longrightarrow> m_world m st = (r, st') \<Longrightarrow> ?I st'"
        by (rule tripleD [OF triple_m_world])
      show "\<And>l i allow st r st'. ?I st \<Longrightarrow> reanchor_block S adv l i allow st = (r, st') \<Longrightarrow> ?I st'"
        unfolding reanchor_block_def by (rule tripleD [OF keeps_add_new_l2_block])
      show "\<And>st r st'. ?I st \<Longrightarrow> m_env cancel_on_critical_error st = (r, st') \<Longrightarrow> ?I st'"
        by (rule tripleD [OF triple_m_env])
    qed
    then show "?I st'" ..
  qed
  show ?thesis
    unfolding reanchor_blocks_def prepare_reanchor_slot_info_def try_finalize_current_proposal_def
    by (intro keeps_rules keeps_m_builder keeps_modify binv_finalize loop)
qed

end
