(* ===== verification/Block_Finder.thy ===== *)
theory Block_Finder
  imports Execution_Layers
begin

text \<open>
  \<^verbatim>\<open>src/shasta/src/node/last_safe_l2_block_finder\<close>: the last L2 block that the inbox has accepted,
  found by a binary search over the proposal ids of the L2 blocks and kept in a cache.

  The search loop is a \<open>partial_function\<close>: its value is \<open>None\<close> where it does not end. With
  \<open>left = 0\<close> it can indeed spin, because \<open>right\<close> is decreased by a saturating subtraction; the code
  starts it at \<open>start_block + 1\<close>, and from there it always ends.
\<close>

section \<open>The search\<close>

partial_function (option) search_loop ::
  "(u64 \<Rightarrow> ('w, u64) action) \<Rightarrow> u64 \<Rightarrow> u64 \<Rightarrow> u64 \<Rightarrow> u64 option \<Rightarrow> 'w \<Rightarrow>
   (u64 option outcome \<times> 'w) option" where
  "search_loop fetch target left right result w =
     (if left \<le> right then
        let mid = left + (right - left) div 2 in
        (case fetch mid w of
           (Err e, w') \<Rightarrow> Some (Err e, w')
         | (Panic, w') \<Rightarrow> Some (Panic, w')
         | (Ok pid, w') \<Rightarrow>
             if pid = target then
               (case add mid 1 of
                  Ok left' \<Rightarrow> search_loop fetch target left' right (Some mid) w'
                | _ \<Rightarrow> Some (Panic, w'))
             else if pid < target then
               (case add mid 1 of
                  Ok left' \<Rightarrow> search_loop fetch target left' right (Some mid) w'
                | _ \<Rightarrow> Some (Panic, w'))
             else search_loop fetch target left (saturating_sub mid 1) result w')
      else Some (Ok result, w))"

definition binary_search_last_block ::
  "(u64 \<Rightarrow> ('w, u64) action) \<Rightarrow> u64 \<Rightarrow> u64 \<Rightarrow> u64 \<Rightarrow> 'w \<Rightarrow> (u64 option outcome \<times> 'w) option" where
  "binary_search_last_block fetch start_block end_block target w =
     (case add start_block 1 of
        Ok left \<Rightarrow> search_loop fetch target left end_block None w
      | _ \<Rightarrow> Some (Panic, w))"

text \<open>The midpoint, over the naturals.\<close>

lemma unat_mid:
  assumes "left \<le> right"
  shows "unat (left + (right - left) div 2 :: u64) = unat left + (unat right - unat left) div 2"
proof -
  have "unat ((right - left) div 2) = (unat right - unat left) div 2"
    using assms by (simp add: unat_div unat_minus_le)
  moreover from this have "unat left + unat ((right - left) div 2) < 2 ^ LENGTH(64)"
    using assms unat_lt_len [of right] by (simp add: word_le_nat_alt)
  ultimately show ?thesis by (simp add: unat_word_ariths)
qed

lemma mid_bounds:
  assumes "left \<le> right"
  shows "left \<le> left + (right - left) div 2 \<and> left + (right - left) div 2 \<le> (right :: u64)"
  using assms unat_mid [OF assms] by (auto simp: word_le_nat_alt)

text \<open>One round of the loop, with the two branches that move \<open>left\<close> merged.\<close>

lemma search_loop_round:
  assumes "left \<le> right" "mid = left + (right - left) div 2" "fetch mid w = (Ok pid, w')"
  shows "search_loop fetch target left right result w =
    (if pid \<le> target
     then (case add mid 1 of
             Ok left' \<Rightarrow> search_loop fetch target left' right (Some mid) w'
           | _ \<Rightarrow> Some (Panic, w'))
     else search_loop fetch target left (saturating_sub mid 1) result w')"
  by (subst search_loop.simps) (use assms in \<open>auto simp: Let_def\<close>)

lemma search_loop_done: "\<not> left \<le> right \<Longrightarrow> search_loop fetch target left right result w = Some (Ok result, w)"
  by (subst search_loop.simps) simp

text \<open>Termination, whatever the fetcher answers.\<close>

lemma search_loop_ends:
  "0 < unat left \<Longrightarrow> \<exists>r. search_loop fetch target left right result w = Some r"
proof (induction "unat right + 1 - unat left" arbitrary: left right result w rule: less_induct)
  case less
  show ?case
  proof (cases "left \<le> right")
    case True
    define mid where "mid = left + (right - left) div 2"
    have mid: "unat left \<le> unat mid" "unat mid \<le> unat right"
      using mid_bounds [OF True] unfolding mid_def by (auto simp: word_le_nat_alt)
    obtain x w' where f: "fetch mid w = (x, w')" by fastforce
    show ?thesis
    proof (cases x)
      case (Ok pid)
      note round = search_loop_round [where fetch = fetch and w = w and w' = w' and pid = pid
          and target = target and result = result, OF True mid_def f [unfolded Ok]]
      show ?thesis
      proof (cases "pid \<le> target")
        case True
        show ?thesis
        proof (cases "add mid 1")
          case (Ok l)
          then have l: "unat l = unat mid + 1" by simp
          have "\<exists>r. search_loop fetch target l right (Some mid) w' = Some r"
            using l mid by (intro less.hyps) auto
          with True round Ok show ?thesis by (simp del: add_Ok_iff)
        qed (use True round in \<open>simp_all del: add_Panic_iff\<close>)
      next
        case False
        have "\<exists>r. search_loop fetch target left (saturating_sub mid 1) result w' = Some r"
          using mid less.prems by (intro less.hyps) auto
        with False round show ?thesis by simp
      qed
    qed (subst search_loop.simps, use f True in \<open>simp add: Let_def mid_def\<close>)+
  next
    case False
    then show ?thesis by (simp add: search_loop_done)
  qed
qed

lemma binary_search_ends: "\<exists>r. binary_search_last_block fetch s e t w = Some r"
proof (cases "add s 1")
  case (Ok left)
  then have "0 < unat left" by simp
  from search_loop_ends [OF this] Ok show ?thesis
    by (simp add: binary_search_last_block_def del: add_Ok_iff)
qed (simp_all add: binary_search_last_block_def del: add_Panic_iff)

text \<open>What is searched: the last block of a range whose proposal id does not exceed the target.\<close>

definition is_last_le :: "(u64 \<Rightarrow> u64) \<Rightarrow> u64 \<Rightarrow> u64 \<Rightarrow> u64 \<Rightarrow> u64 option \<Rightarrow> bool" where
  "is_last_le ids s e t r \<longleftrightarrow>
     (case r of
        None \<Rightarrow> \<forall>j. s < j \<and> j \<le> e \<longrightarrow> t < ids j
      | Some k \<Rightarrow> s < k \<and> k \<le> e \<and> ids k \<le> t \<and> (\<forall>j. k < j \<and> j \<le> e \<longrightarrow> t < ids j))"

lemma search_loop_correct:
  assumes fetch: "\<And>b w. \<exists>w'. fetch b w = (Ok (ids b), w')"
    and sorted: "\<And>i j. s < i \<Longrightarrow> i \<le> j \<Longrightarrow> j \<le> e \<Longrightarrow> ids i \<le> ids j"
    and small: "unat e + 1 < 2 ^ 64"
  shows "s < left \<Longrightarrow> right \<le> e \<Longrightarrow> (\<forall>j. right < j \<and> j \<le> e \<longrightarrow> t < ids j) \<Longrightarrow>
    (case result of None \<Rightarrow> unat left = unat s + 1
     | Some k \<Rightarrow> unat left = unat k + 1 \<and> s < k \<and> k \<le> e \<and> ids k \<le> t) \<Longrightarrow>
    \<exists>r w'. search_loop fetch t left right result w = Some (Ok r, w') \<and> is_last_le ids s e t r"
proof (induction "unat right + 1 - unat left" arbitrary: left right result w rule: less_induct)
  case less
  show ?case
  proof (cases "left \<le> right")
    case False
    with less.prems have "is_last_le ids s e t result"
      by (cases result) (auto simp: is_last_le_def word_le_nat_alt word_less_nat_alt)
    with False show ?thesis by (auto simp: search_loop_done)
  next
    case True
    define mid where "mid = left + (right - left) div 2"
    have mid: "unat left \<le> unat mid" "unat mid \<le> unat right"
      using mid_bounds [OF True] unfolding mid_def by (auto simp: word_le_nat_alt)
    obtain w' where f: "fetch mid w = (Ok (ids mid), w')" using fetch by blast
    note round = search_loop_round [where fetch = fetch and w = w and w' = w' and pid = "ids mid"
        and target = t and result = result, OF True mid_def f]
    have rng: "s < mid" "mid \<le> e"
      using less.prems(1,2) mid by (auto simp: word_le_nat_alt word_less_nat_alt)
    show ?thesis
    proof (cases "ids mid \<le> t")
      case le: True
      have "unat mid + 1 < 2 ^ 64" using rng(2) small by (simp add: word_le_nat_alt)
      then obtain l :: u64 where l: "add mid 1 = Ok l" "unat l = unat mid + 1"
        by (simp add: add_def unat_word_ariths)
      have "\<exists>r w''. search_loop fetch t l right (Some mid) w' = Some (Ok r, w'') \<and> is_last_le ids s e t r"
        using less.prems l(2) mid rng le by (intro less.hyps) (auto simp: word_less_nat_alt word_le_nat_alt)
      with round le l show ?thesis by (simp del: add_Ok_iff)
    next
      case gt: False
      have above: "t < ids j" if "saturating_sub mid 1 < j" "j \<le> e" for j
      proof -
        have "mid \<le> j" using that mid by (auto simp: word_less_nat_alt word_le_nat_alt)
        from sorted [OF rng(1) this that(2)] gt show ?thesis by auto
      qed
      have pos: "0 < unat left" using less.prems(1) by (auto simp: word_less_nat_alt)
      have "\<exists>r w''. search_loop fetch t left (saturating_sub mid 1) result w' = Some (Ok r, w'') \<and>
          is_last_le ids s e t r"
        using less.prems mid pos rng above by (intro less.hyps) (auto simp: word_less_nat_alt word_le_nat_alt)
      with round gt show ?thesis by simp
    qed
  qed
qed

text \<open>
  C9: The binary search is correct and always ends. If the proposal ids of the blocks after
  \<open>start_block\<close> up to \<open>end_block\<close> do not decrease, and each can be fetched, the search returns the
  last block whose proposal id is at most the target, and \<open>None\<close> exactly if there is no such block.
\<close>
theorem binary_search_finds_last:
  assumes "\<And>b w. \<exists>w'. fetch b w = (Ok (ids b), w')"
    and "\<And>i j. s < i \<Longrightarrow> i \<le> j \<Longrightarrow> j \<le> e \<Longrightarrow> ids i \<le> ids j"
    and "unat s + 1 < 2 ^ 64" "unat e + 1 < 2 ^ 64"
  shows "\<exists>r w'. binary_search_last_block fetch s e t w = Some (Ok r, w') \<and>
    (case r of
       None \<Rightarrow> \<forall>j. s < j \<and> j \<le> e \<longrightarrow> t < ids j
     | Some k \<Rightarrow> s < k \<and> k \<le> e \<and> ids k \<le> t \<and> (\<forall>j. k < j \<and> j \<le> e \<longrightarrow> t < ids j))"
proof -
  obtain left :: u64 where left: "add s 1 = Ok left" "unat left = unat s + 1"
    using assms(3) by (simp add: add_def unat_word_ariths)
  have "\<exists>r w'. search_loop fetch t left e None w = Some (Ok r, w') \<and> is_last_le ids s e t r"
    using left by (intro search_loop_correct assms) (auto simp: word_less_nat_alt word_le_nat_alt)
  with left show ?thesis
    by (simp add: binary_search_last_block_def is_last_le_def del: add_Ok_iff)
qed

theorem binary_search_finds_last_witness:
  "\<exists>r w'. binary_search_last_block (\<lambda>b. return (b div 2)) 0 9 3 () = Some (Ok r, w') \<and>
    (case r of None \<Rightarrow> False | Some k \<Rightarrow> k \<le> 9 \<and> k div 2 \<le> 3 \<and> (\<forall>j. k < j \<and> j \<le> 9 \<longrightarrow> 3 < j div 2))"
proof -
  have mono: "i div 2 \<le> j div 2" if "i \<le> j" for i j :: u64
    using that by (simp add: word_le_nat_alt unat_div div_le_mono)
  have "\<exists>r w'. binary_search_last_block (\<lambda>b. return (b div 2)) 0 9 3 () = Some (Ok r, w') \<and>
    (case r of None \<Rightarrow> \<forall>j. 0 < j \<and> j \<le> 9 \<longrightarrow> (3 :: u64) < j div 2
     | Some k \<Rightarrow> 0 < k \<and> k \<le> 9 \<and> k div 2 \<le> 3 \<and> (\<forall>j. k < j \<and> j \<le> 9 \<longrightarrow> 3 < j div 2))"
    by (rule binary_search_finds_last) (auto simp: return_def mono)
  moreover have "\<not> (\<forall>j. 0 < j \<and> j \<le> 9 \<longrightarrow> (3 :: u64) < j div 2)"
    by (auto intro!: exI [of _ 1])
  ultimately show ?thesis by (fastforce split: option.splits)
qed

text \<open>The number of fetches, counted by the world.\<close>

lemma search_loop_calls:
  assumes fetch: "\<And>b w. fetch b w = (Ok (ids b), Suc w)"
  shows "0 < unat left \<Longrightarrow> unat right + 1 - unat left < 2 ^ n \<Longrightarrow>
    \<exists>r w'. search_loop fetch t left right result w = Some (r, w') \<and> w' \<le> w + n"
proof (induction n arbitrary: left right result w)
  case 0
  then have "\<not> left \<le> right" by (auto simp: word_le_nat_alt)
  then show ?case by (simp add: search_loop_done)
next
  case (Suc n)
  show ?case
  proof (cases "left \<le> right")
    case False
    then show ?thesis by (simp add: search_loop_done)
  next
    case True
    define mid where "mid = left + (right - left) div 2"
    have um: "unat mid = unat left + (unat right - unat left) div 2"
      unfolding mid_def by (rule unat_mid [OF True])
    have le: "unat left \<le> unat right" using True by (simp add: word_le_nat_alt)
    note round = search_loop_round [where fetch = fetch and w = w and w' = "Suc w" and pid = "ids mid"
        and target = t and result = result, OF True mid_def fetch]
    show ?thesis
    proof (cases "ids mid \<le> t")
      case le_t: True
      show ?thesis
      proof (cases "add mid 1")
        case (Ok l)
        then have l: "unat l = unat mid + 1" by simp
        have "\<exists>r w'. search_loop fetch t l right (Some mid) (Suc w) = Some (r, w') \<and> w' \<le> Suc w + n"
          using l um le Suc.prems by (intro Suc.IH) auto
        with round le_t Ok show ?thesis by (auto simp del: add_Ok_iff)
      qed (use round le_t in \<open>simp_all del: add_Panic_iff\<close>)
    next
      case False
      have "\<exists>r w'. search_loop fetch t left (saturating_sub mid 1) result (Suc w) = Some (r, w') \<and>
          w' \<le> Suc w + n"
        using um le Suc.prems by (intro Suc.IH) auto
      with round False show ?thesis by auto
    qed
  qed
qed

text \<open>
  C26: The search is logarithmic: over a range of fewer than \<open>2 ^ n\<close> blocks it fetches at most \<open>n\<close>
  proposal ids, sorted or not.
\<close>
theorem binary_search_logarithmic:
  assumes "unat e - unat s < 2 ^ n"
  shows "\<exists>r calls. binary_search_last_block (\<lambda>b w. (Ok (ids b), Suc w)) s e t 0 = Some (r, calls) \<and>
    calls \<le> n"
proof (cases "add s 1")
  case (Ok left)
  then have l: "unat left = unat s + 1" by simp
  have "\<exists>r w'. search_loop (\<lambda>b w. (Ok (ids b), Suc w)) t left e None 0 = Some (r, w') \<and> w' \<le> 0 + n"
    using l assms by (intro search_loop_calls) auto
  with Ok show ?thesis by (simp add: binary_search_last_block_def del: add_Ok_iff)
qed (simp_all add: binary_search_last_block_def del: add_Panic_iff)

theorem binary_search_logarithmic_witness:
  "\<exists>r calls. binary_search_last_block (\<lambda>b w. (Ok (b div 10), Suc w)) 0 999 50 0 = Some (r, calls) \<and>
     calls \<le> 10"
  using binary_search_logarithmic [of 999 0 10] by simp

section \<open>The finder\<close>

text \<open>The search as an action. It always ends (\<open>binary_search_ends\<close>), so \<open>None\<close> is never met.\<close>

definition run_search :: "('w, 'tx) services \<Rightarrow> u64 \<Rightarrow> u64 \<Rightarrow> u64 \<Rightarrow> ('w, u64 option) action" where
  "run_search S start_block end_block target w =
     (case binary_search_last_block (get_proposal_id_from_geth_by_block_id S) start_block end_block target w of
        Some r \<Rightarrow> r | None \<Rightarrow> (Panic, w))"

text \<open>The slow path of \<open>find_last_block_for_proposal_id\<close>.\<close>

definition find_by_search :: "('w, 'tx) services \<Rightarrow> u64 \<Rightarrow> ('w, u64 \<times> u64) action" where
  "find_by_search S target_proposal_id =
     bind (get_head_l1_origin S) (\<lambda>last_known_safe_block_id.
     bind (get_proposal_id_from_geth_by_block_id S last_known_safe_block_id) (\<lambda>last_known_safe_proposal_id.
     bind (get_latest_block_id_and_proposal_id S) (\<lambda>(last_block_id, last_proposal_id).
     if last_proposal_id = target_proposal_id
     then return (last_block_id, last_known_safe_proposal_id)
     else if target_proposal_id < last_known_safe_proposal_id \<or> last_proposal_id < target_proposal_id
     then raise (Anyhow ''Target proposal id is out of range'')
     else bind (run_search S last_known_safe_block_id last_block_id target_proposal_id) (\<lambda>r.
          case r of
            Some block_id \<Rightarrow> return (block_id, last_known_safe_proposal_id)
          | None \<Rightarrow> raise (Anyhow ''Failed to find block for proposal id'')))))"

definition find_last_block_for_proposal_id :: "('w, 'tx) services \<Rightarrow> u64 \<Rightarrow> ('w, u64 \<times> u64) action" where
  "find_last_block_for_proposal_id S target_proposal_id =
     attempt (get_last_certain_block_id_by_proposal_id S target_proposal_id)
       (\<lambda>block_id. return (block_id, target_proposal_id))
       (\<lambda>_. find_by_search S target_proposal_id)"

definition clear_cache :: "u64 \<Rightarrow> ('w env, unit) action" where
  "clear_cache safe_proposal_id =
     modify (\<lambda>e. e\<lparr>finder_cache := \<lambda>k. if safe_proposal_id \<le> k then finder_cache e k else None\<rparr>)"

definition finder_get_impl :: "('w, 'tx) services \<Rightarrow> u48 \<Rightarrow> ('w env, u64) action" where
  "finder_get_impl S next_proposal_id =
     (if next_proposal_id = 1 then on_world (or_value (get_head_l1_origin S) 0)
      else bind (lift (sub (ucast next_proposal_id) 1)) (\<lambda>target_proposal_id.
           bind (gets (\<lambda>e. finder_cache e target_proposal_id)) (\<lambda>hit.
           case hit of
             Some block_id \<Rightarrow> return block_id
           | None \<Rightarrow>
               bind (on_world (find_last_block_for_proposal_id S target_proposal_id))
                 (\<lambda>(block_id, safe_proposal_id).
               bind (clear_cache safe_proposal_id) (\<lambda>_.
               bind (modify (\<lambda>e. e\<lparr>finder_cache := (finder_cache e)(target_proposal_id \<mapsto> block_id)\<rparr>)) (\<lambda>_.
               return block_id))))))"

definition finder_get :: "('w, 'tx) services \<Rightarrow> ('w env, u64) action" where
  "finder_get S = bind (on_world (get_inbox_state S)) (finder_get_impl S)"

definition get_when_timestamp_reached :: "('w, 'tx) services \<Rightarrow> u64 \<Rightarrow> ('w env, u64 option) action" where
  "get_when_timestamp_reached S ts =
     bind (on_world (get_inbox_state_when_timestamp_reached S ts)) (\<lambda>r.
     case r of
       None \<Rightarrow> return None
     | Some next_proposal_id \<Rightarrow> bind (finder_get_impl S next_proposal_id) (\<lambda>b. return (Some b)))"

lemma run_search_correct:
  assumes ids: "\<And>n w. get_proposal_id_from_geth_by_block_id S n w = (Ok (ids n), w)"
    and sorted: "\<And>i j. s < i \<Longrightarrow> i \<le> j \<Longrightarrow> j \<le> e \<Longrightarrow> ids i \<le> ids j"
    and small: "unat s + 1 < 2 ^ 64" "unat e + 1 < 2 ^ 64"
  obtains r w' where "run_search S s e t w = (Ok r, w')" "is_last_le ids s e t r"
proof -
  obtain left :: u64 where left: "add s 1 = Ok left" "unat left = unat s + 1"
    using small(1) by (simp add: add_def unat_word_ariths)
  have "\<exists>r w'. search_loop (get_proposal_id_from_geth_by_block_id S) t left e None w = Some (Ok r, w') \<and>
      is_last_le ids s e t r"
    using left ids by (intro search_loop_correct sorted small) (auto simp: word_less_nat_alt word_le_nat_alt)
  then obtain r w' where "search_loop (get_proposal_id_from_geth_by_block_id S) t left e None w = Some (Ok r, w')"
    "is_last_le ids s e t r" by blast
  with left that show ?thesis
    by (auto simp: run_search_def binary_search_last_block_def simp del: add_Ok_iff)
qed

text \<open>
  When the slow path of the finder answers. The proposal ids of the L2 chain do not decrease
  above the safe head \<open>sb\<close>, and the target lies between the ids of the safe head and of the latest
  block \<open>lb\<close>. Then the search returns the last block of the target proposal or of an earlier one,
  but only if such a block exists strictly above the safe head or the latest block belongs to the
  target. In particular the call fails when the safe head itself is the last block of the target
  proposal and newer blocks are on top of it.
\<close>
lemma slow_path_answers_iff:
  assumes "\<And>n w. get_proposal_id_from_geth_by_block_id S n w = (Ok (ids n), w)"
    and "get_head_l1_origin S w = (Ok sb, w)"
    and "get_latest_block_id_and_proposal_id S w = (Ok (lb, ids lb), w)"
    and "\<And>i j. sb < i \<Longrightarrow> i \<le> j \<Longrightarrow> j \<le> lb \<Longrightarrow> ids i \<le> ids j"
    and "ids sb \<le> target" "target \<le> ids lb" "unat sb + 1 < 2 ^ 64" "unat lb + 1 < 2 ^ 64"
  shows "if ids lb = target \<or> (\<exists>j. sb < j \<and> j \<le> lb \<and> ids j \<le> target)
    then \<exists>k. fst (find_by_search S target w) = Ok (k, ids sb) \<and> k \<le> lb \<and> ids k \<le> target \<and>
           (\<forall>j. k < j \<and> j \<le> lb \<longrightarrow> target < ids j)
    else \<exists>msg. fst (find_by_search S target w) = Err msg"
proof -
  obtain r w' where r: "run_search S sb lb target w = (Ok r, w')" "is_last_le ids sb lb target r"
    using run_search_correct [of S ids sb lb target w, OF assms(1,4,7,8)] by blast
  have "find_by_search S target w =
    (if ids lb = target then (Ok (lb, ids sb), w)
     else (case r of Some k \<Rightarrow> (Ok (k, ids sb), w')
                   | None \<Rightarrow> (Err (Anyhow ''Failed to find block for proposal id''), w')))"
    using assms(1-3,5,6) r(1)
    by (auto simp: find_by_search_def bind_def return_def raise_def split: option.splits)
  with r(2) show ?thesis
    by (auto simp: is_last_le_def split: option.splits)
qed

lemma finder_get_impl_cases:
  assumes "finder_get_impl S n e = (Ok b, e')" "n \<noteq> 1"
  shows "(finder_cache e (ucast n - 1) = Some b \<and> finder_cache e' = finder_cache e) \<or>
    (\<exists>safe w w'. find_last_block_for_proposal_id S (ucast n - 1) w = (Ok (b, safe), w') \<and>
       (\<forall>k. finder_cache e' k = (if k = ucast n - 1 then Some b
                               else if safe \<le> k then finder_cache e k else None)))"
proof -
  have t: "t = ucast n - 1" if "sub (ucast n) 1 = Ok t" for t :: u64
    using that by (simp add: sub_def del: sub_Ok_iff split: if_splits)
  show ?thesis
  proof (cases "finder_cache e (ucast n - 1)")
    case (Some c)
    with assms show ?thesis
      by (auto simp: finder_get_impl_def bind_def lift_def gets_def return_def
          simp del: sub_Ok_iff split: outcome.splits dest!: t)
  next
    case None
    with assms obtain safe w' where
      "find_last_block_for_proposal_id S (ucast n - 1) (world e) = (Ok (b, safe), w')"
      "e' = e\<lparr>world := w', finder_cache :=
         (\<lambda>k. if safe \<le> k then finder_cache (e\<lparr>world := w'\<rparr>) k else None)(ucast n - 1 \<mapsto> b)\<rparr>"
      by (auto simp: finder_get_impl_def bind_def lift_def gets_def return_def modify_def
          clear_cache_def on_world_def zoom_def
          simp del: sub_Ok_iff split: outcome.splits prod.splits dest!: t)
    then show ?thesis by (intro disjI2 exI [of _ safe] exI [of _ "world e"] exI [of _ w']) simp
  qed
qed



end
