(* ===== verification/Verifier.thy ===== *)
theory Verifier
  imports Proposal_Manager Block_Finder
begin

text \<open>
  \<^verbatim>\<open>src/shasta/src/node/verifier.rs\<close>: when the node starts to preconfirm on top of L2 blocks that are not
  on L1 yet, the verifier waits until L1 has reached the verification timestamp and then checks
  that the chain below is still the same, and recovers proposals from the blocks that the
  previous operator left out.

  The recovery runs in a task of its own, on a copy of the manager. A started task is the value
  \<open>Running\<close> of the handle; it is run when the handle is awaited, and the service
  \<open>verifier_thread_finished\<close> tells when that is possible. The world may answer every call of the
  task as it likes, so what other tasks do meanwhile is covered. Awaiting a handle moves the
  result out; what a second await does is not specified by \<open>Future\<close>, it is the service
  \<open>join_again\<close>.
\<close>

section \<open>State\<close>

record 'tx verifier_thread =
  root_number :: u64
  root_hash :: b256
  thread_manager :: "'tx manager"

datatype 'tx join_handle = Running "'tx verifier_thread" u64 | Joined

record 'tx verifier =
  verification_timestamp :: u64
  thread :: "'tx verifier_thread option"
  handle :: "'tx join_handle option"

datatype 'tx verification_result =
    SuccessNoProposals
  | SuccessWithProposals "'tx proposal list"
  | ReanchorNeeded u64
  | SlotNotValid
  | VerificationInProgress

definition new_with_taiko_height ::
  "('w, 'tx) services \<Rightarrow> u64 \<Rightarrow> 'tx manager \<Rightarrow> u64 \<Rightarrow> ('w, 'tx verifier) action" where
  "new_with_taiko_height S l2_height manager timestamp =
     bind (get_l2_block_hash S l2_height) (\<lambda>hash.
     return \<lparr>verification_timestamp = timestamp,
             thread = Some \<lparr>root_number = l2_height, root_hash = hash, thread_manager = manager\<rparr>,
             handle = None\<rparr>)"

definition start_verification_thread :: "u64 \<Rightarrow> 'tx verifier \<Rightarrow> 'tx verifier" where
  "start_verification_thread taiko_inbox_height v =
     (case thread v of
        Some t \<Rightarrow> v\<lparr>thread := None, handle := Some (Running t taiko_inbox_height)\<rparr>
      | None \<Rightarrow> v)"

section \<open>The task\<close>

definition recover_next ::
  "('w, 'tx) services \<Rightarrow> recovered_block_info option \<Rightarrow> u64 \<Rightarrow>
   (('w, 'tx) mstate, recovered_block_info option) action" where
  "recover_next S parent_info current_height =
     bind (m_env is_cancelled) (\<lambda>stop.
     if stop then raise (Anyhow ''Verification cancelled'')
     else bind (recover_from_l2_block S current_height parent_info) (\<lambda>info. return (Some info)))"

definition handle_unprocessed_blocks ::
  "('w, 'tx) services \<Rightarrow> u64 \<Rightarrow> u64 \<Rightarrow> (('w, 'tx) mstate, unit) action" where
  "handle_unprocessed_blocks S taiko_inbox_height l2_height =
     bind (lift (add taiko_inbox_height 1)) (\<lambda>first_block.
     bind (m_world (get_l1_anchor_block_and_timestamp_offset_for_l2_block S first_block))
       (\<lambda>(anchor_offset, timestamp_offset).
     if \<not> is_offsets_valid S anchor_offset timestamp_offset
     then raise (Anyhow ''Offset exceeded during recovery'')
     else
       bind (reset_builder S) (\<lambda>_.
       bind (for_each (recover_next S) None (range_incl first_block l2_height)) (\<lambda>_. return ()))))"

definition verify_submitted_blocks ::
  "('w, 'tx) services \<Rightarrow> u64 \<Rightarrow> b256 \<Rightarrow> u64 \<Rightarrow> (('w, 'tx) mstate, 'tx proposal list) action" where
  "verify_submitted_blocks S number hash taiko_inbox_height =
     bind (m_world (get_l2_block_hash S number)) (\<lambda>current_hash.
     if hash \<noteq> current_hash then raise (Anyhow ''Block hash mismatch'')
     else
       bind (if taiko_inbox_height < number then handle_unprocessed_blocks S taiko_inbox_height number
             else if number < taiko_inbox_height
             then raise (Anyhow ''Unexpected block proposal was made by previous preconfer'')
             else return ()) (\<lambda>_.
       bind (m_builder try_finalize_current_proposal) (\<lambda>_.
       m_builder (\<lambda>b. case take_proposals_to_send b of (ps, b') \<Rightarrow> (Ok ps, b')))))"

section \<open>The verifier\<close>

definition v_env :: "('w env, 'a) action \<Rightarrow> ('tx verifier \<times> 'w env, 'a) action" where
  "v_env = zoom snd (\<lambda>e (v, _). (v, e))"

text \<open>\<open>handle.await?\<close>: the result of the task, or an error if the task panicked.\<close>

definition join_thread ::
  "('w, 'tx) services \<Rightarrow> 'tx join_handle \<Rightarrow> ('w env, error + 'tx proposal list) action" where
  "join_thread S h e =
     (case h of
        Running t height \<Rightarrow>
          (case verify_submitted_blocks S (root_number t) (root_hash t) height (thread_manager t, e) of
             (Ok ps, (_, e')) \<Rightarrow> (Ok (Inr ps), e')
           | (Err x, (_, e')) \<Rightarrow> (Ok (Inl x), e')
           | (Panic, (_, e')) \<Rightarrow> (Err (Anyhow ''task panicked''), e'))
      | Joined \<Rightarrow> bind (on_world (join_again S)) (\<lambda>ps. return (Inr ps)) e)"

definition verify :: "('w, 'tx) services \<Rightarrow> ('tx verifier \<times> 'w env, 'tx verification_result) action" where
  "verify S =
     bind (gets (\<lambda>(v, _). handle v)) (\<lambda>h.
     case h of
       Some jh \<Rightarrow>
         bind (v_env (on_world (verifier_thread_finished S))) (\<lambda>finished.
         if finished
         then
           bind (modify (\<lambda>(v, e). (v\<lparr>handle := Some Joined\<rparr>, e))) (\<lambda>_.
           bind (v_env (join_thread S jh)) (\<lambda>result.
           case result of
             Inr ps \<Rightarrow>
               return (if ps = [] then SuccessNoProposals else SuccessWithProposals ps)
           | Inl _ \<Rightarrow>
               bind (v_env (finder_get S)) (\<lambda>taiko_inbox_height. return (ReanchorNeeded taiko_inbox_height))))
         else return VerificationInProgress)
     | None \<Rightarrow>
         bind (gets (\<lambda>(v, _). verification_timestamp v)) (\<lambda>ts.
         bind (v_env (get_when_timestamp_reached S ts)) (\<lambda>height.
         case height of
           None \<Rightarrow> return SlotNotValid
         | Some taiko_inbox_height \<Rightarrow>
             bind (modify (\<lambda>(v, e). (start_verification_thread taiko_inbox_height v, e))) (\<lambda>_.
             return VerificationInProgress))))"

section \<open>Recovery rebuilds the chain\<close>

text \<open>The block that recovery makes of an L2 block.\<close>

definition recovered_block :: "('w, 'tx) services \<Rightarrow> 'tx rpc_block \<Rightarrow> 'tx l2_block_v2" where
  "recovered_block S block =
     (let (anchor_tx, txs) = (case rb_transactions block of Some (t # ts) \<Rightarrow> (Some t, ts) | _ \<Rightarrow> (None, []));
          anchor_id = (case Option.bind anchor_tx (\<lambda>t. abi_anchor_v4 S (tx_input S t)) of
                         Some cp \<Rightarrow> ucast (cp_block_number cp) | None \<Rightarrow> 0)
      in l2_block_new_from (pre_built_new (rlp_encode S) txs) (rb_timestamp block) (rb_beneficiary block)
           anchor_id (rb_gas_limit block - anchor_gas_limit S))"

lemma validate_block_timestamp_Ok:
  "validate_block_timestamp S ts parent_ts now = Ok () \<Longrightarrow> parent_ts < ts"
  by (auto simp: validate_block_timestamp_def Let_def word_less_nat_alt word_le_nat_alt not_less max_def
      split: if_splits)

lemma m_world_const: "m w = (r, w) \<Longrightarrow> world e = w \<Longrightarrow> m_world m (g, e) = (r, (g, e))"
  by (auto simp: m_world_def on_world_def zoom_def)

lemma m_world_Ok: "m_world m (g, e) = (Ok a, s) \<Longrightarrow> \<exists>w. m (world e) = (Ok a, w) \<and> s = (g, e\<lparr>world := w\<rparr>)"
  by (auto simp: m_world_def on_world_def zoom_def split: prod.splits)

lemma m_builder_Ok:
  "m_builder m (g, e) = (Ok a, s) \<Longrightarrow>
   \<exists>b. m (proposal_builder g) = (Ok a, b) \<and> s = (g\<lparr>proposal_builder := b\<rparr>, e)"
  by (auto simp: m_builder_def zoom_def split: prod.splits)

lemma replay_block_Ok:
  fixes s :: "('w, 'tx) mstate"
  assumes flags: "\<And>n w. l1_origin_is_forced S n w = (Ok (forced n), w)"
    and run: "replay_block S h block pid (g, e) = (Ok info', (g', e'))"
  shows "all_blocks (proposal_builder g') = all_blocks (proposal_builder g) @
      (if forced h then [] else [recovered_block S block]) \<and>
    info' = \<lparr>rec_proposal_id = pid, rec_timestamp = rb_timestamp block\<rparr>"
proof -
  have fi: "m_world (is_forced_inclusion S h) s = (Ok (forced h), s)" for s
    by (cases s) (simp add: m_world_def on_world_def zoom_def is_forced_inclusion_def
        get_forced_inclusion_form_l1origin_def map_err_def attempt_def flags return_def)
  from run obtain anchor_tx txs where txs: "rb_transactions block = Some (anchor_tx # txs)"
    by (auto simp: replay_block_def raise_def split: option.splits list.splits)
  from run txs obtain gas cp anchor s3 where
    gas: "checked_sub (rb_gas_limit block) (anchor_gas_limit S) = Some gas"
    and cp: "abi_anchor_v4 S (tx_input S anchor_tx) = Some cp"
    and anchor: "m_world (anchor_from_precomputed_data S (ucast (cp_block_number cp)) (cp_block_hash cp)
                 (cp_state_root cp)) (g, e) = (Ok anchor, s3)"
    and rec: "m_builder (recover_from (compress_manifest S) (rlp_encode S) pid anchor
                 (rb_beneficiary block) txs (rb_timestamp block) gas (forced h)) s3 = (Ok (), (g', e'))"
    and info': "info' = \<lparr>rec_proposal_id = pid, rec_timestamp = rb_timestamp block\<rparr>"
    unfolding replay_block_def
    by (auto simp: bind_Ok_iff fi lift_def return_def get_anchor_tx_data_def simp del: checked_sub_Some_iff)
  from m_world_Ok [OF anchor] obtain e3 where s3: "s3 = (g, e3)" and id: "ab_id anchor = ucast (cp_block_number cp)"
    by (auto simp: anchor_from_precomputed_data_def bind_Ok_iff return_def)
  from m_builder_Ok [OF rec [unfolded s3]] obtain b where
    b: "recover_from (compress_manifest S) (rlp_encode S) pid anchor
          (rb_beneficiary block) txs (rb_timestamp block) gas (forced h) (proposal_builder g) = (Ok (), b)"
    and g': "proposal_builder g' = b" by auto
  have "rb_gas_limit block - anchor_gas_limit S = gas"
    using gas by (simp add: checked_sub_def split: if_splits del: checked_sub_Some_iff)
  with recover_from_all_blocks [OF b] g' id txs cp info' show ?thesis
    by (simp add: recovered_block_def)
qed

lemma recover_from_l2_block_Ok:
  assumes chain: "\<And>n w. get_block (l2_provider S) (Number n) True w = (Ok (Some (blk n)), w)"
    and flags: "\<And>n w. l1_origin_is_forced S n w = (Ok (forced n), w)"
    and run: "recover_from_l2_block S h info (g, e) = (Ok info', (g', e'))"
  shows "all_blocks (proposal_builder g') = all_blocks (proposal_builder g) @
      (if forced h then [] else [recovered_block S (blk h)]) \<and>
    rec_timestamp info' = rb_timestamp (blk h) \<and>
    (\<forall>i. info = Some i \<longrightarrow> rec_timestamp i < rb_timestamp (blk h))"
proof -
  have blk: "m_world (get_l2_block_by_number S h True) s = (Ok (blk h), s)" for s
    by (cases s) (simp add: m_world_def on_world_def zoom_def get_l2_block_by_number_def
        get_block_by_number_def map_err_def attempt_def bind_def chain return_def lift_def)
  from run obtain d :: extra_data and s1 pinfo now s2 where
    pinfo: "m_world (recover_parent_info S h (proposal_id d) info) (g, e) = (Ok pinfo, s1)"
    and now: "m_world (system_now S) s1 = (Ok now, s2)"
    and ts: "validate_block_timestamp S (rb_timestamp (blk h)) (rec_timestamp pinfo) now = Ok ()"
    and rest: "replay_block S h (blk h) (proposal_id d) s2 = (Ok info', (g', e'))"
    by (auto simp: recover_from_l2_block_def bind_Ok_iff blk lift_def)
  from m_world_Ok [OF pinfo] obtain e1 where s1: "s1 = (g, e1)" by blast
  from m_world_Ok [OF now [unfolded s1]] obtain e2 where s2: "s2 = (g, e2)" by blast
  have "rec_timestamp i < rb_timestamp (blk h)" if "info = Some i" for i
  proof -
    from m_world_Ok [OF pinfo] that have "pinfo = i" by (auto simp: recover_parent_info_def return_def)
    with validate_block_timestamp_Ok [OF ts] show ?thesis by simp
  qed
  with replay_block_Ok [OF flags rest [unfolded s2]] show ?thesis by simp
qed

lemma recover_next_Ok:
  "recover_next S info h (g, e) = (Ok i, s) \<Longrightarrow>
   \<exists>j. i = Some j \<and> recover_from_l2_block S h info (g, e) = (Ok j, s)"
  by (auto simp: recover_next_def bind_Ok_iff m_env_def zoom_def is_cancelled_def gets_def raise_def
      return_def split: if_splits prod.splits)

lemma recover_range:
  assumes chain: "\<And>n w. get_block (l2_provider S) (Number n) True w = (Ok (Some (blk n)), w)"
    and flags: "\<And>n w. l1_origin_is_forced S n w = (Ok (forced n), w)"
  shows "for_each (recover_next S) info hs (g, e) = (Ok info', (g', e')) \<Longrightarrow>
    all_blocks (proposal_builder g') = all_blocks (proposal_builder g) @
      map (\<lambda>n. recovered_block S (blk n)) (filter (\<lambda>n. \<not> forced n) hs) \<and>
    sorted_wrt (<) (map (\<lambda>n. rb_timestamp (blk n)) hs) \<and>
    (\<forall>i. info = Some i \<longrightarrow> (\<forall>n \<in> set hs. rec_timestamp i < rb_timestamp (blk n)))"
proof (induction hs arbitrary: info g e)
  case Nil
  then show ?case by (simp add: return_def)
next
  case (Cons h hs)
  from Cons.prems obtain i1 g1 e1 where
    1: "recover_from_l2_block S h info (g, e) = (Ok i1, (g1, e1))"
    and 2: "for_each (recover_next S) (Some i1) hs (g1, e1) = (Ok info', (g', e'))"
    by (auto simp: bind_Ok_iff dest!: recover_next_Ok)
  from recover_from_l2_block_Ok [OF chain flags 1] Cons.IH [OF 2] show ?case
    by (force dest: less_trans)
qed

text \<open>
  C4: A successful verification hands over exactly the blocks that are missing on L1. Suppose the
  L2 node serves the chain \<open>blk\<close> and tells which blocks are forced inclusions. If the task ends
  well, the inbox height is not above the preconfirmation root, and the blocks of the recovered
  proposals, one proposal after the other, are the blocks after the inbox height up to the root,
  in order, forced inclusions left out, each with its own transactions, timestamp, coinbase,
  anchor and gas limit. The timestamps of these blocks of the chain strictly increase.
\<close>
theorem verifier_recovers_chain:
  assumes "\<And>n w. get_block (l2_provider S) (Number n) True w = (Ok (Some (blk n)), w)"
    and "\<And>n w. l1_origin_is_forced S n w = (Ok (forced n), w)"
    and "verify_submitted_blocks S root hash inbox (m_clone_without_proposals i g, e) = (Ok ps, s)"
  shows "inbox \<le> root \<and>
    (let hs = map of_nat [Suc (unat inbox)..<Suc (unat root)] in
     concat (map p_l2_blocks ps) = map (\<lambda>n. recovered_block S (blk n)) (filter (\<lambda>n. \<not> forced n) hs) \<and>
     sorted_wrt (<) (map (\<lambda>n. rb_timestamp (blk n)) hs))"
proof -
  let ?g = "m_clone_without_proposals i g" and ?hs = "map of_nat [Suc (unat inbox)..<Suc (unat root)] :: u64 list"
  have empty: "all_blocks (proposal_builder ?g) = []"
    by (simp add: m_clone_without_proposals_def clone_without_proposals_def all_blocks_def planned_def queue_new_def)
  have const: "m_world m s = (r, s') \<Longrightarrow> proposal_builder (fst s') = proposal_builder (fst s)"
    for m :: "('a, b256) action" and s s' :: "('a, 'b) mstate" and r
    by (auto simp: m_world_def zoom_def split: prod.splits)
  from assms(3) obtain s1 g2 e2 where
    step: "(if inbox < root then handle_unprocessed_blocks S inbox root
            else if root < inbox then raise (Anyhow ''Unexpected block proposal was made by previous preconfer'')
            else return ()) s1 = (Ok (), (g2, e2))"
    and s1: "proposal_builder (fst s1) = proposal_builder ?g"
    and ps: "ps = proposals (queue (finalize_current_proposal (proposal_builder g2)))"
    unfolding verify_submitted_blocks_def
    by (auto simp: bind_Ok_iff raise_def return_def m_builder_def zoom_def try_finalize_current_proposal_def modify_def
        take_proposals_to_send_def queue_take_all_def Let_def dest!: const split: if_splits prod.splits)
  have out: "concat (map p_l2_blocks ps) = all_blocks (proposal_builder g2)"
    using finalize_all_blocks [of "proposal_builder g2"] by (simp add: ps all_blocks_def planned_def)
  show ?thesis
  proof (cases "inbox < root")
    case True
    obtain first :: u64 where first: "add inbox 1 = Ok first" "unat first = Suc (unat inbox)"
      using less_imp_Suc [OF True] by (metis One_nat_def add_Ok_iff unat_1 add.right_neutral add_Suc_right)
    then have hs: "range_incl first root = ?hs" by (simp add: range_incl_def)
    from step True first obtain s2 s3 s4 info where
      reset: "reset_builder S s2 = (Ok (), s3)"
      and loop: "for_each (recover_next S) None ?hs s3 = (Ok info, (g2, e2))"
      unfolding handle_unprocessed_blocks_def
      by (auto simp: bind_Ok_iff lift_def raise_def return_def hs simp del: add_Ok_iff split: if_splits prod.splits)
    have "all_blocks (proposal_builder (fst s3)) = []"
      using reset
      by (auto simp: reset_builder_def bind_Ok_iff m_builder_def zoom_def modify_def builder_new_def
          all_blocks_def planned_def queue_new_def split: prod.splits)
    moreover obtain g3 e3 where "s3 = (g3, e3)" by fastforce
    ultimately show ?thesis
      using recover_range [OF assms(1,2), of None ?hs g3 e3] loop out True by (simp add: Let_def)
  next
    case False
    with step s1 empty have "inbox = root" "all_blocks (proposal_builder g2) = []"
      by (auto simp: raise_def return_def split: if_splits)
    with out show ?thesis by simp
  qed
qed

text \<open>
  A verifier whose reorganisation target could not be looked up is lost. If the task has
  failed and then the lookup of the inbox height fails, \<open>verify\<close> returns the error, but the handle
  of the task has already been awaited. The next call, once more with a finished task, does not
  see the failure of the task again; it awaits the handle a second time.
\<close>
lemma verifier_handle_awaited_twice:
  assumes "handle v = Some (Running t height)"
    and "verifier_thread_finished S (world e) = (Ok True, w1)"
    and "verify_submitted_blocks S (root_number t) (root_hash t) height
      (thread_manager t, e\<lparr>world := w1\<rparr>) = (Err x, (g, e2))"
    and "finder_get S e2 = (Err y, e3)"
    and "verifier_thread_finished S (world e4) = (Ok True, w5)"
  shows "\<exists>v'. verify S (v, e) = (Err y, (v', e3)) \<and> thread v' = thread v \<and>
    fst (verify S (v', e4)) =
      (case fst (join_again S w5) of
         Ok ps \<Rightarrow> Ok (if ps = [] then SuccessNoProposals else SuccessWithProposals ps)
       | Err z \<Rightarrow> Err z | Panic \<Rightarrow> Panic)"
proof -
  have env: "v_env m (u, f) = (case m f of (r, f') \<Rightarrow> (r, (u, f')))" for m :: "('a env, 'c) action" and u f
    by (simp add: v_env_def zoom_def split: prod.splits)
  have first: "verify S (v, e) = (Err y, (v\<lparr>handle := Some Joined\<rparr>, e3))"
    using assms(1-4)
    by (simp add: verify_def bind_def gets_def modify_def v_env_def zoom_def on_world_def join_thread_def)
  have "fst (verify S (v\<lparr>handle := Some Joined\<rparr>, e4)) =
      (case fst (join_again S w5) of
         Ok ps \<Rightarrow> Ok (if ps = [] then SuccessNoProposals else SuccessWithProposals ps)
       | Err z \<Rightarrow> Err z | Panic \<Rightarrow> Panic)"
    using assms(5)
    by (simp add: verify_def bind_def gets_def modify_def v_env_def zoom_def on_world_def join_thread_def
        return_def split: prod.splits outcome.splits)
  with first show ?thesis by (intro exI [of _ "v\<lparr>handle := Some Joined\<rparr>"]) simp
qed

section \<open>Evaluation\<close>

definition demo_chain_services :: "(unit, nat) services" where
  "demo_chain_services = demo_services\<lparr>
     l2_provider := demo_provider\<lparr>get_block := (\<lambda>tag full. return (Some (case tag of
       Number n \<Rightarrow> (demo_block n)\<lparr>rb_timestamp := 1606825200 + n, rb_transactions := Some [unat n, 3]\<rparr> | _ \<Rightarrow> demo_block 10)))\<rparr>,
     l1_provider := demo_provider\<lparr>get_block := (\<lambda>tag full. return (Some (demo_block 10\<lparr>rb_timestamp := 1606825200\<rparr>)))\<rparr>\<rparr>"

lemmas chain_eval = m_defs bind_def return_def lift_def gets_def modify_def attempt_def map_err_def raise_def
  demo_chain_services_def demo_services_def demo_provider_def demo_block_def mainnet_clock_def
  demo_manager_def demo_env_def fresh_env_def eval_clock builder_eval range_incl_def
  get_l1_anchor_block_and_timestamp_offset_for_l2_block_def get_l2_block_by_number_def
  get_block_by_number_def get_transaction_by_hash_def decode_anchor_id_from_tx_data_def
  get_block_timestamp_by_number_def slots_since_l1_block_def seconds_since_def
  get_l2_block_hash_def get_block_hash_def get_block_header_def fi_world_def is_offsets_valid_def
  decode_def EXTRA_DATA_LEN_def MAX_BASEFEE_PCTG_def from_be_bytes_def
  verify_submitted_blocks_def handle_unprocessed_blocks_def recover_next_def is_cancelled_def
  reset_builder_def sync_queue_index_with_head_def get_forced_inclusion_head_def
  recover_from_l2_block_def recover_parent_info_def validate_block_timestamp_def
  validate_block_proposal_id_def replay_block_def get_anchor_tx_data_def
  anchor_from_precomputed_data_def is_forced_inclusion_def get_forced_inclusion_form_l1origin_def
  recover_from_def recover_open_def raise_anchor_def is_same_proposal_id_def
  add_l2_block_and_get_current_proposal_def pre_built_new_def m_clone_without_proposals_def
  clone_without_proposals_def try_finalize_current_proposal_def take_proposals_to_send_def
  queue_take_all_def queue_push_def

theorem verifier_recovers_chain_witness:
  "\<exists>ps s. verify_submitted_blocks demo_chain_services 6 6 5 (m_clone_without_proposals 0 demo_manager, demo_env) =
      (Ok ps, s) \<and>
    concat (map p_l2_blocks ps) = [recovered_block demo_chain_services
       ((demo_block 6)\<lparr>rb_timestamp := 1606825206, rb_transactions := Some [6, 3]\<rparr>)]"
proof -
  let ?blk = "\<lambda>n. (demo_block n)\<lparr>rb_timestamp := 1606825200 + n, rb_transactions := Some [unat n, 3]\<rparr>"
  obtain ps s where run: "verify_submitted_blocks demo_chain_services 6 6 5
      (m_clone_without_proposals 0 demo_manager, demo_env) = (Ok ps, s)"
    by (simp add: chain_eval del: add_Ok_iff sub_Ok_iff mul_Ok_iff add_Panic_iff sub_Panic_iff
        rem_chk_Ok_iff div_chk_Ok_iff checked_sub_Some_iff checked_sub_None_iff unat_saturating_sub)
  have hs: "map of_nat [Suc (unat (5 :: u64))..<Suc (unat (6 :: u64))] = [6 :: u64]" by simp
  have "concat (map p_l2_blocks ps) = [recovered_block demo_chain_services (?blk 6)]"
    using verifier_recovers_chain [where blk = ?blk and forced = "\<lambda>_. False", OF _ _ run]
    unfolding hs by (simp add: demo_chain_services_def demo_services_def return_def)
  with run show ?thesis by simp
qed

end
