(* ===== verification/Operators_Cache.thy ===== *)
theory Operators_Cache
  imports Services
begin

text \<open>
  \<^verbatim>\<open>src/pacaya/src/l1/operators_cache/mod.rs\<close>: the operators of the current and of the next epoch, read
  from the whitelist contract once per L1 slot. The cache is the field \<open>operators_cache\<close> of the
  shared environment. A poisoned lock needs a panic while the lock is held; no code does that,
  so reads and writes of the cache always succeed here.
\<close>

section \<open>The cache\<close>

datatype operators_cache_error =
    LatestBlockFetchFailed
  | LatestBlockNotFound
  | RpcBehindCurrentSlot u64
  | CurrentOperatorFetchFailed
  | NextOperatorFetchFailed

text \<open>The inner call has an error type of its own, so it returns a sum next to the panic.\<close>

definition get_operators_internal ::
  "('w, 'tx) services \<Rightarrow> u64 \<Rightarrow> ('w, operators_cache_error + operators) action" where
  "get_operators_internal S current_slot_timestamp =
     attempt (get_block (l1_provider S) Latest False)
       (\<lambda>blk. case blk of
          None \<Rightarrow> return (Inl LatestBlockNotFound)
        | Some block \<Rightarrow>
            if rb_timestamp block < current_slot_timestamp
            then return (Inl (RpcBehindCurrentSlot (rb_timestamp block)))
            else
              attempt (whitelist_current_operator S (rb_hash block))
                (\<lambda>current_op.
                 attempt (whitelist_next_operator S (rb_hash block))
                   (\<lambda>next_op. return (Inr \<lparr>ops_current = current_op, ops_next = next_op\<rparr>))
                   (\<lambda>_. return (Inl NextOperatorFetchFailed)))
                (\<lambda>_. return (Inl CurrentOperatorFetchFailed)))
       (\<lambda>_. return (Inl LatestBlockFetchFailed))"

definition read_cache_or_error :: "('w env, operators_cache_state) action" where
  "read_cache_or_error =
     bind (gets operators_cache) (\<lambda>c. lift (ok_or c ''OperatorsCache: cache is empty''))"

definition update_cache :: "operators_cache_state \<Rightarrow> ('w env, unit) action" where
  "update_cache st = modify (\<lambda>e. e\<lparr>operators_cache := Some st\<rparr>)"

definition get_operators_for_current_and_next_epoch ::
  "('w, 'tx) services \<Rightarrow> u64 \<Rightarrow> ('w env, operators_cache_state) action" where
  "get_operators_for_current_and_next_epoch S current_slot_timestamp =
     bind (gets operators_cache) (\<lambda>cached.
     let fetch =
       bind (on_world (get_operators_internal S current_slot_timestamp)) (\<lambda>res.
       case res of
         Inr ops \<Rightarrow>
           let st = \<lparr>oc_timestamp = current_slot_timestamp, oc_operators = ops\<rparr> in
           bind (update_cache st) (\<lambda>_. return st)
       | Inl _ \<Rightarrow> read_cache_or_error)
     in case cached of
          Some st \<Rightarrow> if oc_timestamp st = current_slot_timestamp then return st else fetch
        | None \<Rightarrow> fetch)"

section \<open>What the answers are worth\<close>

lemma get_operators_internal_Inr:
  assumes "get_operators_internal S ts w = (Ok (Inr ops), w')"
  shows "\<exists>block w1 w2. get_block (l1_provider S) Latest False w = (Ok (Some block), w1) \<and>
    ts \<le> rb_timestamp block \<and>
    whitelist_current_operator S (rb_hash block) w1 = (Ok (ops_current ops), w2) \<and>
    whitelist_next_operator S (rb_hash block) w2 = (Ok (ops_next ops), w')"
  using assms
  by (auto simp: get_operators_internal_def attempt_def return_def not_less
      split: prod.splits outcome.splits option.splits if_splits)

lemma get_operators_internal_not_Err: "fst (get_operators_internal S ts w) \<noteq> Err y"
  by (auto simp: get_operators_internal_def attempt_def return_def
      split: prod.splits outcome.splits option.splits)

lemma get_operators_miss:
  fixes e :: "'w env"
  assumes "\<nexists>st. operators_cache e = Some st \<and> oc_timestamp st = ts"
    and "get_operators_internal S ts (world e) = (res, w')"
  shows "get_operators_for_current_and_next_epoch S ts e =
    (case res of
       Ok (Inr ops) \<Rightarrow> (Ok \<lparr>oc_timestamp = ts, oc_operators = ops\<rparr>,
         e\<lparr>world := w', operators_cache := Some \<lparr>oc_timestamp = ts, oc_operators = ops\<rparr>\<rparr>)
     | Ok (Inl _) \<Rightarrow> (ok_or (operators_cache e) ''OperatorsCache: cache is empty'', e\<lparr>world := w'\<rparr>)
     | Err x \<Rightarrow> (Err x, e\<lparr>world := w'\<rparr>)
     | Panic \<Rightarrow> (Panic, e\<lparr>world := w'\<rparr>))"
proof -
  have fetch: "on_world (get_operators_internal S ts) e = (res, e\<lparr>world := w'\<rparr>)"
    by (simp add: on_world_def zoom_def assms(2))
  have "(case operators_cache e of Some st \<Rightarrow> if oc_timestamp st = ts then return st else m | None \<Rightarrow> m) = m"
    for m :: "('w env, operators_cache_state) action"
    using assms(1) by (auto split: option.splits)
  then show ?thesis
    by (simp add: get_operators_for_current_and_next_epoch_def Let_def bind_def fetch gets_def
        read_cache_or_error_def update_cache_def modify_def return_def lift_def
        split: outcome.splits sum.splits)
qed

lemma get_operators_cases:
  assumes "get_operators_for_current_and_next_epoch S ts e = (r, e')" "r \<noteq> Panic"
  obtains (hit) st where "operators_cache e = Some st" "oc_timestamp st = ts" "r = Ok st" "e' = e"
  | (fetched) ops w' where "get_operators_internal S ts (world e) = (Ok (Inr ops), w')"
      "r = Ok \<lparr>oc_timestamp = ts, oc_operators = ops\<rparr>"
      "e' = e\<lparr>world := w', operators_cache := Some \<lparr>oc_timestamp = ts, oc_operators = ops\<rparr>\<rparr>"
  | (stale) w' st where "operators_cache e = Some st" "oc_timestamp st \<noteq> ts" "r = Ok st"
      "e' = e\<lparr>world := w'\<rparr>" "\<nexists>ops w. get_operators_internal S ts (world e) = (Ok (Inr ops), w)"
  | (failed) w' x where "operators_cache e = None" "r = Err x" "e' = e\<lparr>world := w'\<rparr>"
proof (cases "\<exists>st. operators_cache e = Some st \<and> oc_timestamp st = ts")
  case True
  then obtain st where "operators_cache e = Some st" "oc_timestamp st = ts" by blast
  with assms(1) show thesis
    by (intro hit) (auto simp: get_operators_for_current_and_next_epoch_def return_def)
next
  case False
  obtain res w' where run: "get_operators_internal S ts (world e) = (res, w')" by fastforce
  from get_operators_miss [OF False run] assms
  have eq: "(r, e') = (case res of
       Ok (Inr ops) \<Rightarrow> (Ok \<lparr>oc_timestamp = ts, oc_operators = ops\<rparr>,
         e\<lparr>world := w', operators_cache := Some \<lparr>oc_timestamp = ts, oc_operators = ops\<rparr>\<rparr>)
     | Ok (Inl _) \<Rightarrow> (ok_or (operators_cache e) ''OperatorsCache: cache is empty'', e\<lparr>world := w'\<rparr>)
     | Err x \<Rightarrow> (Err x, e\<lparr>world := w'\<rparr>)
     | Panic \<Rightarrow> (Panic, e\<lparr>world := w'\<rparr>))" by simp
  show thesis
  proof (cases res)
    case (Ok v)
    show thesis
    proof (cases v)
      case (Inr ops)
      with Ok eq run fetched show thesis by simp
    next
      case (Inl y)
      with Ok eq False run stale failed show thesis by (cases "operators_cache e") auto
    qed
  next
    case (Err y)
    with run get_operators_internal_not_Err [of S ts "world e" y] show thesis by simp
  next
    case Panic
    with eq assms(2) show thesis by simp
  qed
qed

text \<open>
  C37: The operators cache answers with operators the chain really had. Suppose every successful
  read of the whitelist for slot timestamp \<open>ts\<close> is true to \<open>P ts\<close>, and the cache holds an entry
  true to \<open>P\<close> that is not newer than the request. Then an answer is true to \<open>P\<close> at the answer's own
  timestamp, which is not newer than the request; the answer is what the cache then holds; and
  an answer for the requested slot is repeated without any call to a service. A failure means
  that nothing was cached.
\<close>
theorem operators_cache_sound:
  assumes "\<And>ts w ops w'. get_operators_internal S ts w = (Ok (Inr ops), w') \<Longrightarrow> P ts ops"
    and "\<And>st. operators_cache e = Some st \<Longrightarrow> P (oc_timestamp st) (oc_operators st) \<and> oc_timestamp st \<le> ts"
    and "get_operators_for_current_and_next_epoch S ts e = (r, e')" "r \<noteq> Panic"
  shows "case r of
      Ok st \<Rightarrow> P (oc_timestamp st) (oc_operators st) \<and> oc_timestamp st \<le> ts \<and>
        operators_cache e' = Some st \<and>
        (oc_timestamp st = ts \<longrightarrow> get_operators_for_current_and_next_epoch S ts e' = (Ok st, e'))
    | _ \<Rightarrow> operators_cache e = None \<and> operators_cache e' = None"
  using assms(3,4)
proof (cases rule: get_operators_cases)
  case (hit st)
  with assms(2) show ?thesis
    by (simp add: get_operators_for_current_and_next_epoch_def return_def)
next
  case (fetched ops w')
  with assms(1) show ?thesis
    by (simp add: get_operators_for_current_and_next_epoch_def return_def)
next
  case (stale w' st)
  with assms(2) show ?thesis by simp
next
  case (failed w' x)
  then show ?thesis by simp
qed

lemmas cache_eval = get_operators_for_current_and_next_epoch_def get_operators_internal_def
  read_cache_or_error_def update_cache_def on_world_def zoom_def bind_def return_def gets_def
  modify_def lift_def attempt_def Let_def demo_services_def demo_provider_def demo_block_def

theorem operators_cache_sound_witness:
  "\<exists>st e'. get_operators_for_current_and_next_epoch demo_services 1000 (fresh_env ()) = (Ok st, e') \<and>
     ops_current (oc_operators st) = 7 \<and>
     get_operators_for_current_and_next_epoch demo_services 1000 e' = (Ok st, e')"
proof -
  let ?P = "\<lambda>(ts :: u64) ops. ops_current ops = 7"
  have P: "?P ts ops" if "get_operators_internal demo_services ts w = (Ok (Inr ops), w')" for ts w ops w'
    using get_operators_internal_Inr [OF that] by (auto simp: demo_services_def return_def)
  obtain st e' where run: "get_operators_for_current_and_next_epoch demo_services 1000 (fresh_env ()) = (Ok st, e')"
    and ts: "oc_timestamp st = 1000"
    by (simp add: cache_eval)
  from operators_cache_sound [where P = ?P, OF P _ run] run ts show ?thesis by simp
qed

end
