(* ===== verification/Fork_Info.thy ===== *)
theory Fork_Info
  imports Slot_Clock
begin

text \<open>
  \<^verbatim>\<open>src/common/src/fork_info/\<close>: which protocol fork is active at a time, and the
  transition period before the next fork in which the node does not preconfirm.
\<close>

datatype fork = Shasta | Permissionless | Realtime

text \<open>The order of \<open>Fork::iter()\<close>, derived by \<open>EnumIter\<close>.\<close>

definition fork_iter :: "fork list" where
  "fork_iter = [Shasta, Permissionless, Realtime]"

definition fork_next :: "fork \<Rightarrow> fork option" where
  "fork_next f = (case dropWhile (\<lambda>g. g \<noteq> f) fork_iter of _ # g # _ \<Rightarrow> Some g | _ \<Rightarrow> None)"

record fork_info_config =
  fork_switch_timestamps :: "duration list"
  fork_switch_transition_period :: duration

record fork_info =
  active_fork :: fork
  fork_config :: fork_info_config

definition fork_info_config_from :: "u64 \<Rightarrow> u64 \<Rightarrow> u64 \<Rightarrow> u64 \<Rightarrow> fork_info_config" where
  "fork_info_config_from shasta_timestamp_sec permissionless_timestamp_sec realtime_timestamp_sec
     transition_period_sec =
     \<lparr>fork_switch_timestamps =
        map (\<lambda>f. case f of
               Shasta \<Rightarrow> from_secs shasta_timestamp_sec
             | Permissionless \<Rightarrow> from_secs permissionless_timestamp_sec
             | Realtime \<Rightarrow> from_secs realtime_timestamp_sec) fork_iter,
      fork_switch_transition_period = from_secs transition_period_sec\<rparr>"

text \<open>\<open>Vec::get\<close>.\<close>

definition vec_get :: "'a list \<Rightarrow> nat \<Rightarrow> 'a option" where
  "vec_get xs i = (if i < length xs then Some (xs ! i) else None)"

fun scan_forks :: "(nat \<times> fork) list \<Rightarrow> duration list \<Rightarrow> duration \<Rightarrow> fork outcome" where
  "scan_forks [] ts now = Err (Anyhow ''No fork found for current timestamp'')"
| "scan_forks ((i, f) # rest) ts now =
     (case vec_get ts i of
        Some fork_timestamp \<Rightarrow> if fork_timestamp \<le> now then Ok f else scan_forks rest ts now
      | None \<Rightarrow> scan_forks rest ts now)"

definition choose_current_fork :: "fork_info_config \<Rightarrow> u64 \<Rightarrow> fork outcome" where
  "choose_current_fork config current_timestamp_sec =
     scan_forks (rev (enumerate 0 fork_iter)) (fork_switch_timestamps config)
       (from_secs current_timestamp_sec)"

definition fork_info_from_config :: "fork_info_config \<Rightarrow> system_time \<Rightarrow> fork_info outcome" where
  "fork_info_from_config config t =
     and_then (duration_since_epoch t) (\<lambda>now.
     and_then (choose_current_fork config (as_secs now)) (\<lambda>f.
       Ok \<lparr>active_fork = f, fork_config = config\<rparr>))"

definition is_next_fork_active :: "fork_info \<Rightarrow> u64 \<Rightarrow> bool outcome" where
  "is_next_fork_active info timestamp_sec =
     and_then (choose_current_fork (fork_config info) timestamp_sec)
       (\<lambda>f. Ok (active_fork info \<noteq> f))"

text \<open>\<open>Fork::iter().position(|f| f == self.fork)\<close>.\<close>

fun fork_index :: "fork \<Rightarrow> nat" where
  "fork_index Shasta = 0"
| "fork_index Permissionless = 1"
| "fork_index Realtime = 2"

definition is_fork_switch_transition_period :: "fork_info \<Rightarrow> duration \<Rightarrow> bool outcome" where
  "is_fork_switch_transition_period info current_time =
     (case vec_get (fork_switch_timestamps (fork_config info)) (fork_index (active_fork info) + 1) of
        Some next_fork_timestamp \<Rightarrow>
          if current_time \<le> next_fork_timestamp then
            and_then (dur_sub next_fork_timestamp (fork_switch_transition_period (fork_config info)))
              (\<lambda>begin. Ok (begin \<le> current_time))
          else Ok False
      | None \<Rightarrow> Ok False)"

lemma fork_iter_index: "i < 3 \<Longrightarrow> fork_index (fork_iter ! i) = i"
  by (auto simp: fork_iter_def less_Suc_eq numeral_3_eq_3)

lemma fork_next_index:
  "fork_next f = Some g \<Longrightarrow> fork_index g = Suc (fork_index f)"
  by (cases f) (auto simp: fork_next_def fork_iter_def)

text \<open>
  The chosen fork is exactly the last fork, in the order of the enum, whose switch time has
  been reached: its own time has passed and no later fork's has; an error means no fork's has.
\<close>
lemma choose_current_fork_latest:
  assumes "length (fork_switch_timestamps cfg) = 3"
  shows "(choose_current_fork cfg s = Ok f \<longleftrightarrow>
            fork_switch_timestamps cfg ! fork_index f \<le> from_secs s \<and>
            (\<forall>g. fork_index f < fork_index g \<longrightarrow>
               from_secs s < fork_switch_timestamps cfg ! fork_index g)) \<and>
         ((\<exists>e. choose_current_fork cfg s = Err e) \<longleftrightarrow>
            (\<forall>g. from_secs s < fork_switch_timestamps cfg ! fork_index g))"
proof -
  obtain a b c where ts: "fork_switch_timestamps cfg = [a, b, c]"
    using assms by (auto simp: length_Suc_conv numeral_3_eq_3)
  have all: "(\<forall>g. P g) \<longleftrightarrow> P Shasta \<and> P Permissionless \<and> P Realtime" for P
    by (metis fork.exhaust)
  show ?thesis
    by (cases f) (auto simp: all choose_current_fork_def fork_iter_def ts vec_get_def)
qed

text \<open>
  The transition period is the closed interval that ends at the next fork's switch time, and
  without a next fork there is none.
\<close>
lemma transition_period_iff:
  assumes "fork_switch_transition_period (fork_config info) \<le> next"
    and "vec_get (fork_switch_timestamps (fork_config info)) (fork_index (active_fork info) + 1)
         = Some next"
  shows "is_fork_switch_transition_period info now =
         Ok (next - fork_switch_transition_period (fork_config info) \<le> now \<and> now \<le> next)"
  using assms by (auto simp: is_fork_switch_transition_period_def dur_sub_def)

lemma no_transition_in_last_fork:
  assumes "length (fork_switch_timestamps (fork_config info)) = 3" "active_fork info = Realtime"
  shows "is_fork_switch_transition_period info now = Ok False"
  using assms by (simp add: is_fork_switch_transition_period_def vec_get_def)

end
