(* ===== verification/Operator_Status.thy ===== *)
theory Operator_Status
  imports Operators_Cache Fork_Info Guards
begin

text \<open>
  \<^verbatim>\<open>src/pacaya/src/node/operator/mod.rs\<close> and \<^verbatim>\<open>status.rs\<close>: the role of this node in the current L2 slot.
  The operator of an epoch preconfirms and submits during the epoch; in the last
  \<open>handover_window_slots\<close> L1 slots of the epoch it still submits, while the operator of the next
  epoch preconfirms.

  A method is an action on the operator paired with the shared environment. Every call of a
  method of the slot clock reads the system clock anew, as in the code, so \<open>get_status\<close> may see
  several times. The execution layer, a type parameter, appears as the source of the operators:
  \<open>get_status_of\<close> takes any source, \<open>get_status\<close> is its instance for the Shasta execution layer.
\<close>

section \<open>State\<close>

record status =
  preconfer :: bool
  submitter :: bool
  preconfirmation_started :: bool
  end_of_sequencing_now :: bool
  driver_synced :: bool

record operator =
  handover_window_slots :: u64
  handover_start_buffer_ms :: u64
  next_operator :: bool
  continuing_role :: bool
  simulate_not_submitting_at_the_end_of_epoch :: bool
  was_synced_preconfer :: bool
  cancel_counter :: u64
  op_fork_info :: fork_info
  current_operator_address :: address
  last_ejection_timestamp :: "u64 option"
  ejection_grace_period_sec :: u64

type_synonym 'w ostate = "operator \<times> 'w env"

text \<open>\<open>get_operators_for_current_and_next_epoch\<close> of the trait \<open>PreconfOperator\<close>, which the operator is generic in.\<close>

type_synonym 'w operator_source = "u64 \<Rightarrow> ('w env, operators_cache_state) action"

definition operator_new :: "u64 \<Rightarrow> u64 \<Rightarrow> bool \<Rightarrow> fork_info \<Rightarrow> u64 \<Rightarrow> operator" where
  "operator_new window buffer simulate info grace =
     \<lparr>handover_window_slots = window, handover_start_buffer_ms = buffer, next_operator = False,
      continuing_role = False, simulate_not_submitting_at_the_end_of_epoch = simulate,
      was_synced_preconfer = False, cancel_counter = 0, op_fork_info = info,
      current_operator_address = 0, last_ejection_timestamp = None, ejection_grace_period_sec = grace\<rparr>"

definition o_env :: "('w env, 'a) action \<Rightarrow> ('w ostate, 'a) action" where
  "o_env = zoom snd (\<lambda>e (p, _). (p, e))"

definition o_get :: "(operator \<Rightarrow> 'a) \<Rightarrow> ('w ostate, 'a) action" where
  "o_get f = gets (\<lambda>(p, _). f p)"

definition o_set :: "(operator \<Rightarrow> operator) \<Rightarrow> ('w ostate, unit) action" where
  "o_set f = modify (\<lambda>(p, e). (f p, e))"

definition read_clock ::
  "('w, 'tx) services \<Rightarrow> (slot_clock \<Rightarrow> system_time \<Rightarrow> 'a outcome) \<Rightarrow> ('w ostate, 'a) action" where
  "read_clock S f = bind (o_env (on_world (system_now S))) (\<lambda>t. lift (f (slot_clock_of S) t))"

definition read_clock2 ::
  "('w, 'tx) services \<Rightarrow> (slot_clock \<Rightarrow> system_time \<Rightarrow> system_time \<Rightarrow> 'a outcome) \<Rightarrow> ('w ostate, 'a) action" where
  "read_clock2 S f =
     bind (o_env (on_world (system_now S))) (\<lambda>t1.
     bind (o_env (on_world (system_now S))) (\<lambda>t2. lift (f (slot_clock_of S) t1 t2)))"

section \<open>Who is the operator\<close>

text \<open>\<open>get_l2_height_from_taiko_inbox\<close> of the Shasta execution layer.\<close>

definition get_l2_height_from_taiko_inbox :: "('w, u64) action" where
  "get_l2_height_from_taiko_inbox = return 0"

definition is_within_ejection_grace :: "('w, 'tx) services \<Rightarrow> ('w ostate, bool) action" where
  "is_within_ejection_grace S =
     bind (o_get last_ejection_timestamp) (\<lambda>last_ejection.
     case last_ejection of
       Some last_ts \<Rightarrow>
         bind (read_clock S get_l2_slot_begin_timestamp) (\<lambda>current_timestamp.
         bind (o_get ejection_grace_period_sec) (\<lambda>grace.
         bind (lift (add last_ts grace)) (\<lambda>grace_end.
         if current_timestamp \<le> grace_end
         then bind (o_set (\<lambda>p. p\<lparr>next_operator := False, continuing_role := False\<rparr>)) (\<lambda>_. return True)
         else bind (o_set (\<lambda>p. p\<lparr>last_ejection_timestamp := None\<rparr>)) (\<lambda>_. return False))))
     | None \<Rightarrow> return False)"

definition handle_operator_change :: "address \<Rightarrow> u64 \<Rightarrow> address \<Rightarrow> operator \<Rightarrow> operator" where
  "handle_operator_change current_op current_timestamp my_address p =
     (if current_op = current_operator_address p then p
      else
        let was_ejected = (\<not> was_synced_preconfer p \<and> current_op = my_address \<and> current_operator_address p \<noteq> 0);
            p = (if was_ejected then p\<lparr>last_ejection_timestamp := Some current_timestamp\<rparr> else p)
        in p\<lparr>current_operator_address := current_op\<rparr>)"

definition is_current_operator_of ::
  "'w operator_source \<Rightarrow> ('w, 'tx) services \<Rightarrow> u64 \<Rightarrow> ('w ostate, bool) action" where
  "is_current_operator_of operators S epoch =
     bind (read_clock S get_current_slot_begin_timestamp) (\<lambda>current_slot_timestamp.
     bind (lift (get_epoch_begin_timestamp (slot_clock_of S) epoch)) (\<lambda>epoch_timestamp.
     bind (o_env (operators current_slot_timestamp)) (\<lambda>op_cache.
     if oc_timestamp op_cache < epoch_timestamp then o_get next_operator
     else
       bind (o_set (handle_operator_change (ops_current (oc_operators op_cache)) current_slot_timestamp
               (preconfer_address S))) (\<lambda>_.
       bind (is_within_ejection_grace S) (\<lambda>grace.
       if grace then return False
       else
         let is_current = (ops_current (oc_operators op_cache) = preconfer_address S);
             is_next = (ops_next (oc_operators op_cache) = preconfer_address S) in
         bind (o_set (\<lambda>p. p\<lparr>next_operator := is_next, continuing_role := is_current \<and> is_next\<rparr>)) (\<lambda>_.
         return is_current))))))"

definition is_current_operator :: "('w, 'tx) services \<Rightarrow> u64 \<Rightarrow> ('w ostate, bool) action" where
  "is_current_operator S = is_current_operator_of (get_operators_for_current_and_next_epoch S) S"

definition operator_reset :: "operator \<Rightarrow> operator" where
  "operator_reset p =
     p\<lparr>next_operator := False, continuing_role := False, was_synced_preconfer := False, cancel_counter := 0\<rparr>"

section \<open>Windows\<close>

definition is_l2_slot_before_handover_window :: "('w, 'tx) services \<Rightarrow> u64 \<Rightarrow> ('w ostate, bool) action" where
  "is_l2_slot_before_handover_window S l1_slot =
     bind (o_get handover_window_slots) (\<lambda>window.
     bind (lift (and_then (sub (slots_per_epoch (slot_clock_of S)) window) (\<lambda>n. sub n 1))) (\<lambda>end_l1_slot.
     if l1_slot = end_l1_slot
     then bind (read_clock2 S get_current_l2_slot_within_l1_slot) (\<lambda>l2_slot.
          bind (lift (add l2_slot 1)) (\<lambda>n.
          return (n = get_number_of_l2_slots_per_l1 (slot_clock_of S))))
     else return False))"

definition is_end_of_sequencing ::
  "('w, 'tx) services \<Rightarrow> bool \<Rightarrow> bool \<Rightarrow> u64 \<Rightarrow> ('w ostate, bool) action" where
  "is_end_of_sequencing S is_preconfer is_submitter l1_slot =
     bind (is_l2_slot_before_handover_window S l1_slot) (\<lambda>slot_before_handover_window.
     o_get (\<lambda>p. \<not> continuing_role p \<and> is_preconfer \<and> is_submitter \<and> slot_before_handover_window))"

definition is_handover_window :: "('w, 'tx) services \<Rightarrow> u64 \<Rightarrow> ('w ostate, bool) action" where
  "is_handover_window S slot =
     bind (o_get handover_window_slots) (\<lambda>window.
     lift (is_slot_in_last_n_slots_of_epoch (slot_clock_of S) slot window))"

definition get_ms_from_handover_window_start :: "('w, 'tx) services \<Rightarrow> u64 \<Rightarrow> ('w ostate, u64) action" where
  "get_ms_from_handover_window_start S l1_slot =
     bind (o_get handover_window_slots) (\<lambda>window.
     bind (read_clock2 S (\<lambda>c. time_from_n_last_slots_of_epoch c l1_slot window)) (\<lambda>d.
     lift (try_from (as_millis d))))"

definition end_of_sequencing_marker_received :: "taiko_status \<Rightarrow> l2_slot_info \<Rightarrow> bool" where
  "end_of_sequencing_marker_received driver info = (parent_hash info = end_of_sequencing_block_hash driver)"

definition is_handover_buffer ::
  "('w, 'tx) services \<Rightarrow> u64 \<Rightarrow> l2_slot_info \<Rightarrow> taiko_status \<Rightarrow> ('w ostate, bool) action" where
  "is_handover_buffer S l1_slot info driver =
     bind (get_ms_from_handover_window_start S l1_slot) (\<lambda>ms.
     o_get (\<lambda>p. ms \<le> handover_start_buffer_ms p \<and> \<not> end_of_sequencing_marker_received driver info))"

section \<open>Synchronisation of geth and driver\<close>

definition is_block_height_synced :: "taiko_status \<Rightarrow> l2_slot_info \<Rightarrow> bool" where
  "is_block_height_synced driver info =
     (highest_unsafe_l2_payload_block_id driver = 0 \<or>
      parent_id info = highest_unsafe_l2_payload_block_id driver)"

definition is_taiko_geth_synced_with_l1 :: "l2_slot_info \<Rightarrow> ('w ostate, bool) action" where
  "is_taiko_geth_synced_with_l1 info =
     bind (o_env (on_world get_l2_height_from_taiko_inbox)) (\<lambda>taiko_inbox_height.
     return (taiko_inbox_height \<le> parent_id info))"

definition cancel_if_not_synced_for_sufficient_long_time :: "('w, 'tx) services \<Rightarrow> ('w ostate, unit) action" where
  "cancel_if_not_synced_for_sufficient_long_time S =
     bind (lift (get_l2_slots_per_epoch (slot_clock_of S))) (\<lambda>n.
     bind (o_get cancel_counter) (\<lambda>k.
     if n div 2 < k then o_env cancel_on_critical_error else return ()))"

text \<open>What \<open>is_driver_synced\<close> does with the answer.\<close>

definition note_driver_sync :: "('w, 'tx) services \<Rightarrow> bool \<Rightarrow> ('w ostate, bool) action" where
  "note_driver_sync S synced =
     (if synced
      then bind (o_set (\<lambda>p. p\<lparr>cancel_counter := 0\<rparr>)) (\<lambda>_. return True)
      else
        bind (o_get cancel_counter) (\<lambda>k.
        bind (lift (add k 1)) (\<lambda>n.
        bind (o_set (\<lambda>p. p\<lparr>cancel_counter := n\<rparr>)) (\<lambda>_.
        bind (cancel_if_not_synced_for_sufficient_long_time S) (\<lambda>_.
        return False)))))"

definition is_driver_synced ::
  "('w, 'tx) services \<Rightarrow> l2_slot_info \<Rightarrow> taiko_status \<Rightarrow> ('w ostate, bool) action" where
  "is_driver_synced S info driver =
     bind (is_taiko_geth_synced_with_l1 info) (\<lambda>taiko_geth_synced_with_l1.
     note_driver_sync S (taiko_geth_synced_with_l1 \<and> is_block_height_synced driver info))"

section \<open>Roles\<close>

definition is_preconfer ::
  "('w, 'tx) services \<Rightarrow> bool \<Rightarrow> bool \<Rightarrow> u64 \<Rightarrow> l2_slot_info \<Rightarrow> taiko_status \<Rightarrow> ('w ostate, bool) action" where
  "is_preconfer S current_operator handover_window l1_slot info driver =
     bind (o_get op_fork_info) (\<lambda>fork.
     bind (lift (is_fork_switch_transition_period fork (from_secs (slot_timestamp info)))) (\<lambda>transition.
     if transition then return False
     else if handover_window
     then
       bind (o_get next_operator) (\<lambda>next_op.
       bind (o_get was_synced_preconfer) (\<lambda>was_synced.
       if \<not> next_op then return False
       else if was_synced then return True
       else bind (is_handover_buffer S l1_slot info driver) (\<lambda>buffer. return (\<not> buffer))))
     else return current_operator))"

definition is_submitter :: "bool \<Rightarrow> bool \<Rightarrow> operator \<Rightarrow> bool" where
  "is_submitter current_operator handover_window p =
     (if handover_window \<and> simulate_not_submitting_at_the_end_of_epoch p then False else current_operator)"

definition is_preconfirmation_start_l2_slot :: "bool \<Rightarrow> bool \<Rightarrow> operator \<Rightarrow> bool" where
  "is_preconfirmation_start_l2_slot is_preconf synced p = (\<not> was_synced_preconfer p \<and> is_preconf \<and> synced)"

definition update_was_synced :: "bool \<Rightarrow> bool \<Rightarrow> operator \<Rightarrow> operator" where
  "update_was_synced started preconf p =
     (let p = (if started then p\<lparr>was_synced_preconfer := True\<rparr> else p)
      in if \<not> preconf then p\<lparr>was_synced_preconfer := False\<rparr> else p)"

definition get_status_of ::
  "'w operator_source \<Rightarrow> ('w, 'tx) services \<Rightarrow> l2_slot_info \<Rightarrow> ('w ostate, status) action" where
  "get_status_of operators S info =
     bind (read_clock S get_current_slot_of_epoch) (\<lambda>l1_slot.
     bind (read_clock S get_current_epoch) (\<lambda>epoch.
     bind (is_current_operator_of operators S epoch) (\<lambda>current_operator.
     bind (is_handover_window S l1_slot) (\<lambda>handover_window.
     bind (o_env (on_world (driver_status S))) (\<lambda>driver.
     bind (is_driver_synced S info driver) (\<lambda>synced.
     bind (is_preconfer S current_operator handover_window l1_slot info driver) (\<lambda>preconf.
     bind (o_get (is_preconfirmation_start_l2_slot preconf synced)) (\<lambda>started.
     bind (o_set (update_was_synced started preconf)) (\<lambda>_.
     bind (o_get (is_submitter current_operator handover_window)) (\<lambda>submit.
     bind (is_end_of_sequencing S preconf submit l1_slot) (\<lambda>eos.
     return \<lparr>preconfer = preconf, submitter = submit, preconfirmation_started = started,
             end_of_sequencing_now = eos, driver_synced = synced\<rparr>)))))))))))"

definition get_status :: "('w, 'tx) services \<Rightarrow> l2_slot_info \<Rightarrow> ('w ostate, status) action" where
  "get_status S = get_status_of (get_operators_for_current_and_next_epoch S) S"

section \<open>When preconfirmation starts\<close>

lemma bind_o_get [simp]: "bind (o_get f) k (p, e) = k (f p) (p, e)"
  by (simp add: o_get_def)

lemma bind_o_set [simp]: "bind (o_set f) k (p, e) = k () (f p, e)"
  by (simp add: o_set_def)

abbreviation on_op :: "(operator \<Rightarrow> bool) \<Rightarrow> 'w ostate \<Rightarrow> bool" where
  "on_op Q \<equiv> (\<lambda>(p, _). Q p)"

lemma keeps_o_env [keeps_rules]: "keeps (on_op Q) (o_env m)"
  by (auto simp: o_env_def triple_def zoom_def split: prod.splits)

lemma keeps_o_get [keeps_rules]: "keeps (on_op Q) (o_get f)"
  by (simp add: o_get_def keeps_gets)

lemma keeps_o_set: "(\<And>p. Q p \<Longrightarrow> Q (f p)) \<Longrightarrow> keeps (on_op Q) (o_set f)"
  unfolding o_set_def by (rule keeps_modify) auto

lemma keeps_read_clock [keeps_rules]: "keeps (on_op Q) (read_clock S f)" "keeps (on_op Q) (read_clock2 S g)"
  unfolding read_clock_def read_clock2_def by (intro keeps_rules)+

lemma was_synced_handle_operator_change [simp]:
  "was_synced_preconfer (handle_operator_change op ts a p) = was_synced_preconfer p"
  by (simp add: handle_operator_change_def Let_def)

lemma keeps_was_synced:
  "keeps (on_op (\<lambda>p. was_synced_preconfer p = x)) (is_current_operator S epoch)"
  "keeps (on_op (\<lambda>p. was_synced_preconfer p = x)) (is_driver_synced S info driver)"
  "keeps (on_op (\<lambda>p. was_synced_preconfer p = x)) (is_preconfer S cur win slot info driver)"
  "keeps (on_op (\<lambda>p. was_synced_preconfer p = x)) (is_handover_window S slot)"
  unfolding is_current_operator_def is_current_operator_of_def is_within_ejection_grace_def is_driver_synced_def note_driver_sync_def
    is_taiko_geth_synced_with_l1_def cancel_if_not_synced_for_sufficient_long_time_def is_preconfer_def
    is_handover_buffer_def get_ms_from_handover_window_start_def is_handover_window_def Let_def
  by (intro keeps_rules keeps_o_set; simp)+

lemma keeps_end_of_sequencing: "keeps (on_op Q) (is_end_of_sequencing S a b slot)"
  unfolding is_end_of_sequencing_def is_l2_slot_before_handover_window_def by (intro keeps_rules)

lemma get_status_parts:
  assumes "get_status S info (p, e) = (Ok st, (p', e'))"
  obtains slot s1 epoch s2 cur s3 win s4 driver s5 s6 p7 e7 where
    "read_clock S get_current_slot_of_epoch (p, e) = (Ok slot, s1)"
    "read_clock S get_current_epoch s1 = (Ok epoch, s2)"
    "is_current_operator S epoch s2 = (Ok cur, s3)"
    "is_handover_window S slot s3 = (Ok win, s4)"
    "o_env (on_world (driver_status S)) s4 = (Ok driver, s5)"
    "is_driver_synced S info driver s5 = (Ok (driver_synced st), s6)"
    "is_preconfer S cur win slot info driver s6 = (Ok (preconfer st), (p7, e7))"
    "preconfirmation_started st = is_preconfirmation_start_l2_slot (preconfer st) (driver_synced st) p7"
    "submitter st = is_submitter cur win p7"
    "is_end_of_sequencing S (preconfer st) (submitter st) slot
       (update_was_synced (preconfirmation_started st) (preconfer st) p7, e7) =
       (Ok (end_of_sequencing_now st), (p', e'))"
proof -
  have sub: "is_submitter cur win (update_was_synced a b q) = is_submitter cur win q" for cur win a b q
    by (auto simp: is_submitter_def update_was_synced_def Let_def)
  show thesis
    using assms that unfolding get_status_def get_status_of_def is_current_operator_def [symmetric] bind_Ok_iff
    by (auto simp: return_def bind_Ok_iff o_get_def o_set_def gets_def modify_def sub split: prod.splits)
qed

lemma get_status_synced:
  assumes "get_status S info (p, e) = (Ok st, (p', e'))"
  shows "(preconfirmation_started st \<longleftrightarrow> preconfer st \<and> driver_synced st \<and> \<not> was_synced_preconfer p) \<and>
    (was_synced_preconfer p' \<longleftrightarrow> preconfer st \<and> (was_synced_preconfer p \<or> driver_synced st))"
  using assms
proof (rule get_status_parts)
  let ?I = "on_op (\<lambda>q. was_synced_preconfer q = was_synced_preconfer p)"
  fix slot s1 epoch s2 cur s3 win s4 driver s5 s6 p7 e7
  assume 1: "read_clock S get_current_slot_of_epoch (p, e) = (Ok slot, s1)"
    and 2: "read_clock S get_current_epoch s1 = (Ok epoch, s2)"
    and 3: "is_current_operator S epoch s2 = (Ok cur, s3)"
    and 4: "is_handover_window S slot s3 = (Ok win, s4)"
    and 5: "o_env (on_world (driver_status S)) s4 = (Ok driver, s5)"
    and 6: "is_driver_synced S info driver s5 = (Ok (driver_synced st), s6)"
    and 7: "is_preconfer S cur win slot info driver s6 = (Ok (preconfer st), (p7, e7))"
    and started: "preconfirmation_started st = is_preconfirmation_start_l2_slot (preconfer st) (driver_synced st) p7"
    and eos: "is_end_of_sequencing S (preconfer st) (submitter st) slot
       (update_was_synced (preconfirmation_started st) (preconfer st) p7, e7) =
       (Ok (end_of_sequencing_now st), (p', e'))"
  have "?I (p, e)" by simp
  from this 1 have "?I s1" by (rule tripleD [OF keeps_read_clock(1)])
  from this 2 have "?I s2" by (rule tripleD [OF keeps_read_clock(1)])
  from this 3 have "?I s3" by (rule tripleD [OF keeps_was_synced(1)])
  from this 4 have "?I s4" by (rule tripleD [OF keeps_was_synced(4)])
  from this 5 have "?I s5" by (rule tripleD [OF keeps_o_env])
  from this 6 have "?I s6" by (rule tripleD [OF keeps_was_synced(2)])
  from this 7 have "?I (p7, e7)" by (rule tripleD [OF keeps_was_synced(3)])
  moreover have "p' = update_was_synced (preconfirmation_started st) (preconfer st) p7"
    using tripleD [OF keeps_end_of_sequencing [where Q = "\<lambda>q. q = update_was_synced (preconfirmation_started st) (preconfer st) p7"] _ eos]
    by simp
  ultimately show ?thesis
    using started by (auto simp: is_preconfirmation_start_l2_slot_def update_was_synced_def)
qed

text \<open>
  A run of the operator over several slots. Between two calls the other parts of the process may
  change the environment in any way.
\<close>

inductive status_run :: "('w, 'tx) services \<Rightarrow> operator \<Rightarrow> status list \<Rightarrow> operator \<Rightarrow> bool" for S where
  none: "status_run S p [] p"
| slot: "get_status S info (p, e) = (Ok st, (p1, e1)) \<Longrightarrow> status_run S p1 sts p2 \<Longrightarrow>
    status_run S p (st # sts) p2"

fun started_right :: "bool \<Rightarrow> status list \<Rightarrow> bool" where
  "started_right x [] = True"
| "started_right x (st # sts) =
     ((preconfirmation_started st \<longleftrightarrow> preconfer st \<and> driver_synced st \<and> \<not> x) \<and>
      started_right (preconfer st \<and> (x \<or> driver_synced st)) sts)"

lemma status_run_started_right: "status_run S p sts p' \<Longrightarrow> started_right (was_synced_preconfer p) sts"
proof (induction rule: status_run.induct)
  case (slot info p e st p1 e1 sts p2)
  from get_status_synced [OF slot.hyps(1)] slot.IH show ?case by simp
qed simp

lemma started_right_after:
  "started_right True sts \<Longrightarrow> j < length sts \<Longrightarrow> preconfirmation_started (sts ! j) \<Longrightarrow>
   \<exists>k < j. \<not> preconfer (sts ! k)"
proof (induction sts arbitrary: j)
  case (Cons st sts)
  show ?case
  proof (cases j)
    case 0
    with Cons.prems show ?thesis by simp
  next
    case (Suc i)
    show ?thesis
    proof (cases "preconfer st")
      case True
      with Cons.prems Suc Cons.IH [of i] obtain k where "k < i" "\<not> preconfer (sts ! k)" by auto
      with Suc show ?thesis by (intro exI [of _ "Suc k"]) simp
    next
      case False
      with Suc show ?thesis by (intro exI [of _ 0]) simp
    qed
  qed
qed simp

lemma started_right_once:
  "started_right x sts \<Longrightarrow> i < j \<Longrightarrow> j < length sts \<Longrightarrow> preconfirmation_started (sts ! i) \<Longrightarrow>
   preconfirmation_started (sts ! j) \<Longrightarrow> \<exists>k. i < k \<and> k < j \<and> \<not> preconfer (sts ! k)"
proof (induction sts arbitrary: x i j)
  case (Cons st sts)
  obtain j' where j: "j = Suc j'" using Cons.prems(2) by (cases j) auto
  show ?case
  proof (cases i)
    case 0
    with Cons.prems j have "started_right True sts" "j' < length sts" "preconfirmation_started (sts ! j')"
      by auto
    from started_right_after [OF this] obtain k where "k < j'" "\<not> preconfer (sts ! k)" by blast
    with 0 j show ?thesis by (intro exI [of _ "Suc k"]) simp
  next
    case (Suc i')
    with Cons.prems j have "started_right (preconfer st \<and> (x \<or> driver_synced st)) sts" "i' < j'"
      "j' < length sts" "preconfirmation_started (sts ! i')" "preconfirmation_started (sts ! j')" by auto
    from Cons.IH [OF this] obtain k where "i' < k" "k < j'" "\<not> preconfer (sts ! k)" by blast
    with Suc j show ?thesis by (intro exI [of _ "Suc k"]) simp
  qed
qed simp

lemma started_right_covered:
  "started_right x sts \<Longrightarrow> j < length sts \<Longrightarrow> preconfer (sts ! j) \<Longrightarrow> driver_synced (sts ! j) \<Longrightarrow>
   (\<exists>i \<le> j. preconfirmation_started (sts ! i) \<and> (\<forall>k. i \<le> k \<and> k \<le> j \<longrightarrow> preconfer (sts ! k))) \<or>
   (x \<and> (\<forall>k \<le> j. preconfer (sts ! k)))"
proof (induction sts arbitrary: x j)
  case (Cons st sts)
  show ?case
  proof (cases j)
    case 0
    with Cons.prems show ?thesis by auto
  next
    case (Suc j')
    let ?x = "preconfer st \<and> (x \<or> driver_synced st)"
    from Cons.prems Suc have "started_right ?x sts" "j' < length sts" "preconfer (sts ! j')"
      "driver_synced (sts ! j')" by auto
    from Cons.IH [OF this] show ?thesis
    proof
      assume "\<exists>i\<le>j'. preconfirmation_started (sts ! i) \<and> (\<forall>k. i \<le> k \<and> k \<le> j' \<longrightarrow> preconfer (sts ! k))"
      then obtain i where i: "i \<le> j'" "preconfirmation_started (sts ! i)"
        "\<forall>k. i \<le> k \<and> k \<le> j' \<longrightarrow> preconfer (sts ! k)" by blast
      have "preconfer ((st # sts) ! k)" if "Suc i \<le> k" "k \<le> Suc j'" for k
        using that i(3) by (cases k) auto
      with i(1,2) Suc show ?thesis by (intro disjI1 exI [of _ "Suc i"]) auto
    next
      assume all: "?x \<and> (\<forall>k\<le>j'. preconfer (sts ! k))"
      have pre: "preconfer ((st # sts) ! k)" if "k \<le> Suc j'" for k
        using that all by (cases k) auto
      show ?thesis
      proof (cases x)
        case True
        with pre Suc show ?thesis by blast
      next
        case False
        with all Cons.prems(1) have "preconfirmation_started st" by simp
        with pre Suc show ?thesis by (intro disjI1 exI [of _ 0]) auto
      qed
    qed
  qed
qed simp

text \<open>
  C31: Preconfirmation is started once per turn. Over any run of status checks of a new operator,
  a slot in which the node preconfirms and the driver is in sync belongs to a turn that has been
  started at that slot or earlier without interruption; and between two start slots there is a
  slot in which the node is not the preconfer.
\<close>
theorem preconfirmation_starts_once:
  assumes "status_run S (operator_new window buffer simulate info grace) sts p" "j < length sts"
  shows "(preconfer (sts ! j) \<and> driver_synced (sts ! j) \<longrightarrow>
      (\<exists>i \<le> j. preconfirmation_started (sts ! i) \<and> (\<forall>k. i \<le> k \<and> k \<le> j \<longrightarrow> preconfer (sts ! k)))) \<and>
    (\<forall>i < j. preconfirmation_started (sts ! i) \<and> preconfirmation_started (sts ! j) \<longrightarrow>
      (\<exists>k. i < k \<and> k < j \<and> \<not> preconfer (sts ! k)))"
proof -
  have "started_right False sts"
    using status_run_started_right [OF assms(1)] by (simp add: operator_new_def)
  with started_right_covered [of False sts j] started_right_once [of False sts _ j] assms(2)
  show ?thesis by blast
qed

section \<open>A node for evaluation\<close>

definition demo_slot_info :: l2_slot_info where
  "demo_slot_info = \<lparr>base_fee = 7, slot_timestamp = 1606825223, parent_id = 10, parent_hash = 10,
     parent_gas_limit_without_anchor = 30000000, parent_timestamp = 1606825221\<rparr>"

definition demo_operator_services :: "(unit, nat) services" where
  "demo_operator_services = demo_services\<lparr>l1_provider := demo_provider\<lparr>get_block :=
     \<lambda>tag full. return (Some ((demo_block 10)\<lparr>rb_timestamp := 1606825223\<rparr>))\<rparr>\<rparr>"

definition demo_operator :: operator where
  "demo_operator = operator_new 4 6000 False
     \<lparr>active_fork = Shasta, fork_config = \<lparr>fork_switch_timestamps = [0], fork_switch_transition_period = 0\<rparr>\<rparr> 25"

lemmas status_eval = get_status_def get_status_of_def read_clock_def read_clock2_def o_env_def o_get_def o_set_def on_world_def
  zoom_def bind_def return_def lift_def gets_def modify_def attempt_def Let_def
  is_current_operator_def is_current_operator_of_def is_within_ejection_grace_def handle_operator_change_def
  get_operators_for_current_and_next_epoch_def get_operators_internal_def read_cache_or_error_def
  update_cache_def is_handover_window_def is_driver_synced_def note_driver_sync_def
  is_taiko_geth_synced_with_l1_def get_l2_height_from_taiko_inbox_def is_block_height_synced_def
  cancel_if_not_synced_for_sufficient_long_time_def is_preconfer_def is_handover_buffer_def
  get_ms_from_handover_window_start_def end_of_sequencing_marker_received_def
  is_preconfirmation_start_l2_slot_def update_was_synced_def is_submitter_def is_end_of_sequencing_def
  is_l2_slot_before_handover_window_def operator_new_def
  get_current_slot_begin_timestamp_def is_slot_in_last_n_slots_of_epoch_def
  is_fork_switch_transition_period_def vec_get_def get_l2_slot_begin_timestamp_def

lemmas demo_operator_defs = demo_slot_info_def demo_operator_services_def demo_operator_def
  demo_services_def demo_provider_def demo_block_def mainnet_clock_def fresh_env_def

lemma demo_status:
  "get_status demo_operator_services demo_slot_info (demo_operator, fresh_env ()) =
    (Ok \<lparr>preconfer = True, submitter = True, preconfirmation_started = True,
         end_of_sequencing_now = False, driver_synced = True\<rparr>,
     (demo_operator\<lparr>was_synced_preconfer := True, current_operator_address := 7\<rparr>,
      (fresh_env ())\<lparr>operators_cache := Some \<lparr>oc_timestamp = 1606825223,
         oc_operators = \<lparr>ops_current = 7, ops_next = 8\<rparr>\<rparr>\<rparr>))"
  by (simp add: status_eval eval_clock demo_operator_defs
      del: add_Ok_iff sub_Ok_iff mul_Ok_iff add_Panic_iff sub_Panic_iff)

theorem preconfirmation_starts_once_witness:
  "\<exists>st p. status_run demo_operator_services demo_operator [st] p \<and> preconfer st \<and> driver_synced st \<and>
     preconfirmation_started st"
proof -
  have run: "\<exists>st p. status_run demo_operator_services demo_operator [st] p \<and> preconfer st \<and> driver_synced st"
    using status_run.slot [OF demo_status status_run.none] by force
  then obtain st p where st: "status_run demo_operator_services demo_operator [st] p" "preconfer st"
    "driver_synced st" by blast
  from st(1) preconfirmation_starts_once [OF st(1) [unfolded demo_operator_def], of 0] st(2,3)
  show ?thesis by auto
qed

section \<open>One node at a time\<close>

lemma read_clock_const:
  "(\<And>w. system_now S w = (Ok t, w)) \<Longrightarrow> read_clock S f s = (f (slot_clock_of S) t, s)"
  "(\<And>w. system_now S w = (Ok t, w)) \<Longrightarrow> read_clock2 S g s = (g (slot_clock_of S) t t, s)"
  by (cases s; simp add: read_clock_def read_clock2_def o_env_def on_world_def zoom_def bind_def lift_def)+

lemma keeps_next_operator:
  "keeps (on_op (\<lambda>p. next_operator p = x \<and> handover_window_slots p = n)) (is_driver_synced S info driver)"
  "keeps (on_op (\<lambda>p. next_operator p = x \<and> handover_window_slots p = n)) (is_handover_window S slot)"
  unfolding is_driver_synced_def note_driver_sync_def is_taiko_geth_synced_with_l1_def
    cancel_if_not_synced_for_sufficient_long_time_def is_handover_window_def
  by (intro keeps_rules keeps_o_set; simp)+

lemma ejection_grace_Ok:
  "is_within_ejection_grace S (p, e) = (Ok b, (p', e')) \<Longrightarrow>
   (b \<longrightarrow> \<not> next_operator p' \<and> \<not> continuing_role p') \<and> handover_window_slots p' = handover_window_slots p"
  by (auto simp: is_within_ejection_grace_def bind_Ok_iff o_get_def o_set_def gets_def modify_def return_def
      lift_def read_clock_def o_env_def zoom_def split: option.splits if_splits prod.splits)

lemma is_current_operator_fresh:
  assumes "\<And>w. system_now S w = (Ok t, w)"
    and "get_current_slot_begin_timestamp (slot_clock_of S) t = Ok ts"
    and "get_epoch_begin_timestamp (slot_clock_of S) epoch = Ok epoch_ts"
    and "get_operators_for_current_and_next_epoch S ts e = (Ok oc, e1)" "epoch_ts \<le> oc_timestamp oc"
    and "is_current_operator S epoch (p, e) = (Ok cur, (p', e'))"
  shows "(cur \<longrightarrow> preconfer_address S = ops_current (oc_operators oc)) \<and>
    (next_operator p' \<longrightarrow> preconfer_address S = ops_next (oc_operators oc)) \<and>
    handover_window_slots p' = handover_window_slots p"
proof -
  have "handover_window_slots (handle_operator_change op ts' a q) = handover_window_slots q" for op ts' a q
    by (simp add: handle_operator_change_def Let_def)
  with assms(2-) show ?thesis
    unfolding is_current_operator_def is_current_operator_of_def
    by (auto simp: bind_Ok_iff read_clock_const [OF assms(1)] lift_def o_env_def zoom_def o_get_def o_set_def
        gets_def modify_def return_def Let_def not_less dest!: ejection_grace_Ok
        split: if_splits prod.splits)
qed

lemma status_role:
  assumes clock: "\<And>w. system_now S w = (Ok t, w)"
    and ts: "get_current_slot_begin_timestamp (slot_clock_of S) t = Ok ts"
    and slot: "get_current_slot_of_epoch (slot_clock_of S) t = Ok l1_slot"
    and epoch: "get_current_epoch (slot_clock_of S) t = Ok epoch"
    and starts: "get_epoch_begin_timestamp (slot_clock_of S) epoch = Ok epoch_ts"
    and ops: "get_operators_for_current_and_next_epoch S ts e = (Ok oc, e1)" "epoch_ts \<le> oc_timestamp oc"
    and win: "is_slot_in_last_n_slots_of_epoch (slot_clock_of S) l1_slot (handover_window_slots p) = Ok win"
    and run: "get_status S info (p, e) = (Ok st, (p', e'))"
  shows "(preconfer st \<longrightarrow> preconfer_address S =
      (if win then ops_next (oc_operators oc) else ops_current (oc_operators oc))) \<and>
    (submitter st \<longrightarrow> preconfer_address S = ops_current (oc_operators oc))"
  using run
proof (rule get_status_parts)
  fix slot' s1 epoch' s2 cur s3 win' s4 driver s5 s6 p7 e7
  assume 1: "read_clock S get_current_slot_of_epoch (p, e) = (Ok slot', s1)"
    and 2: "read_clock S get_current_epoch s1 = (Ok epoch', s2)"
    and 3: "is_current_operator S epoch' s2 = (Ok cur, s3)"
    and 4: "is_handover_window S slot' s3 = (Ok win', s4)"
    and 5: "o_env (on_world (driver_status S)) s4 = (Ok driver, s5)"
    and 6: "is_driver_synced S info driver s5 = (Ok (driver_synced st), s6)"
    and 7: "is_preconfer S cur win' slot' info driver s6 = (Ok (preconfer st), (p7, e7))"
    and sub: "submitter st = is_submitter cur win' p7"
  from 1 2 slot epoch have s: "slot' = l1_slot" "epoch' = epoch" "s2 = (p, e)"
    by (auto simp: read_clock_const [OF clock])
  obtain p3 e3 where s3: "s3 = (p3, e3)" by fastforce
  let ?I = "on_op (\<lambda>q. next_operator q = next_operator p3 \<and> handover_window_slots q = handover_window_slots p)"
  from is_current_operator_fresh [OF clock ts starts ops 3 [unfolded s s3]]
  have cur: "cur \<longrightarrow> preconfer_address S = ops_current (oc_operators oc)"
    and nxt: "next_operator p3 \<longrightarrow> preconfer_address S = ops_next (oc_operators oc)"
    and slots: "handover_window_slots p3 = handover_window_slots p" by auto
  from 4 win s s3 slots have "win' = win" by (simp add: is_handover_window_def lift_def)
  have "?I s3" using s3 slots by simp
  from this 4 have "?I s4" by (rule tripleD [OF keeps_next_operator(2)])
  from this 5 have "?I s5" by (rule tripleD [OF keeps_o_env])
  from this 6 have "?I s6" by (rule tripleD [OF keeps_next_operator(1)])
  then obtain p6 e6 where s6: "s6 = (p6, e6)" "next_operator p6 = next_operator p3" by (cases s6) auto
  from 7 \<open>win' = win\<close> s6 have "preconfer st \<longrightarrow> (if win then next_operator p3 else cur)"
    by (auto simp: is_preconfer_def bind_Ok_iff o_get_def gets_def lift_def return_def split: if_splits)
  moreover have "submitter st \<longrightarrow> cur" using sub by (simp add: is_submitter_def split: if_splits)
  ultimately show ?thesis using cur nxt by auto
qed

text \<open>
  C10: Nodes with different addresses never hold the same role at the same time. Take two nodes
  with the same slot clock, the same handover window and the same clock reading, whose operators
  caches answer with the same operators, read in the current epoch. If both are told to
  preconfirm, they have the same address; and if both are told to submit, they have the same
  address.
\<close>
theorem one_node_per_role:
  assumes "\<And>w. system_now S1 w = (Ok t, w)" "\<And>w. system_now S2 w = (Ok t, w)"
    and "slot_clock_of S1 = c" "slot_clock_of S2 = c"
    and "handover_window_slots p1 = n" "handover_window_slots p2 = n" "n \<le> slots_per_epoch c"
    and "get_current_slot_begin_timestamp c t = Ok ts" "get_current_slot_of_epoch c t = Ok l1_slot"
    and "get_current_epoch c t = Ok epoch" "get_epoch_begin_timestamp c epoch = Ok epoch_ts"
    and "get_operators_for_current_and_next_epoch S1 ts e1 = (Ok oc1, f1)" "epoch_ts \<le> oc_timestamp oc1"
    and "get_operators_for_current_and_next_epoch S2 ts e2 = (Ok oc2, f2)" "epoch_ts \<le> oc_timestamp oc2"
    and "oc_operators oc1 = oc_operators oc2"
    and "get_status S1 info1 (p1, e1) = (Ok st1, s1)" "get_status S2 info2 (p2, e2) = (Ok st2, s2)"
  shows "(preconfer st1 \<and> preconfer st2 \<longrightarrow> preconfer_address S1 = preconfer_address S2) \<and>
    (submitter st1 \<and> submitter st2 \<longrightarrow> preconfer_address S1 = preconfer_address S2)"
proof -
  obtain win where win: "is_slot_in_last_n_slots_of_epoch c l1_slot n = Ok win"
    using assms(7) by (simp add: is_slot_in_last_n_slots_of_epoch_def sub_def)
  obtain q1 g1 q2 g2 where s: "s1 = (q1, g1)" "s2 = (q2, g2)" by fastforce
  have 1: "(preconfer st1 \<longrightarrow> preconfer_address S1 =
      (if win then ops_next (oc_operators oc1) else ops_current (oc_operators oc1))) \<and>
    (submitter st1 \<longrightarrow> preconfer_address S1 = ops_current (oc_operators oc1))"
    using assms win s by (intro status_role [OF assms(1)]) auto
  have 2: "(preconfer st2 \<longrightarrow> preconfer_address S2 =
      (if win then ops_next (oc_operators oc2) else ops_current (oc_operators oc2))) \<and>
    (submitter st2 \<longrightarrow> preconfer_address S2 = ops_current (oc_operators oc2))"
    using assms win s by (intro status_role [OF assms(2)]) auto
  from 1 2 assms(16) show ?thesis by auto
qed

theorem one_node_per_role_witness:
  "\<exists>st s. get_status demo_operator_services demo_slot_info (demo_operator, fresh_env ()) = (Ok st, s) \<and>
     preconfer st \<and> preconfer_address demo_operator_services = 7 \<and>
     (\<forall>a st' s'. get_status (demo_operator_services\<lparr>preconfer_address := a\<rparr>) demo_slot_info
          (demo_operator, fresh_env ()) = (Ok st', s') \<and> preconfer st' \<longrightarrow> a = 7)"
proof -
  let ?t = "1606825223000000000 :: int"
  have clock: "\<And>w. system_now demo_operator_services w = (Ok ?t, w)"
    by (simp add: demo_operator_services_def demo_services_def return_def from_secs_def)
  have ops: "get_operators_for_current_and_next_epoch (demo_operator_services\<lparr>preconfer_address := a\<rparr>) 1606825223 (fresh_env ()) =
     (Ok \<lparr>oc_timestamp = 1606825223, oc_operators = \<lparr>ops_current = 7, ops_next = 8\<rparr>\<rparr>,
      (fresh_env ())\<lparr>operators_cache := Some \<lparr>oc_timestamp = 1606825223,
         oc_operators = \<lparr>ops_current = 7, ops_next = 8\<rparr>\<rparr>\<rparr>)" for a
    by (simp add: status_eval demo_operator_defs)
  have addr: "demo_operator_services\<lparr>preconfer_address := 7\<rparr> = demo_operator_services"
    by (simp add: demo_operator_services_def demo_services_def)
  have c: "get_current_slot_begin_timestamp mainnet_clock ?t = Ok 1606825223"
    "get_current_slot_of_epoch mainnet_clock ?t = Ok 4" "get_current_epoch mainnet_clock ?t = Ok 3"
    "get_epoch_begin_timestamp mainnet_clock 3 = Ok 1606825175"
    by (simp_all add: get_current_slot_begin_timestamp_def eval_clock mainnet_clock_def
        del: add_Ok_iff sub_Ok_iff mul_Ok_iff add_Panic_iff sub_Panic_iff rem_chk_Ok_iff div_chk_Ok_iff)
  have "a = 7" if run: "get_status (demo_operator_services\<lparr>preconfer_address := a\<rparr>) demo_slot_info
      (demo_operator, fresh_env ()) = (Ok st', s')" and "preconfer st'" for a st' s'
  proof -
    have "(preconfer st' \<and> True \<longrightarrow> preconfer_address (demo_operator_services\<lparr>preconfer_address := a\<rparr>) =
        preconfer_address demo_operator_services)"
      using one_node_per_role [OF _ clock _ _ _ _ _ c ops _ ops [of 7, unfolded addr] _ _ run demo_status, of 4]
      by (simp add: clock) (simp add: demo_operator_services_def demo_services_def demo_operator_def operator_new_def
          mainnet_clock_def)
    with \<open>preconfer st'\<close> show "a = 7" by (simp add: demo_operator_services_def demo_services_def)
  qed
  then show ?thesis
    using demo_status by (auto simp: demo_operator_services_def demo_services_def)
qed

section \<open>The end of sequencing\<close>

lemma slot_duration_l2:
  assumes "wf_clock c" "unat (preconf_heartbeat_ms c) dvd as_millis (slot_duration c)"
  shows "slot_duration c = unat (l2_slots_per_l1 c) * l2_period c" "0 < unat (l2_slots_per_l1 c)"
proof -
  from assms(1) obtain q where q: "slot_duration c = 10 ^ 9 * q" by (auto simp: wf_clock_def dvd_def)
  then have "slot_duration c = as_millis (slot_duration c) * 10 ^ 6" by (simp add: as_millis_def)
  with assms show eq: "slot_duration c = unat (l2_slots_per_l1 c) * l2_period c"
    by (simp add: wf_clock_def l2_period_def mult.assoc [symmetric])
  with assms(1) show "0 < unat (l2_slots_per_l1 c)"
    by (auto simp: wf_clock_def intro: gr0I)
qed

lemma l2_slot_within_eq:
  assumes "wf_clock c" "genesis_slot c = 0"
    and "get_current_l2_slot_within_l1_slot c (int now) (int now) = Ok i"
  shows "genesis_duration c \<le> now \<and> unat i = (now - l1_start c (l1_index c now)) div l2_period c"
proof -
  from assms(3) obtain s d where s: "slot_of c now = Ok s" and d: "start_of c s = Ok d" "d \<le> now"
    and i: "unat i = as_millis (now - d) div unat (preconf_heartbeat_ms c)"
    by (force simp: get_current_l2_slot_within_l1_slot_def get_current_slot_def which_l2_slot_is_it_def)
  from s d assms(1,2) have "d = l1_start c (l1_index c now)" "genesis_duration c \<le> now"
    by (auto simp: slot_of_Ok_iff start_of_Ok_iff)
  with i show ?thesis
    by (simp add: as_millis_def l2_period_def div_mult2_eq [symmetric] mult.commute)
qed

lemma window_start_eq:
  "window_start c e n = l1_start c (e * unat (slots_per_epoch c) + (unat (slots_per_epoch c) - unat n))"
  by (simp add: window_start_def epoch_start_def l1_start_def algebra_simps)

lemma last_l2_slot_iff:
  assumes "0 < P" "x < L * P"
  shows "Suc (x div P) = L \<longleftrightarrow> L * P \<le> x + P"
proof -
  have "x div P < L" using assms by (simp add: less_mult_imp_div_less)
  moreover have "L \<le> Suc (x div P) \<longleftrightarrow> L * P \<le> x + P"
    unfolding less_eq_div_iff_mult_less_eq [OF assms(1), of L "x + P", symmetric] using assms(1)
    by (simp add: div_add_self2)
  ultimately show ?thesis by linarith
qed

text \<open>
  The end-of-sequencing slot is the last L2 slot before the handover window. For a heartbeat
  that divides the L1 slot and a constant clock reading, \<open>is_l2_slot_before_handover_window\<close>
  answers yes exactly if the reading lies within one heartbeat before the start of the handover
  window of the current epoch.
\<close>
lemma end_of_sequencing_is_last_l2_slot:
  assumes "\<And>w. system_now S w = (Ok (int now), w)" "slot_clock_of S = c"
    and "wf_clock c" "genesis_slot c = 0"
    and "unat (preconf_heartbeat_ms c) dvd as_millis (slot_duration c)"
    and "get_current_slot_of_epoch c (int now) = Ok l1_slot" "get_current_epoch c (int now) = Ok epoch"
    and "handover_window_slots p < slots_per_epoch c"
    and "is_l2_slot_before_handover_window S l1_slot (p, e) = (Ok before, s)"
  shows "before \<longleftrightarrow>
    window_start c (unat epoch) (handover_window_slots p) \<le> now + l2_period c \<and>
    now < window_start c (unat epoch) (handover_window_slots p)"
proof -
  let ?n = "handover_window_slots p" and ?N = "unat (slots_per_epoch c)" and ?k = "l1_index c now"
  let ?E = "?N - unat ?n - 1" and ?W = "window_start c (unat epoch) (handover_window_slots p)"
  have n: "unat ?n < ?N" using assms(8) by (simp add: word_less_nat_alt)
  from assms(3,4,6,7) have k: "genesis_duration c \<le> now" "unat l1_slot = ?k mod ?N"
    "unat epoch = ?k div ?N"
    by (auto simp: get_current_slot_of_epoch_def slot_of_Ok_iff slot_of_epoch_def get_current_epoch_Ok_iff
        epoch_index_def)
  have "?N - unat ?n = Suc ?E" using n by simp
  then have W: "?W = l1_start c (Suc (unat epoch * ?N + ?E))"
    unfolding window_start_eq by (metis add_Suc_right)
  have bounds: "l1_start c ?k \<le> now" "now < l1_start c ?k + slot_duration c"
    using l1.start_index_le [OF assms(3) k(1)] l1.less_start_Suc_index [OF assms(3) k(1)]
    by (simp_all add: l1.start_Suc [OF assms(3)])
  note L = slot_duration_l2 [OF assms(3,5)]
  have P: "0 < l2_period c" using l2.period_pos [OF assms(3)] .
  have P_le: "l2_period c \<le> slot_duration c" using L by simp
  obtain end_slot where end_slot: "unat end_slot = ?E"
    and eq: "is_l2_slot_before_handover_window S l1_slot (p, e) =
      (if l1_slot = end_slot
       then bind (read_clock2 S get_current_l2_slot_within_l1_slot) (\<lambda>l2_slot.
          bind (lift (add l2_slot 1)) (\<lambda>n.
          return (n = get_number_of_l2_slots_per_l1 (slot_clock_of S)))) (p, e)
       else (Ok False, (p, e)))"
  proof
    define m where "m = slots_per_epoch c - ?n"
    have m: "unat m = ?N - unat ?n" using assms(8) by (simp add: m_def unat_minus_le)
    have m1: "sub m 1 = Ok (m - 1)" "unat (m - 1) = ?E"
      using n m by (simp_all add: sub_def word_le_nat_alt unat_minus_le)
    show "unat (m - 1) = ?E" by (rule m1)
    have "sub (slots_per_epoch c) ?n = Ok m" using assms(8) by (simp add: sub_def m_def)
    with m1 show "is_l2_slot_before_handover_window S l1_slot (p, e) =
      (if l1_slot = m - 1
       then bind (read_clock2 S get_current_l2_slot_within_l1_slot) (\<lambda>l2_slot.
          bind (lift (add l2_slot 1)) (\<lambda>n.
          return (n = get_number_of_l2_slots_per_l1 (slot_clock_of S)))) (p, e)
       else (Ok False, (p, e)))"
      unfolding is_l2_slot_before_handover_window_def bind_o_get
      by (subst bind_def) (simp add: assms(2) lift_def return_def del: sub_Ok_iff)
  qed
  show ?thesis
  proof (cases "l1_slot = end_slot")
    case True
    then have "?k mod ?N = ?E" using k(2) end_slot by simp
    then have kE: "?k = unat epoch * ?N + ?E" using k(3) by (metis div_mult_mod_eq)
    then have W': "?W = l1_start c ?k + slot_duration c" using W l1.start_Suc [OF assms(3)] by simp
    from assms(9) eq True have "bind (read_clock2 S get_current_l2_slot_within_l1_slot) (\<lambda>l2_slot.
          bind (lift (add l2_slot 1)) (\<lambda>n.
          return (n = get_number_of_l2_slots_per_l1 (slot_clock_of S)))) (p, e) = (Ok before, s)" by simp
    then obtain i m where i: "get_current_l2_slot_within_l1_slot c (int now) (int now) = Ok i"
      and m: "unat m = unat i + unat (1 :: u64)" and before: "before \<longleftrightarrow> m = l2_slots_per_l1 c"
      by (auto simp: bind_Ok_iff read_clock_const [OF assms(1)] lift_def return_def assms(2)
          get_number_of_l2_slots_per_l1_def)
    have "unat i = (now - l1_start c ?k) div l2_period c"
      using l2_slot_within_eq [OF assms(3,4) i] by simp
    with m before have "before \<longleftrightarrow> Suc ((now - l1_start c ?k) div l2_period c) = unat (l2_slots_per_l1 c)"
      by (simp add: word_unat_eq_iff)
    also have "\<dots> \<longleftrightarrow> slot_duration c \<le> (now - l1_start c ?k) + l2_period c"
      unfolding L(1) using bounds L(1) by (intro last_l2_slot_iff [OF P]) simp
    finally show ?thesis using W' bounds by auto
  next
    case False
    have "\<not> (?W \<le> now + l2_period c \<and> now < ?W)"
    proof
      assume now: "?W \<le> now + l2_period c \<and> now < ?W"
      then have "l1_start c (unat epoch * ?N + ?E) \<le> now"
        using P_le W by (simp add: l1.start_Suc [OF assms(3)])
      with now W have "?k = unat epoch * ?N + ?E" by (intro l1.index_unique [OF assms(3)]) auto
      moreover have "?E < ?N" using n by simp
      ultimately have "?k mod ?N = ?E" by simp
      with k(2) end_slot False show False by (simp add: word_unat_eq_iff)
    qed
    with assms(9) eq False show ?thesis by simp
  qed
qed

section \<open>The time since the start of the handover window\<close>

text \<open>
  The time spent in the handover window is computed from a slot number and from later clock
  readings, and the code panics if they do not belong together. Given a slot number inside the
  window, and readings \<open>t1\<close> for the epoch and then \<open>t2\<close> for the time, the computation panics exactly if
  \<open>t2\<close> lies before the handover window of the epoch of \<open>t1\<close>. So it panics when the slot was read
  at the end of one epoch and the clock has moved on to the next epoch in between.
\<close>
lemma handover_time_panics_iff:
  assumes "system_now S (world e) = (Ok (int t1), w1)" "system_now S w1 = (Ok (int t2), w2)"
    and "slot_clock_of S = c" "wf_clock c" "genesis_slot c = 0"
    and "handover_window_slots p \<le> slots_per_epoch c"
    and "slots_per_epoch c - handover_window_slots p \<le> l1_slot"
    and "get_current_epoch c (int t1) = Ok epoch"
    and "Suc (unat epoch) * unat (slots_per_epoch c) < 2 ^ 32"
    and "epoch_start c (Suc (unat epoch)) < duration_limit"
  shows "fst (get_ms_from_handover_window_start S l1_slot (p, e)) = Panic \<longleftrightarrow>
    t2 < window_start c (unat epoch) (handover_window_slots p)"
proof -
  let ?W = "window_start c (unat epoch) (handover_window_slots p)"
  have clock: "read_clock2 S f (p, e) = (f c (int t1) (int t2), (p, e\<lparr>world := w2\<rparr>))"
    for f :: "slot_clock \<Rightarrow> system_time \<Rightarrow> system_time \<Rightarrow> duration outcome"
    using assms(1-3) by (simp add: read_clock2_def o_env_def on_world_def zoom_def bind_def lift_def)
  have "fst (get_ms_from_handover_window_start S l1_slot (p, e)) =
    and_then (dur_sub t2 ?W) (\<lambda>d. try_from (as_millis d))"
    unfolding get_ms_from_handover_window_start_def bind_o_get
    by (cases "dur_sub t2 ?W")
      (simp_all add: bind_def clock lift_def time_from_n_last_slots_eval [OF assms(4,5,6,7,8,9,10)]
        del: dur_sub_Ok_iff dur_sub_Panic_iff)
  then show ?thesis by (simp add: and_then_Panic_iff)
qed

text \<open>A clock that moves from slot 31 of epoch 0 into epoch 1 between two readings.\<close>

section \<open>Giving up when the driver stays out of sync\<close>

interpretation sync: trip_counter "note_driver_sync S" "\<lambda>(p, _). cancel_counter p" "\<lambda>(_, e). cancelled e"
  "unat n div 2" "\<lambda>_. get_l2_slots_per_epoch (slot_clock_of S) = Ok n" for S n
proof
  fix s :: "'a ostate"
  assume n: "get_l2_slots_per_epoch (slot_clock_of S) = Ok n"
  show "\<exists>a s'. note_driver_sync S True s = (Ok a, s') \<and> get_l2_slots_per_epoch (slot_clock_of S) = Ok n \<and>
      (case s' of (p, _) \<Rightarrow> cancel_counter p) = 0 \<and>
      (case s' of (_, e) \<Rightarrow> cancelled e) = (case s of (_, e) \<Rightarrow> cancelled e)"
    using n by (cases s) (auto simp: note_driver_sync_def return_def)
  assume "unat (case s of (p, _) \<Rightarrow> cancel_counter p) + 1 < 2 ^ 64"
  then obtain k where "add (case s of (p, _) \<Rightarrow> cancel_counter p) 1 = Ok k"
    "unat k = Suc (unat (case s of (p, _) \<Rightarrow> cancel_counter p))"
    by (simp add: add_def unat_word_ariths)
  with n show "\<exists>a s'. note_driver_sync S False s = (Ok a, s') \<and> get_l2_slots_per_epoch (slot_clock_of S) = Ok n \<and>
      unat (case s' of (p, _) \<Rightarrow> cancel_counter p) = Suc (unat (case s of (p, _) \<Rightarrow> cancel_counter p)) \<and>
      (case s' of (_, e) \<Rightarrow> cancelled e) =
        ((case s of (_, e) \<Rightarrow> cancelled e) \<or> unat n div 2 < Suc (unat (case s of (p, _) \<Rightarrow> cancel_counter p)))"
    by (cases s) (auto simp: note_driver_sync_def cancel_if_not_synced_for_sufficient_long_time_def bind_def
        lift_def o_get_def o_set_def o_env_def zoom_def gets_def modify_def return_def
        cancel_on_critical_error_def word_less_nat_alt unat_div simp del: add_Ok_iff)
qed

text \<open>
  A node whose driver stays out of sync gives up after half an epoch. Over a sequence of
  sync checks of a new operator, the token is cancelled if and only if, somewhere in the
  sequence, more than half of the L2 slots of an epoch were out of sync one after the other.
\<close>
lemma unsynced_driver_cancels_iff:
  assumes "get_l2_slots_per_epoch (slot_clock_of S) = Ok n" "length oks < 2 ^ 64" "\<not> cancelled e"
    and "cancel_counter p = 0"
  shows "\<exists>p' e'. beats (note_driver_sync S) oks (p, e) = (Ok (), (p', e')) \<and>
    (cancelled e' \<longleftrightarrow> (\<exists>ys zs. oks = ys @ replicate (Suc (unat n div 2)) False @ zs))"
  using sync.beats_run [of S n "(p, e)", OF assms(1) _ assms(2)] assms(3,4)
  unfolding has_failure_run_def by auto

end
