(* ===== verification/Shasta_Node.thy ===== *)
theory Shasta_Node
  imports Verifier Operator_Status
begin

text \<open>
  \<^verbatim>\<open>src/shasta/src/node/mod.rs\<close>: the node. Every heartbeat runs \<open>main_block_preconfirmation_step\<close>, which
  asks the operator for the role of this slot, settles the transaction in flight, starts the
  verifier when preconfirmation begins, preconfirms a block, submits the oldest proposal, and
  cleans up when the node has no role.

  The state is the record \<open>node\<close> paired with the shared environment. The step of the code is one
  long function; here it is cut into its consecutive stages, which \<open>main_step\<close> puts together
  in the same order. Logging and metrics are left out, except that the log line of the heartbeat
  reads the clock and can fail.
\<close>

section \<open>State\<close>

record 'tx node =
  n_watchdog :: watchdog
  n_operator :: operator
  n_manager :: "'tx manager"
  n_verifier :: "'tx verifier option"
  n_head :: head_status

record node_config =
  nc_handover_window_slots :: u64
  nc_handover_start_buffer_ms :: u64
  nc_ejection_grace_period_sec :: u64
  nc_l1_height_lag :: u64
  nc_min_anchor_offset :: u64
  nc_propose_forced_inclusion :: bool
  nc_simulate_not_submitting_at_the_end_of_epoch :: bool
  nc_max_blocks_to_reanchor :: u64
  nc_watchdog_max_counter :: u64

type_synonym ('w, 'tx) nstate = "'tx node \<times> 'w env"

definition node_new ::
  "('w, 'tx) services \<Rightarrow> node_config \<Rightarrow> batch_builder_config \<Rightarrow> fork_info \<Rightarrow> ('w, 'tx node) action" where
  "node_new S cfg builder_cfg info =
     bind (map_err ''Failed to create ProposalManager''
             (manager_new S (nc_l1_height_lag cfg) (nc_min_anchor_offset cfg) builder_cfg
                (nc_max_blocks_to_reanchor cfg) (nc_propose_forced_inclusion cfg))) (\<lambda>g.
     return \<lparr>n_watchdog = watchdog_new (nc_watchdog_max_counter cfg),
             n_operator = operator_new (nc_handover_window_slots cfg) (nc_handover_start_buffer_ms cfg)
               (nc_simulate_not_submitting_at_the_end_of_epoch cfg) info (nc_ejection_grace_period_sec cfg),
             n_manager = g, n_verifier = None, n_head = head_verifier_new\<rparr>)"

definition n_env :: "('w env, 'a) action \<Rightarrow> (('w, 'tx) nstate, 'a) action" where
  "n_env = zoom snd (\<lambda>e (n, _). (n, e))"

definition n_world :: "('w, 'a) action \<Rightarrow> (('w, 'tx) nstate, 'a) action" where
  "n_world m = n_env (on_world m)"

definition n_mgr :: "(('w, 'tx) mstate, 'a) action \<Rightarrow> (('w, 'tx) nstate, 'a) action" where
  "n_mgr = zoom (\<lambda>(n, e). (n_manager n, e)) (\<lambda>(g, e) (n, _). (n\<lparr>n_manager := g\<rparr>, e))"

definition n_op :: "('w ostate, 'a) action \<Rightarrow> (('w, 'tx) nstate, 'a) action" where
  "n_op = zoom (\<lambda>(n, e). (n_operator n, e)) (\<lambda>(p, e) (n, _). (n\<lparr>n_operator := p\<rparr>, e))"

definition n_get :: "('tx node \<Rightarrow> 'a) \<Rightarrow> (('w, 'tx) nstate, 'a) action" where
  "n_get f = gets (\<lambda>(n, _). f n)"

definition n_set :: "('tx node \<Rightarrow> 'tx node) \<Rightarrow> (('w, 'tx) nstate, unit) action" where
  "n_set f = modify (\<lambda>(n, e). (f n, e))"

definition n_headv :: "(head_status, 'a) action \<Rightarrow> (('w, 'tx) nstate, 'a) action" where
  "n_headv = zoom (\<lambda>(n, _). n_head n) (\<lambda>h (n, e). (n\<lparr>n_head := h\<rparr>, e))"

text \<open>\<open>cancel_on_critical_error\<close> followed by an error.\<close>

definition shut_down :: "error \<Rightarrow> (('w, 'tx) nstate, 'a) action" where
  "shut_down x = bind (n_env cancel_on_critical_error) (\<lambda>_. raise x)"

section \<open>Reanchoring\<close>

definition node_reanchor_blocks :: "('w, 'tx) services \<Rightarrow> u64 \<Rightarrow> (('w, 'tx) nstate, unit) action" where
  "node_reanchor_blocks S parent_block_id =
     bind (n_set (\<lambda>n. n\<lparr>n_verifier := None\<rparr>)) (\<lambda>_.
     bind (n_mgr (reset_builder S)) (\<lambda>_.
     bind (n_world (set_expected_reorg S parent_block_id)) (\<lambda>_.
     bind (lift (add parent_block_id 1)) (\<lambda>first.
     bind (n_world (fetch_l2_blocks_until_latest S first True)) (\<lambda>blocks.
     bind (for_each (\<lambda>flags b. bind (n_world (is_forced_inclusion S (rb_number b))) (\<lambda>f. return (flags @ [f])))
             [] blocks) (\<lambda>flags.
     bind (n_mgr (reanchor_blocks S (advance_head_to_new_l2_block S) (zip blocks flags) parent_block_id)) (\<lambda>_.
     bind (n_world (get_l2_slot_info S)) (\<lambda>info.
     n_set (\<lambda>n. n\<lparr>n_head := head_set (parent_id info) (parent_hash info) (n_head n)\<rparr>)))))))))"

section \<open>Transaction errors\<close>

definition handle_transaction_error ::
  "('w, 'tx) services \<Rightarrow> transaction_error \<Rightarrow> (('w, 'tx) nstate, unit) action" where
  "handle_transaction_error S err =
     (case err of
        ReanchorRequired \<Rightarrow> shut_down (Anyhow ''ReanchorRequired error received unexpectedly, exiting'')
      | NotConfirmed \<Rightarrow> shut_down (Anyhow ''Transaction not confirmed for a long time, exiting'')
      | UnsupportedTransactionType \<Rightarrow> shut_down (Anyhow ''Unsupported transaction type'')
      | GetBlockNumberFailed \<Rightarrow> shut_down (Anyhow ''Failed to get block number from L1'')
      | EstimationTooEarly \<Rightarrow> return ()
      | InsufficientFunds \<Rightarrow> shut_down (Anyhow ''Transaction reverted with InsufficientFunds error'')
      | EstimationFailed \<Rightarrow> shut_down (Anyhow ''Transaction estimation failed, exiting'')
      | TransactionReverted \<Rightarrow> shut_down (Anyhow ''Transaction reverted, exiting'')
      | OldestForcedInclusionDue \<Rightarrow>
          attempt (n_env (finder_get S))
            (\<lambda>taiko_inbox_height.
               attempt (node_reanchor_blocks S taiko_inbox_height) return shut_down)
            (\<lambda>_. shut_down (Anyhow ''OldestForcedInclusionDue''))
      | NotTheOperatorInCurrentEpoch \<Rightarrow> return ()
      | BuildFailed \<Rightarrow> shut_down (Anyhow ''Transaction build failed, exiting''))"

definition check_transaction_error_channel :: "('w, 'tx) services \<Rightarrow> (('w, 'tx) nstate, bool) action" where
  "check_transaction_error_channel S =
     bind (n_world (try_recv_error S)) (\<lambda>r.
     case r of
       Received err \<Rightarrow> bind (handle_transaction_error S err) (\<lambda>_. return True)
     | ChannelEmpty \<Rightarrow> return False
     | Disconnected \<Rightarrow> shut_down (Anyhow ''Transaction error channel disconnected''))"

section \<open>Slot info and status\<close>

definition print_current_slots_info :: "('w, 'tx) services \<Rightarrow> (('w, 'tx) nstate, unit) action" where
  "print_current_slots_info S =
     bind (n_world (system_now S)) (\<lambda>t.
     bind (lift (get_current_slot (slot_clock_of S) t)) (\<lambda>l1_slot.
     bind (lift (get_epoch_from_slot (slot_clock_of S) l1_slot)) (\<lambda>_.
     bind (lift (slot_of_epoch (slot_clock_of S) l1_slot)) (\<lambda>_.
     bind (n_world (system_now S)) (\<lambda>t1.
     bind (n_world (system_now S)) (\<lambda>t2.
     bind (lift (get_current_l2_slot_within_l1_slot (slot_clock_of S) t1 t2)) (\<lambda>_.
     return ())))))))"

definition get_slot_info_and_status ::
  "('w, 'tx) services \<Rightarrow> (('w, 'tx) nstate, l2_slot_info \<times> status \<times> 'tx pre_built_tx_list option) action" where
  "get_slot_info_and_status S =
     bind (try_run (n_world (get_l2_slot_info S))) (\<lambda>l2_slot_info.
     bind (case l2_slot_info of
             Inr info \<Rightarrow> try_run (n_op (get_status S info))
           | Inl _ \<Rightarrow> return (Inl (Anyhow ''Failed to get L2 slot info''))) (\<lambda>current_status.
     bind (case l2_slot_info of
             Inr info \<Rightarrow>
               if parent_gas_limit_without_anchor info \<noteq> 0
               then
                 bind (n_get (\<lambda>n. get_number_of_proposals_ready_to_send (proposal_builder (n_manager n)))) (\<lambda>ready.
                 try_run (n_world (get_pending_l2_tx_list_from_l2_engine S (base_fee info) ready
                   (parent_gas_limit_without_anchor info))))
               else return (Inr None)
           | Inl _ \<Rightarrow> return (Inr None)) (\<lambda>pending_tx_list.
     bind (n_get (\<lambda>n. get_number_of_proposals (proposal_builder (n_manager n)))) (\<lambda>number.
     bind (lift number) (\<lambda>_.
     bind (print_current_slots_info S) (\<lambda>_.
     bind (lift (unwrap l2_slot_info)) (\<lambda>info.
     bind (lift (unwrap current_status)) (\<lambda>st.
     bind (lift (unwrap pending_tx_list)) (\<lambda>pending.
     return (info, st, pending))))))))))"

section \<open>Stages of the main step\<close>

text \<open>Settle the transaction in flight. The result tells whether one is still in progress.\<close>

definition settle_stage :: "('w, 'tx) services \<Rightarrow> (('w, 'tx) nstate, bool) action" where
  "settle_stage S =
     bind (n_world (is_transaction_in_progress S)) (\<lambda>transaction_in_progress.
     if transaction_in_progress then return True
     else
       bind (check_transaction_error_channel S) (\<lambda>had_transaction_error.
       bind (n_mgr (m_builder (modify
               (if \<not> had_transaction_error then remove_confirmed_proposal
                else mark_not_confirmed_proposal_to_resubmit)))) (\<lambda>_.
       return False)))"

definition get_current_protocol_height :: "('w, 'tx) services \<Rightarrow> (('w, 'tx) nstate, u64 \<times> u64) action" where
  "get_current_protocol_height S =
     bind (n_env (finder_get S)) (\<lambda>taiko_inbox_height.
     bind (n_world (get_latest_l2_block_id S)) (\<lambda>taiko_geth_height.
     return (taiko_inbox_height, taiko_geth_height)))"

definition check_for_missing_sent_proposals :: "('w, 'tx) services \<Rightarrow> (('w, 'tx) nstate, unit) action" where
  "check_for_missing_sent_proposals S =
     bind (get_current_protocol_height S) (\<lambda>(taiko_inbox_height, taiko_geth_height).
     if taiko_inbox_height = taiko_geth_height then return ()
     else
       bind (n_world (get_preconfer_nonce_latest S)) (\<lambda>nonce_latest.
       bind (n_world (get_preconfer_nonce_pending S)) (\<lambda>nonce_pending.
       if nonce_latest = nonce_pending
       then
         bind (n_get (\<lambda>n. m_clone_without_proposals 0 (n_manager n))) (\<lambda>g.
         bind (n_world (new_with_taiko_height S taiko_geth_height g 0)) (\<lambda>v.
         n_set (\<lambda>n. n\<lparr>n_verifier := Some v\<rparr>)))
       else raise (Anyhow ''Pending nonce is not equal to latest nonce''))))"

text \<open>The first slot of a turn.\<close>

definition start_stage :: "('w, 'tx) services \<Rightarrow> status \<Rightarrow> l2_slot_info \<Rightarrow> (('w, 'tx) nstate, unit) action" where
  "start_stage S st info =
     bind (n_set (\<lambda>n. n\<lparr>n_head := head_set (parent_id info) (parent_hash info) (n_head n)\<rparr>)) (\<lambda>_.
     bind (n_world (get_inbox_forced_inclusion_state S)) (\<lambda>fi_state.
     bind (if submitter st
           then attempt (check_for_missing_sent_proposals S) return
                  (\<lambda>_. shut_down (Anyhow ''Shutdown: Failed to verify sent proposals on startup''))
           else
             bind (n_world (system_now S)) (\<lambda>t.
             bind (lift (get_next_epoch_start_timestamp (slot_clock_of S) t)) (\<lambda>verification_ts.
             bind (n_get (\<lambda>n. m_clone_without_proposals (fi_head fi_state) (n_manager n))) (\<lambda>g.
             attempt (n_world (new_with_taiko_height S (parent_id info) g verification_ts))
               (\<lambda>v. n_set (\<lambda>n. n\<lparr>n_verifier := Some v\<rparr>))
               (\<lambda>_. shut_down (Anyhow ''Shutdown: Failed to create verifier on startup'')))))) (\<lambda>_.
     bind (n_world (calculate_current_fi_head S fi_state)) (\<lambda>current_fi_head.
     n_mgr (set_fi_head current_fi_head)))))"

definition check_and_handle_anchor_offset_for_unsafe_l2_blocks ::
  "('w, 'tx) services \<Rightarrow> l2_slot_info \<Rightarrow> (('w, 'tx) nstate, bool) action" where
  "check_and_handle_anchor_offset_for_unsafe_l2_blocks S info =
     bind (n_env (finder_get S)) (\<lambda>taiko_inbox_height.
     if taiko_inbox_height < parent_id info
     then
       bind (lift (add taiko_inbox_height 1)) (\<lambda>l2_block_id.
       bind (n_world (get_l1_anchor_block_and_timestamp_offset_for_l2_block S l2_block_id))
         (\<lambda>(anchor_offset, timestamp_offset).
       if \<not> is_offsets_valid S anchor_offset timestamp_offset
       then attempt (node_reanchor_blocks S taiko_inbox_height) (\<lambda>_. return True)
              (\<lambda>_. shut_down (Anyhow ''Failed to reanchor''))
       else return False))
     else return False)"

definition verify_preconfed_block :: "build_preconf_block_response \<Rightarrow> (('w, 'tx) nstate, unit) action" where
  "verify_preconfed_block b =
     bind (n_headv (verify_next_and_set (resp_number b) (resp_hash b) (resp_parent_hash b))) (\<lambda>ok.
     if ok then return ()
     else shut_down (Anyhow ''Unexpected L2 head after preconfirmation. Restarting node...''))"

text \<open>The slots of a synced preconfer. The result tells whether the step ends here.\<close>

definition preconf_stage ::
  "('w, 'tx) services \<Rightarrow> status \<Rightarrow> l2_slot_context \<Rightarrow> 'tx pre_built_tx_list option \<Rightarrow> (('w, 'tx) nstate, bool) action" where
  "preconf_stage S st ctx pending =
     bind (if submitter st then return False
           else check_and_handle_anchor_offset_for_unsafe_l2_blocks S (slot_info ctx)) (\<lambda>reanchored.
     if reanchored then return True
     else
       bind (n_get (\<lambda>n. head_verify (parent_id (slot_info ctx)) (parent_hash (slot_info ctx)) (n_head n))) (\<lambda>expected.
       if \<not> expected
       then shut_down (Anyhow ''Unexpected L2 head detected. Restarting node...'')
       else
         bind (n_mgr (m_should_new_block_be_created pending ctx)) (\<lambda>due.
         bind (if due
               then bind (n_mgr (preconfirm_block S (advance_head_to_new_l2_block S) pending ctx)) verify_preconfed_block
               else return ()) (\<lambda>_. return False))))"

definition has_verified_unsent_proposals :: "('w, 'tx) services \<Rightarrow> (('w, 'tx) nstate, bool) action" where
  "has_verified_unsent_proposals S = (\<lambda>(n, e).
     case n_verifier n of
       None \<Rightarrow> (Ok True, (n, e))
     | Some v \<Rightarrow>
         let n = n\<lparr>n_verifier := None\<rparr> in
         (case verify S (v, e) of
            (Ok res, (v', e')) \<Rightarrow>
              (case res of
                 SlotNotValid \<Rightarrow> (Ok False, (n\<lparr>n_verifier := Some v'\<rparr>, e'))
               | ReanchorNeeded block \<Rightarrow>
                   attempt (node_reanchor_blocks S block) (\<lambda>_. return True) shut_down (n, e')
               | SuccessWithProposals ps \<Rightarrow> bind (n_mgr (m_prepend_proposals ps)) (\<lambda>_. return True) (n, e')
               | SuccessNoProposals \<Rightarrow> (Ok True, (n, e'))
               | VerificationInProgress \<Rightarrow> (Ok False, (n\<lparr>n_verifier := Some v'\<rparr>, e')))
          | (Err x, (v', e')) \<Rightarrow> (Err x, (n\<lparr>n_verifier := Some v'\<rparr>, e'))
          | (Panic, (v', e')) \<Rightarrow> (Panic, (n, e'))))"

definition submit_proposal ::
  "('w, 'tx) services \<Rightarrow> status \<Rightarrow> l2_slot_context \<Rightarrow> (('w, 'tx) nstate, unit) action" where
  "submit_proposal S st ctx =
     attempt (n_mgr (m_try_submit_oldest_proposal S (preconfer st) (slot_timestamp (slot_info ctx)))) return
       (\<lambda>err. case err of
          TxError transaction_error \<Rightarrow> handle_transaction_error S transaction_error
        | _ \<Rightarrow> raise err)"

definition idle_stage :: "('w, 'tx) services \<Rightarrow> status \<Rightarrow> (('w, 'tx) nstate, unit) action" where
  "idle_stage S st =
     (if \<not> submitter st \<and> \<not> preconfer st
      then
        bind (n_get (\<lambda>n. has_proposals (n_manager n) \<or> has_current_forced_inclusion (proposal_builder (n_manager n)))) (\<lambda>busy.
        bind (if busy then n_mgr (reset_builder S) else return ()) (\<lambda>_.
        n_set (\<lambda>n. n\<lparr>n_verifier := None\<rparr>)))
      else return ())"

text \<open>
  The step up to the point where a proposal may be submitted: the status, the context and
  \<open>Some ready\<close>, where \<open>ready\<close> says that the oldest proposal is to be submitted now; \<open>None\<close> if the
  step has ended early after a reanchoring.
\<close>

definition before_submit ::
  "('w, 'tx) services \<Rightarrow> (('w, 'tx) nstate, status \<times> l2_slot_context \<times> bool option) action" where
  "before_submit S =
     bind (get_slot_info_and_status S) (\<lambda>(info, st, pending).
     let ctx = \<lparr>slot_info = info, end_of_sequencing = end_of_sequencing_now st\<rparr> in
     bind (settle_stage S) (\<lambda>transaction_in_progress.
     bind (if preconfirmation_started st then start_stage S st info else return ()) (\<lambda>_.
     bind (if preconfer st \<and> driver_synced st then preconf_stage S st ctx pending else return False) (\<lambda>reanchored.
     if reanchored then return (st, ctx, None)
     else if submitter st \<and> \<not> transaction_in_progress
     then bind (has_verified_unsent_proposals S) (\<lambda>ready. return (st, ctx, Some ready))
     else return (st, ctx, Some False)))))"

definition main_step :: "('w, 'tx) services \<Rightarrow> (('w, 'tx) nstate, unit) action" where
  "main_step S =
     bind (before_submit S) (\<lambda>(st, ctx, ready).
     case ready of
       None \<Rightarrow> return ()
     | Some now \<Rightarrow>
         bind (if now then submit_proposal S st ctx else return ()) (\<lambda>_.
         idle_stage S st))"

section \<open>The loop\<close>

definition n_watch :: "(watchdog \<times> 'w env, 'a) action \<Rightarrow> (('w, 'tx) nstate, 'a) action" where
  "n_watch = zoom (\<lambda>(n, e). (n_watchdog n, e)) (\<lambda>(d, e) (n, _). (n\<lparr>n_watchdog := d\<rparr>, e))"

definition heartbeat :: "('w, 'tx) services \<Rightarrow> (('w, 'tx) nstate, unit) action" where
  "heartbeat S = attempt (main_step S) (\<lambda>_. n_watch watchdog_reset) (\<lambda>_. n_watch watchdog_increment)"

text \<open>
  The process: a heartbeat of the loop, as long as the token is not cancelled and the loop has
  not died in a panic, or a move of another task, which can change the world and the operators
  cache and can cancel the token.
\<close>

inductive node_step :: "('w, 'tx) services \<Rightarrow> ('w, 'tx) nstate \<Rightarrow> ('w, 'tx) nstate \<Rightarrow> bool" for S where
  beat: "\<not> cancelled e \<Longrightarrow> heartbeat S (n, e) = (Ok (), s') \<Longrightarrow> node_step S (n, e) s'"
| others: "(cancelled e \<longrightarrow> c) \<Longrightarrow>
    node_step S (n, e) (n, e\<lparr>world := w, cancelled := c, operators_cache := oc\<rparr>)"

section \<open>The invariant of the node\<close>

text \<open>
  With builder configuration \<open>c\<close>: the builder of the manager is in order (\<open>binv\<close>, with \<open>q\<close> for
  \<^emph>\<open>nothing in flight\<close>), and so is the copy that a waiting verifier holds, in which nothing is in
  flight.
\<close>

definition thread_ok :: "batch_builder_config \<Rightarrow> 'tx verifier_thread \<Rightarrow> bool" where
  "thread_ok c t = binv True c None (proposal_builder (thread_manager t))"

definition verifier_ok :: "batch_builder_config \<Rightarrow> 'tx verifier \<Rightarrow> bool" where
  "verifier_ok c v \<longleftrightarrow> (\<forall>t. thread v = Some t \<longrightarrow> thread_ok c t) \<and>
     (\<forall>t h. handle v = Some (Running t h) \<longrightarrow> thread_ok c t)"

definition node_ok :: "bool \<Rightarrow> batch_builder_config \<Rightarrow> ('w, 'tx) nstate \<Rightarrow> bool" where
  "node_ok q c s \<longleftrightarrow> (case s of (n, e) \<Rightarrow>
     binv q c None (proposal_builder (n_manager n)) \<and> (\<forall>v. n_verifier n = Some v \<longrightarrow> verifier_ok c v))"

lemma node_okI:
  "binv q c None (proposal_builder (n_manager n)) \<Longrightarrow> (\<And>v. n_verifier n = Some v \<Longrightarrow> verifier_ok c v) \<Longrightarrow>
   node_ok q c (n, e)"
  by (simp add: node_ok_def)

lemma node_ok_weaken: "node_ok q c s \<Longrightarrow> node_ok False c s"
  by (auto simp: node_ok_def binv_def)

lemma node_ok_any: "node_ok True c s \<Longrightarrow> node_ok q c s"
  by (auto simp: node_ok_def binv_def)

lemma map_err_Ok_iff: "map_err msg m s = (Ok a, t) \<longleftrightarrow> m s = (Ok a, t)"
  by (auto simp: map_err_def attempt_def return_def raise_def split: prod.splits outcome.splits)

lemma keeps_n_env [keeps_rules]: "keeps (node_ok q c) (n_env m)"
  by (auto simp: n_env_def triple_def zoom_def node_ok_def split: prod.splits)

lemma keeps_n_world [keeps_rules]: "keeps (node_ok q c) (n_world m)"
  unfolding n_world_def by (rule keeps_n_env)

lemma keeps_n_op [keeps_rules]: "keeps (node_ok q c) (n_op m)"
  by (auto simp: n_op_def triple_def zoom_def node_ok_def split: prod.splits)

lemma keeps_n_watch [keeps_rules]: "keeps (node_ok q c) (n_watch m)"
  by (auto simp: n_watch_def triple_def zoom_def node_ok_def split: prod.splits)

lemma keeps_n_headv [keeps_rules]: "keeps (node_ok q c) (n_headv m)"
  by (auto simp: n_headv_def triple_def zoom_def node_ok_def split: prod.splits)

lemma keeps_n_get [keeps_rules]: "keeps (node_ok q c) (n_get f)"
  unfolding n_get_def by (rule keeps_gets)

lemma keeps_n_set:
  fixes f :: "'tx node \<Rightarrow> 'tx node"
  assumes "\<And>n (e :: 'w env). node_ok q c (n, e) \<Longrightarrow> node_ok q c (f n, e)"
  shows "keeps (node_ok q c :: ('w, 'tx) nstate \<Rightarrow> bool) (n_set f)"
  unfolding n_set_def using assms by (intro keeps_modify) auto

lemma triple_n_mgr:
  "triple (on_mgr (binv q c None)) m (\<lambda>_. on_mgr (binv q' c None)) \<Longrightarrow>
   triple (node_ok q c) (n_mgr m) (\<lambda>_. node_ok q' c)"
  unfolding n_mgr_def
  by (rule tripleI) (auto simp: zoom_def node_ok_def split: prod.splits dest: tripleD)

lemmas keeps_n_mgr = triple_n_mgr [where q' = q and q = q for q]

lemma keeps_shut_down [keeps_rules]: "keeps (node_ok q c) (shut_down x)"
  unfolding shut_down_def by (intro keeps_rules)

lemma keeps_node_reanchor [keeps_rules]: "keeps (node_ok q c) (node_reanchor_blocks S parent)"
  unfolding node_reanchor_blocks_def
  by (intro keeps_rules keeps_n_mgr keeps_reset keeps_reanchor_blocks keeps_n_set) (simp_all add: node_ok_def)

lemma keeps_handle_transaction_error [keeps_rules]: "keeps (node_ok q c) (handle_transaction_error S err)"
  unfolding handle_transaction_error_def by (cases err; simp; intro keeps_rules)

lemma keeps_error_channel [keeps_rules]: "keeps (node_ok q c) (check_transaction_error_channel S)"
proof -
  have "keeps (node_ok q c) (case r of
       Received err \<Rightarrow> bind (handle_transaction_error S err) (\<lambda>_. return True)
     | ChannelEmpty \<Rightarrow> return False
     | Disconnected \<Rightarrow> shut_down (Anyhow ''Transaction error channel disconnected''))" for r
    by (cases r; simp; intro keeps_rules)
  then show ?thesis unfolding check_transaction_error_channel_def by (intro keeps_rules)
qed

lemma keeps_slot_info [keeps_rules]: "keeps (node_ok q c) (get_slot_info_and_status S)"
  unfolding get_slot_info_and_status_def print_current_slots_info_def by (intro keeps_rules)

lemma settle_config [simp]:
  "bconfig (remove_confirmed_proposal b) = bconfig b"
  "bconfig (mark_not_confirmed_proposal_to_resubmit b) = bconfig b"
  by (simp_all add: remove_confirmed_proposal_def mark_not_confirmed_proposal_to_resubmit_def)

lemma triple_settle:
  "triple (node_ok False c) (settle_stage S)
     (\<lambda>r s. node_ok False c s \<and> (r = Ok False \<longrightarrow> node_ok True c s))"
proof -
  have settle: "triple (on_mgr (binv False c None))
      (m_builder (modify (if \<not> b then remove_confirmed_proposal else mark_not_confirmed_proposal_to_resubmit)))
      (\<lambda>_. on_mgr (binv True c None))" for b
  proof (rule triple_m_builder)
    show "triple (binv False c None)
        (modify (if \<not> b then remove_confirmed_proposal else mark_not_confirmed_proposal_to_resubmit))
        (\<lambda>_. binv True c None)"
      by (simp add: triple_def modify_def binv_def builder_inv_remove_confirmed quiet_remove_confirmed
          builder_inv_mark_resubmit quiet_mark_resubmit)
  qed
  have tail: "triple (node_ok False c) (bind (n_mgr (m_builder (modify
          (if \<not> b then remove_confirmed_proposal else mark_not_confirmed_proposal_to_resubmit)))) (\<lambda>_. return False))
      (\<lambda>r s. node_ok False c s \<and> (r = Ok False \<longrightarrow> node_ok True c s))" for b
    by (rule triple_bind [where R = "\<lambda>_. node_ok True c", OF triple_conseq [OF triple_n_mgr [OF settle]]])
      (auto intro: node_ok_weaken triple_return split: outcome.splits)
  show ?thesis
    unfolding settle_stage_def
    by (intro triple_bind_keeps keeps_n_world triple_if triple_return keeps_error_channel tail) auto
qed

lemma verifier_ok_new:
  "new_with_taiko_height S h g ts w = (Ok v, w') \<Longrightarrow>
   binv True c None (proposal_builder g) \<Longrightarrow> verifier_ok c v"
  by (auto simp: new_with_taiko_height_def bind_Ok_iff return_def verifier_ok_def thread_ok_def)

lemma binv_clone: "binv q c L b \<Longrightarrow> binv True c None (clone_without_proposals b)"
  using builder_inv_clone [of b]
  by (simp add: binv_def clone_without_proposals_def quiet_def queue_new_def)

lemma keeps_new_verifier:
  "keeps (node_ok q c) (bind (n_get (\<lambda>n. m_clone_without_proposals i (n_manager n))) (\<lambda>g.
     bind (n_world (new_with_taiko_height S h g ts)) (\<lambda>v. n_set (\<lambda>n. n\<lparr>n_verifier := Some v\<rparr>))))"
  "keeps (node_ok q c) (bind (n_get (\<lambda>n. m_clone_without_proposals i (n_manager n))) (\<lambda>g.
     attempt (n_world (new_with_taiko_height S h g ts)) (\<lambda>v. n_set (\<lambda>n. n\<lparr>n_verifier := Some v\<rparr>))
       (\<lambda>_. shut_down x)))"
  by (auto simp: triple_def node_ok_def n_get_def n_world_def n_env_def on_world_def zoom_def n_set_def
      modify_def bind_def attempt_def gets_def m_clone_without_proposals_def shut_down_def
      cancel_on_critical_error_def raise_def
      intro: binv_clone dest!: verifier_ok_new split: prod.splits outcome.splits)

lemma keeps_start_stage: "keeps (node_ok q c) (start_stage S st info)"
  unfolding start_stage_def check_for_missing_sent_proposals_def get_current_protocol_height_def set_fi_head_def
  by (intro keeps_rules keeps_new_verifier keeps_n_mgr keeps_n_set keeps_modify) (auto simp: node_ok_def)

lemma keeps_preconf_stage: "keeps (node_ok q c) (preconf_stage S st ctx pending)"
  unfolding preconf_stage_def check_and_handle_anchor_offset_for_unsafe_l2_blocks_def
    verify_preconfed_block_def m_should_new_block_be_created_def
  by (intro keeps_rules keeps_n_mgr keeps_preconfirm)

lemma keeps_idle_stage: "keeps (node_ok q c) (idle_stage S st)"
  unfolding idle_stage_def
  by (intro keeps_rules keeps_n_mgr keeps_reset keeps_n_set) (auto simp: node_ok_def)

lemma verify_submitted_blocks_ok:
  assumes "binv True c None (proposal_builder g)"
    and "verify_submitted_blocks S root hash inbox (g, e) = (Ok ps, s')" "p \<in> set ps"
  shows "\<not> p_pending_confirmation p \<and> p_l2_blocks p \<noteq> [] \<and> proposal_ok c p"
proof -
  let ?I = "on_mgr (binv True c None)"
  let ?pre = "bind (m_world (get_l2_block_hash S root)) (\<lambda>current_hash.
     if hash \<noteq> current_hash then raise (Anyhow ''Block hash mismatch'')
     else
       bind (if inbox < root then handle_unprocessed_blocks S inbox root
             else if root < inbox
             then raise (Anyhow ''Unexpected block proposal was made by previous preconfer'')
             else return ()) (\<lambda>_.
       m_builder try_finalize_current_proposal))"
  have keeps: "keeps ?I ?pre"
    unfolding handle_unprocessed_blocks_def recover_next_def try_finalize_current_proposal_def
    by (intro keeps_rules keeps_reset keeps_recover_from_l2_block keeps_m_builder keeps_modify binv_finalize)
  have "verify_submitted_blocks S root hash inbox (g, e) = bind ?pre (\<lambda>_.
       m_builder (\<lambda>b. case take_proposals_to_send b of (ps, b') \<Rightarrow> (Ok ps, b'))) (g, e)"
    unfolding verify_submitted_blocks_def
    by (auto simp: bind_def raise_def split: prod.splits outcome.splits)
  with assms(2) obtain s1 where pre: "?pre (g, e) = (Ok (), s1)"
    and ps: "m_builder (\<lambda>b. case take_proposals_to_send b of (ps, b') \<Rightarrow> (Ok ps, b')) s1 = (Ok ps, s')"
    by (auto simp: bind_Ok_iff)
  obtain g1 e1 where s1: "s1 = (g1, e1)" by fastforce
  from tripleD [OF keeps _ pre] assms(1) s1 have inv: "binv True c None (proposal_builder g1)" by simp
  from ps s1 have "ps = proposals (queue (proposal_builder g1))"
    by (auto simp: m_builder_def zoom_def take_proposals_to_send_def queue_take_all_def)
  with assms(3) inv show ?thesis
    using builder_invD(3) [of "proposal_builder g1" p] by (auto simp: binv_def quiet_def)
qed

lemma binv_prepend:
  assumes "binv True c None b"
    and "\<And>p. p \<in> set ps \<Longrightarrow> \<not> p_pending_confirmation p \<and> p_l2_blocks p \<noteq> [] \<and> proposal_ok c p"
  shows "binv True c None (prepend_proposals ps b)"
  using assms builder_inv_prepend [of b ps]
  by (auto simp: binv_def quiet_def prepend_proposals_def queue_prepend_def)

lemma verify_ok:
  assumes again: "\<And>w. \<not> is_ok (fst (join_again S w))"
    and v: "verifier_ok c v" and run: "verify S (v, e) = (r, (v', e'))"
  shows "verifier_ok c v' \<and> (\<forall>ps. r = Ok (SuccessWithProposals ps) \<longrightarrow>
    (\<forall>p \<in> set ps. \<not> p_pending_confirmation p \<and> p_l2_blocks p \<noteq> [] \<and> proposal_ok c p))"
proof (cases "handle v")
  case None
  with v run show ?thesis
    by (auto simp: verify_def bind_def gets_def modify_def v_env_def zoom_def return_def
        start_verification_thread_def verifier_ok_def split: prod.splits outcome.splits option.splits)
next
  case (Some jh)
  obtain fr e1 where fin: "on_world (verifier_thread_finished S) e = (fr, e1)" by fastforce
  obtain jr e2 where join: "join_thread S jh e1 = (jr, e2)" by fastforce
  have ps: "\<not> p_pending_confirmation p \<and> p_l2_blocks p \<noteq> [] \<and> proposal_ok c p"
    if "jr = Ok (Inr ps)" "p \<in> set ps" for ps p
  proof (cases jh)
    case (Running t h)
    with Some v have inv: "binv True c None (proposal_builder (thread_manager t))"
      by (auto simp: verifier_ok_def thread_ok_def)
    from join that Running obtain x where
      "verify_submitted_blocks S (root_number t) (root_hash t) h (thread_manager t, e1) = (Ok ps, x)"
      by (auto simp: join_thread_def split: prod.splits outcome.splits)
    from verify_submitted_blocks_ok [OF inv this that(2)] show ?thesis .
  next
    case Joined
    with join that again [of "world e1"] show ?thesis
      by (auto simp: join_thread_def bind_def on_world_def zoom_def is_ok_iff split: prod.splits outcome.splits)
  qed
  have v'': "verifier_ok c (v\<lparr>handle := Some Joined\<rparr>)" using v by (simp add: verifier_ok_def)
  from run Some fin join ps v v'' show ?thesis
    by (auto simp: verify_def bind_def gets_def modify_def v_env_def zoom_def return_def
        split: prod.splits outcome.splits sum.splits if_splits)
qed

lemma keeps_has_verified:
  assumes again: "\<And>w. \<not> is_ok (fst (join_again S w))"
  shows "keeps (node_ok True c) (has_verified_unsent_proposals S)"
proof (rule tripleI)
  fix s r s'
  assume inv: "node_ok True c s" and run: "has_verified_unsent_proposals S s = (r, s')"
  obtain n e where s: "s = (n, e)" by fastforce
  show "node_ok True c s'"
  proof (cases "n_verifier n")
    case None
    with run inv s show ?thesis by (simp add: has_verified_unsent_proposals_def)
  next
    case (Some v)
    obtain vr v' e' where ver: "verify S (v, e) = (vr, (v', e'))" by (metis prod.collapse)
    have v: "verifier_ok c v" using inv s Some by (simp add: node_ok_def)
    from verify_ok [OF again v ver] have v': "verifier_ok c v'" by blast
    let ?n = "n\<lparr>n_verifier := None\<rparr>"
    have off: "node_ok True c (?n, e')" and on: "node_ok True c (n\<lparr>n_verifier := Some v'\<rparr>, e')"
      using inv s v' by (auto simp: node_ok_def)
    have re: "keeps (node_ok True c) (attempt (node_reanchor_blocks S block) (\<lambda>_. return True) shut_down)" for block
      by (intro keeps_rules)
    have pre: "node_ok True c s'"
      if "bind (n_mgr (m_prepend_proposals ps)) (\<lambda>_. return True) (?n, e') = (r, s')"
        "vr = Ok (SuccessWithProposals ps)" for ps
    proof -
      have "binv True c None (prepend_proposals ps (proposal_builder (n_manager n)))"
        using verify_ok [OF again v ver] that(2) inv s by (intro binv_prepend) (auto simp: node_ok_def)
      with that(1) show ?thesis
        by (auto simp: bind_def n_mgr_def m_prepend_proposals_def m_builder_def zoom_def modify_def return_def
            node_ok_def)
    qed
    from run s Some ver off on pre tripleD [OF re off] show ?thesis
      by (auto simp: has_verified_unsent_proposals_def Let_def split: outcome.splits verification_result.splits)
  qed
qed

lemma keeps_submit: "keeps (node_ok False c) (submit_proposal S st ctx)"
proof -
  have submit: "keeps (on_mgr (binv False c None)) (m_try_submit_oldest_proposal S full ts)" for full ts
  proof (rule tripleI)
    fix s r s'
    assume inv: "on_mgr (binv False c None) s" and run: "m_try_submit_oldest_proposal S full ts s = (r, s')"
    obtain g e where s: "s = (g, e)" by fastforce
    obtain r' b' w' where sub: "try_submit_oldest_proposal (send_proposal_to_l1 S) full ts
        (proposal_builder g, world e) = (r', (b', w'))" by (metis prod.collapse)
    have "builder_inv b'" using builder_inv_try_submit [OF _ sub] inv s by (simp add: binv_def)
    moreover have "bconfig b' = bconfig (proposal_builder g)"
      using sub by (auto simp: try_submit_oldest_proposal_def Let_def
          split: outcome.splits option.splits if_splits prod.splits)
    ultimately show "on_mgr (binv False c None) s'"
      using run sub inv s by (auto simp: m_try_submit_oldest_proposal_def m_submit_def zoom_def binv_def)
  qed
  have "keeps (node_ok False c) (case err of
      TxError transaction_error \<Rightarrow> handle_transaction_error S transaction_error | _ \<Rightarrow> raise err)" for err
    by (cases err; simp; intro keeps_rules)
  then show ?thesis
    unfolding submit_proposal_def by (intro keeps_rules keeps_n_mgr submit)
qed

text \<open>The step up to the submission: it keeps the invariant, and it reports a proposal as ready only when nothing is in flight.\<close>

lemma triple_before_submit:
  assumes again: "\<And>w. \<not> is_ok (fst (join_again S w))"
  shows "triple (node_ok False c) (before_submit S)
    (\<lambda>r s. node_ok False c s \<and> (\<forall>st ctx. r = Ok (st, ctx, Some True) \<longrightarrow> node_ok True c s))"
proof -
  let ?Q = "\<lambda>r s. node_ok False c s \<and> (\<forall>st ctx. r = Ok (st, ctx, Some True) \<longrightarrow> node_ok True c s)"
  have final: "triple (node_ok (\<not> prog) c)
      (if reanchored then return (st, ctx, None)
       else if submitter st \<and> \<not> prog
       then bind (has_verified_unsent_proposals S) (\<lambda>ready. return (st, ctx, Some ready))
       else return (st, ctx, Some False)) ?Q" for prog reanchored and st :: status and ctx
  proof -
    have "triple (node_ok True c)
        (bind (has_verified_unsent_proposals S) (\<lambda>ready. return (st, ctx, Some ready))) ?Q"
      by (intro triple_bind_keeps triple_return keeps_has_verified [OF again]) (auto intro: node_ok_weaken)
    then show ?thesis
      by (intro triple_if triple_return) (auto intro: node_ok_weaken)
  qed
  have rest: "triple (node_ok (\<not> prog) c)
      (bind (if preconfirmation_started st then start_stage S st info else return ()) (\<lambda>_.
       bind (if preconfer st \<and> driver_synced st then preconf_stage S st ctx pending else return False) (\<lambda>reanchored.
       if reanchored then return (st, ctx, None)
       else if submitter st \<and> \<not> prog
       then bind (has_verified_unsent_proposals S) (\<lambda>ready. return (st, ctx, Some ready))
       else return (st, ctx, Some False)))) ?Q" for prog st info ctx pending
    by (intro triple_bind_keeps keeps_if keeps_start_stage keeps_preconf_stage keeps_return final)
      (auto intro: node_ok_weaken)
  have "triple (node_ok False c) (bind (settle_stage S) (\<lambda>prog.
       bind (if preconfirmation_started st then start_stage S st info else return ()) (\<lambda>_.
       bind (if preconfer st \<and> driver_synced st then preconf_stage S st ctx pending else return False) (\<lambda>reanchored.
       if reanchored then return (st, ctx, None)
       else if submitter st \<and> \<not> prog
       then bind (has_verified_unsent_proposals S) (\<lambda>ready. return (st, ctx, Some ready))
       else return (st, ctx, Some False))))) ?Q" for st info ctx pending
    by (rule triple_bind [where R = "\<lambda>prog. node_ok (\<not> prog) c", OF triple_conseq [OF triple_settle] rest])
      (auto split: outcome.splits intro: node_ok_any)
  then show ?thesis
    unfolding before_submit_def Let_def
    by (intro triple_bind_keeps keeps_slot_info) (auto split: prod.splits)
qed

lemma keeps_main_step:
  assumes "\<And>w. \<not> is_ok (fst (join_again S w))"
  shows "keeps (node_ok False c) (main_step S)"
proof -
  have "keeps (node_ok False c) (before_submit S)"
    by (rule triple_conseq [OF triple_before_submit [OF assms]]) auto
  then show ?thesis
    unfolding main_step_def by (intro keeps_rules keeps_submit keeps_idle_stage)
qed

definition node_init :: "batch_builder_config \<Rightarrow> ('w, 'tx) nstate \<Rightarrow> bool" where
  "node_init c s \<longleftrightarrow> (\<exists>(S :: ('w, 'tx) services) cfg info w w'. node_new S cfg c info w = (Ok (fst s), w'))"

lemma node_ok_init: "node_init c s \<Longrightarrow> node_ok False c s"
  by (cases s) (auto simp: node_init_def node_new_def manager_new_def bind_Ok_iff map_err_Ok_iff return_def
      node_ok_def binv_new)

lemma node_ok_step:
  assumes "\<And>w. \<not> is_ok (fst (join_again S w))" "node_ok False c s" "node_step S s s'"
  shows "node_ok False c s'"
  using assms(3)
proof cases
  case (beat e n)
  have "keeps (node_ok False c) (heartbeat S)"
    unfolding heartbeat_def by (intro keeps_rules keeps_main_step [OF assms(1)])
  from tripleD [OF this assms(2) beat(3) [folded beat(1)]] show ?thesis .
next
  case (others e c' n w oc)
  with assms(2) show ?thesis by (simp add: node_ok_def)
qed

lemma node_ok_reach:
  assumes "\<And>w. \<not> is_ok (fst (join_again S w))"
  shows "reach (node_init c) (node_step S) s \<Longrightarrow> node_ok False c s"
  by (induction rule: reach.induct) (auto intro: node_ok_init node_ok_step [OF assms])

section \<open>What the node promises\<close>

text \<open>
  C1: The running node keeps its proposals in order. In every state the process can reach,
  whatever the services answer and however other tasks interleave: at most one proposal is in
  flight and it is the front of the queue, the proposal under construction is not in flight, no
  queued proposal is empty, and no proposal exceeds the limits on blocks and forced inclusions.
  The hypothesis is that a join handle does not give a result twice.
\<close>
theorem node_single_flight:
  assumes "\<And>w. \<not> is_ok (fst (join_again S w))" "reach (node_init c) (node_step S) (n, e)"
  shows "(\<forall>i. 0 < i \<longrightarrow> i < length (proposals (queue (proposal_builder (n_manager n)))) \<longrightarrow>
      \<not> p_pending_confirmation (proposals (queue (proposal_builder (n_manager n))) ! i)) \<and>
    (\<forall>p. current_proposal (proposal_builder (n_manager n)) = Some p \<longrightarrow> \<not> p_pending_confirmation p) \<and>
    (\<forall>p \<in> set (proposals (queue (proposal_builder (n_manager n)))). p_l2_blocks p \<noteq> []) \<and>
    (\<forall>p \<in> set (planned (proposal_builder (n_manager n))).
       length (p_l2_blocks p) \<le> max 1 (unat (max_blocks_per_batch c)) \<and>
       p_num_forced_inclusion p \<le> max_forced_inclusions c)"
proof -
  let ?b = "proposal_builder (n_manager n)"
  from node_ok_reach [OF assms] have inv: "builder_inv ?b" and c: "bconfig ?b = c"
    by (auto simp: node_ok_def binv_def)
  have "\<not> p_pending_confirmation (proposals (queue ?b) ! i)" if "0 < i" "i < length (proposals (queue ?b))" for i
  proof -
    from that have "tl (proposals (queue ?b)) ! (i - 1) \<in> set (tl (proposals (queue ?b)))"
      by (intro nth_mem) simp
    moreover from that have "tl (proposals (queue ?b)) ! (i - 1) = proposals (queue ?b) ! i"
      by (simp add: nth_tl)
    ultimately show ?thesis using inv by (auto simp: builder_inv_def)
  qed
  with inv c show ?thesis by (auto simp: builder_inv_def proposal_ok_def)
qed

lemma try_submit_quiet:
  assumes "builder_inv b" "quiet b" "try_submit_oldest_proposal send only_full ts (b, w) = (Err x, s)"
  shows "\<exists>blocks k. fst (send blocks k w) = Err x"
proof -
  define b1 where "b1 = (if submit_due only_full ts b = Ok True then finalize_current_proposal b else b)"
  have "quiet b1" using assms(1,2) quiet_finalize by (auto simp: b1_def)
  then have front: "\<not> p_pending_confirmation p" if "queue_front (queue b1) = Some p" for p
    using that by (auto simp: quiet_def queue_front_def split: list.splits)
  have due: "\<exists>d. submit_due only_full ts b = Ok d"
    using assms(3) by (auto simp: try_submit_oldest_proposal_def submit_due_def Let_def and_then_Err_iff
        split: outcome.splits option.splits)
  from due assms(3) front show ?thesis
    by (auto simp: try_submit_oldest_proposal_def b1_def Let_def split: outcome.splits option.splits if_splits prod.splits)
      (metis fst_conv)+
qed

text \<open>
  C12: The node never trips over its own transaction. In every reachable state, if the step gets as
  far as submitting the oldest proposal, then no queued proposal is in flight, also after the
  verifier has put recovered proposals in front; so an error of the submission is an error of
  sending to L1 and never the refusal of a proposal that is pending confirmation.
\<close>
theorem submission_finds_nothing_in_flight:
  assumes "\<And>w. \<not> is_ok (fst (join_again S w))" "reach (node_init c) (node_step S) (n, e)"
    and "before_submit S (n, e) = (Ok (st, ctx, Some True), (n', e'))"
  shows "(\<forall>p \<in> set (proposals (queue (proposal_builder (n_manager n')))). \<not> p_pending_confirmation p) \<and>
    (\<forall>x s. m_try_submit_oldest_proposal S (preconfer st) (slot_timestamp (slot_info ctx)) (n_manager n', e') =
        (Err x, s) \<longrightarrow> (\<exists>blocks k. fst (send_proposal_to_l1 S blocks k (world e')) = Err x))"
proof -
  from tripleD [OF triple_before_submit [OF assms(1)] node_ok_reach [OF assms(1,2)] assms(3)]
  have inv: "builder_inv (proposal_builder (n_manager n'))" "quiet (proposal_builder (n_manager n'))"
    by (auto simp: node_ok_def binv_def)
  moreover have "\<exists>blocks k. fst (send_proposal_to_l1 S blocks k (world e')) = Err x"
    if "m_try_submit_oldest_proposal S f ts (n_manager n', e') = (Err x, s)" for f ts x s
    using that try_submit_quiet [OF inv, of "send_proposal_to_l1 S" f ts "world e'" x]
    by (auto simp: m_try_submit_oldest_proposal_def m_submit_def zoom_def split: prod.splits)
  ultimately show ?thesis by (auto simp: quiet_def)
qed

lemma cancelled_shut_down: "shut_down x (n, e) = (Err x, (n, e\<lparr>cancelled := True\<rparr>))"
  by (simp add: shut_down_def n_env_def zoom_def bind_def raise_def cancel_on_critical_error_def modify_def)

text \<open>Facts about the other fields of the node.\<close>

abbreviation on_node :: "('tx node \<Rightarrow> bool) \<Rightarrow> ('w, 'tx) nstate \<Rightarrow> bool" where
  "on_node P \<equiv> (\<lambda>(n, _). P n)"

lemma keeps_on_node [keeps_rules]:
  "keeps (on_node P) (n_env m)" "keeps (on_node P) (n_world m')" "keeps (on_node P) (n_get f)"
  by (auto simp: n_world_def n_env_def n_get_def triple_def zoom_def gets_def split: prod.splits)

lemma keeps_on_node_mgr:
  "(\<And>n g. P n \<Longrightarrow> P (n\<lparr>n_manager := g\<rparr>)) \<Longrightarrow> keeps (on_node P) (n_mgr m)"
  by (auto simp: n_mgr_def triple_def zoom_def split: prod.splits)

lemma keeps_on_node_set: "(\<And>n. P n \<Longrightarrow> P (f n)) \<Longrightarrow> keeps (on_node P) (n_set f)"
  unfolding n_set_def by (rule keeps_modify) auto

lemma keeps_on_node_shut_down [keeps_rules]: "keeps (on_node P) (shut_down x)"
  unfolding shut_down_def by (intro keeps_rules)

lemma reanchor_no_verifier:
  assumes "node_reanchor_blocks S h s = (Ok (), (n, e))"
  shows "n_verifier n = None"
proof -
  obtain n0 e0 where s: "s = (n0, e0)" by fastforce
  have "triple (\<lambda>_. True) (node_reanchor_blocks S h) (\<lambda>_. on_node (\<lambda>n. n_verifier n = None))"
    unfolding node_reanchor_blocks_def
    by (rule triple_bind [where R = "\<lambda>_. on_node (\<lambda>n. n_verifier n = None)"],
        simp add: triple_def n_set_def modify_def)
      (intro keeps_rules keeps_on_node_mgr keeps_on_node_set; simp)
  from tripleD [OF this _ assms] show ?thesis by simp
qed


lemma keeps_operator_settle: "keeps (on_node (\<lambda>n. n_operator n = p)) (settle_stage S)"
proof -
  let ?I = "on_node (\<lambda>n. n_operator n = p)"
  have re: "keeps ?I (node_reanchor_blocks S h)" for h
    unfolding node_reanchor_blocks_def by (intro keeps_rules keeps_on_node_mgr keeps_on_node_set; simp)
  have err: "keeps ?I (handle_transaction_error S x)" for x
    unfolding handle_transaction_error_def by (cases x; simp; intro keeps_rules re)
  have "keeps ?I (case r of
       Received x \<Rightarrow> bind (handle_transaction_error S x) (\<lambda>_. return True)
     | ChannelEmpty \<Rightarrow> return False
     | Disconnected \<Rightarrow> shut_down (Anyhow ''Transaction error channel disconnected''))" for r
    by (cases r; simp; intro keeps_rules err)
  then show ?thesis
    unfolding settle_stage_def check_transaction_error_channel_def
    by (intro keeps_rules keeps_on_node_mgr; simp)
qed

abbreviation if_ok :: "('a \<Rightarrow> 's \<Rightarrow> bool) \<Rightarrow> 'a outcome \<Rightarrow> 's \<Rightarrow> bool" where
  "if_ok Q \<equiv> (\<lambda>r s. \<forall>a. r = Ok a \<longrightarrow> Q a s)"

lemma triple_bind_ok:
  assumes "triple P m (if_ok R)" "\<And>a. triple (R a) (f a) (if_ok Q)"
  shows "triple P (bind m f) (if_ok Q)"
  using assms by (fastforce simp: triple_def bind_def split: prod.splits outcome.splits)

lemma triple_keeps_ok:
  assumes "keeps I m" "\<And>a. triple I (f a) (if_ok Q)"
  shows "triple I (bind m f) (if_ok Q)"
  by (rule triple_bind_ok [where R = "\<lambda>_. I"]) (use assms in \<open>auto simp: triple_def\<close>)

lemma slot_info_status:
  fixes S :: "('w, 'tx) services" and e :: "'w env"
  assumes "get_slot_info_and_status S (n, e) = (Ok (info, st, pending), (n', e'))"
  shows "\<exists>e1 p e2. get_status S info (n_operator n, e1) = (Ok st, (p, e2)) \<and> n' = n\<lparr>n_operator := p\<rparr>"
proof -
  let ?Q = "\<lambda>si cs (k, _ :: 'w env). \<forall>info st. si = Inr info \<and> cs = Inr st \<longrightarrow>
    (\<exists>e1 p e2. get_status S info (n_operator n, e1) = (Ok st, (p, e2)) \<and> k = n\<lparr>n_operator := p\<rparr>)"
  have 1: "triple (on_node (\<lambda>k. k = n)) (case si of Inr info \<Rightarrow> try_run (n_op (get_status S info))
           | Inl _ \<Rightarrow> return (Inl (Anyhow ''Failed to get L2 slot info''))) (if_ok (?Q si))" for si :: "error + l2_slot_info"
    by (cases si; auto simp: triple_def return_def try_run_def attempt_def n_op_def zoom_def
        split: prod.splits outcome.splits; blast)
  have 2: "triple (?Q si cs) (bind (lift (unwrap si)) (\<lambda>info. bind (lift (unwrap cs)) (\<lambda>st.
     bind (lift (unwrap pe)) (\<lambda>pending. return (info, st, pending)))))
     (if_ok (\<lambda>(info, st, _). ?Q (Inr info) (Inr st)))"
    for si cs and pe :: "error + 'tx pre_built_tx_list option"
    by (cases si; cases cs; cases pe) (auto simp: triple_def return_def bind_def lift_def)
  have "triple (on_node (\<lambda>k. k = n)) (get_slot_info_and_status S) (if_ok (\<lambda>(info, st, _). ?Q (Inr info) (Inr st)))"
    unfolding get_slot_info_and_status_def print_current_slots_info_def
    by (rule triple_keeps_ok [OF _ triple_bind_ok [OF 1]]; intro keeps_rules triple_keeps_ok 2)
  from tripleD [OF this _ assms] show ?thesis by simp
qed

text \<open>
  A lost start slot. The operator marks the turn as started when it reports the status of its
  first slot. If the step then fails to read the forced inclusion state of the inbox, the error is
  only counted by the watchdog: the token is not cancelled, the verifier for the blocks of the
  previous operator is not created, and no later status of the same turn reports a start slot again,
  so that the work of the start slot is never made up for.
\<close>
lemma start_slot_lost:
  fixes S :: "('w, 'tx) services"
  assumes "get_slot_info_and_status S (n, e) = (Ok (info, st, pending), s1)" "preconfirmation_started st"
    and "settle_stage S s1 = (Ok b, (n2, e2))"
    and "get_inbox_forced_inclusion_state S (world e2) = (Err x, w)"
    and "main_step S (n, e) = (r, (n', e'))"
  shows "r = Err x \<and> n_verifier n' = n_verifier n2 \<and> n_manager n' = n_manager n2 \<and> cancelled e' = cancelled e2 \<and>
    (\<forall>sts p j. status_run S (n_operator n') sts p \<longrightarrow> j < length sts \<longrightarrow>
       preconfirmation_started (sts ! j) \<longrightarrow> (\<exists>k < j. \<not> preconfer (sts ! k)))"
proof -
  obtain n1 e1 where s1: "s1 = (n1, e1)" by fastforce
  have step: "r = Err x" "n' = n2\<lparr>n_head := head_set (parent_id info) (parent_hash info) (n_head n2)\<rparr>"
    "e' = e2\<lparr>world := w\<rparr>"
    using assms by (auto simp: main_step_def before_submit_def bind_def Let_def start_stage_def n_set_def
        modify_def n_world_def n_env_def on_world_def zoom_def)
  from slot_info_status assms(1) s1 obtain e3 p e4
    where st: "get_status S info (n_operator n, e3) = (Ok st, (p, e4))" and p: "n_operator n1 = p"
    by fastforce
  from get_status_synced [OF st] assms(2) have "was_synced_preconfer p" by simp
  moreover from tripleD [OF keeps_operator_settle _ assms(3), of p] p s1 have "n_operator n2 = p" by simp
  ultimately have "was_synced_preconfer (n_operator n')" by (simp add: step)
  then show ?thesis
    using step started_right_after status_run_started_right by fastforce
qed

lemma reset_builder_empty:
  "reset_builder S (g, e) = (Ok (), (g', e')) \<Longrightarrow>
   \<not> has_proposals g' \<and> \<not> has_current_forced_inclusion (proposal_builder g')"
  by (auto simp: reset_builder_def bind_Ok_iff m_builder_def zoom_def modify_def has_proposals_def
      builder_is_empty_def builder_new_def queue_is_empty_def queue_new_def has_current_forced_inclusion_def
      split: prod.splits)

text \<open>
  A node that is not on duty keeps nothing. When a step completes in a slot in which the node is
  neither preconfer nor submitter, no proposal is left in the builder, neither queued nor under
  construction, and no verifier is left.
\<close>
lemma off_duty_node_is_empty:
  fixes S :: "('w, 'tx) services"
  assumes "get_slot_info_and_status S (n, e) = (Ok (info, st, pending), s1)"
    and "\<not> submitter st" "\<not> preconfer st"
    and "main_step S (n, e) = (Ok (), (n', e'))"
  shows "builder_is_empty (proposal_builder (n_manager n')) \<and>
    planned (proposal_builder (n_manager n')) = [] \<and> n_verifier n' = None"
proof -
  obtain n1 e1 where s1: "s1 = (n1, e1)" by fastforce
  from slot_info_status assms(1) s1 obtain e3 p e4
    where "get_status S info (n_operator n, e3) = (Ok st, (p, e4))" by fastforce
  from get_status_synced [OF this] assms(3) have "\<not> preconfirmation_started st" by simp
  with assms obtain n2 e2 where "idle_stage S st (n2, e2) = (Ok (), (n', e'))"
    by (auto simp: main_step_def before_submit_def bind_Ok_iff Let_def return_def)
  with assms(2,3) have "\<not> has_proposals (n_manager n') \<and> n_verifier n' = None"
    by (auto simp: idle_stage_def bind_Ok_iff n_get_def n_set_def gets_def modify_def return_def n_mgr_def zoom_def
        dest: reset_builder_empty split: if_splits prod.splits)
  then show ?thesis
    by (auto simp: has_proposals_def builder_is_empty_def planned_def queue_is_empty_def)
qed

section \<open>A node at work\<close>

text \<open>Concrete data: a chain of ten blocks, all proposed, and a node whose turn it is.\<close>

definition demo_node_services :: "(unit, nat) services" where
  "demo_node_services = demo_services\<lparr>
     l2_provider := demo_provider\<lparr>get_block := (\<lambda>tag full. return (Some (case tag of
       Number n \<Rightarrow> (demo_block n)\<lparr>rb_timestamp := 1606825211 + n, rb_transactions := Some [unat n, 3]\<rparr>
     | _ \<Rightarrow> (demo_block 10)\<lparr>rb_timestamp := 1606825221\<rparr>)))\<rparr>,
     l1_provider := demo_provider\<lparr>get_block :=
       (\<lambda>tag full. return (Some ((demo_block 10)\<lparr>rb_timestamp := 1606825223\<rparr>)))\<rparr>,
     last_certain_block_id := (\<lambda>pid. return (Some 10)),
     pending_tx_list := (\<lambda>fee gas bytes.
       return (Some \<lparr>tx_list = [5], estimated_gas_used = 0, bytes_length = 10\<rparr>))\<rparr>"

definition demo_node :: "nat node" where
  "demo_node = \<lparr>n_watchdog = watchdog_new 10, n_operator = demo_operator,
     n_manager = \<lparr>proposal_builder = builder_new demo_config mainnet_clock, fi_index = 3, l1_height_lag = 2,
       min_anchor_offset = 1, max_blocks_to_reanchor = 8, propose_forced_inclusion = True\<rparr>,
     n_verifier = None, n_head = head_verifier_new\<rparr>"

lemmas node_eval = status_eval chain_eval demo_operator_defs demo_node_services_def demo_node_def
  main_step_def before_submit_def get_slot_info_and_status_def print_current_slots_info_def settle_stage_def
  start_stage_def preconf_stage_def has_verified_unsent_proposals_def submit_proposal_def idle_stage_def
  check_transaction_error_channel_def check_for_missing_sent_proposals_def get_current_protocol_height_def
  verify_preconfed_block_def n_env_def n_world_def n_mgr_def n_op_def n_get_def n_set_def n_headv_def
  get_l2_slot_info_def get_l2_slot_info_by_parent_block_def get_base_fee_def clamp_def
  get_block_info_by_number_def get_pending_l2_tx_list_from_l2_engine_def calculate_max_bytes_per_tx_list_def
  get_number_of_proposals_ready_to_send_def get_number_of_proposals_def queue_len_def
  get_epoch_from_slot_def get_current_l2_slot_within_l1_slot_def is_transaction_in_progress_def try_run_def
  which_l2_slot_is_it_def heartbeat_def n_watch_def watchdog_new_def watchdog_reset_def
  head_verifier_new_def head_set_def remove_confirmed_proposal_def queue_remove_confirmed_def finder_get_def
  finder_get_impl_def find_last_block_for_proposal_id_def get_inbox_state_def
  get_inbox_forced_inclusion_state_def get_latest_l2_block_id_def get_latest_block_id_def
  calculate_current_fi_head_def set_fi_head_def head_verify_def m_should_new_block_be_created_def
  preconfirm_block_def add_new_l2_block_def advance_head_to_new_l2_block_def
  get_last_certain_block_id_by_proposal_id_def get_block_with_txs_def get_account_nonce_def
  anchor_from_block_number_def anchor_from_chain_state_def get_preconfer_nonce_pending_def
  get_preconfer_nonce_latest_def send_proposal_to_l1_def get_activation_timestamp_def
  get_forced_inclusion_tail_def u48_from_def get_forced_inclusion_def
  get_inbox_state_when_timestamp_reached_def get_inbox_next_proposal_id_def get_proposal_id_from_geth_def
  get_last_synced_proposal_id_from_geth_def get_proposal_id_from_geth_by_block_id_def
  get_latest_block_id_and_proposal_id_def get_anchor_transaction_input_def get_anchor_block_id_from_geth_def
  get_head_l1_origin_def decode_block_params_from_tx_data_def get_block_params_from_geth_def
  construct_anchor_tx_def fetch_l2_blocks_until_latest_def verify_next_and_set_def watchdog_increment_def
  watchdog_beat_def forced_inclusion_new_def extract_transactions_from_blob_bytes_def
  decode_current_forced_inclusion_def increment_index_def consume_forced_inclusion_def
  release_forced_inclusion_def clear_cache_def get_when_timestamp_reached_def m_submit_def
  m_try_submit_oldest_proposal_def add_draft_block_to_proposal_def
  add_new_l2_block_with_forced_inclusion_when_needed_def get_next_proposal_id_def m_create_new_proposal_def
  manager_new_def has_proposals_def m_prepend_proposals_def extract_block_transactions_def
  prepare_reanchor_slot_info_def get_l2_slot_info_for_reanchor_def reanchor_block_def reanchor_blocks_def
  demo_ctx_def demo_txs_def can_add_forced_inclusion_def add_fi_block_def
  get_current_proposal_last_block_timestamp_def remove_last_l2_block_def inc_forced_inclusion_def
  builder_is_empty_def mark_not_confirmed_proposal_to_resubmit_def submit_due_def
  try_submit_oldest_proposal_def is_time_shift_between_blocks_expiring_def
  is_greater_than_max_anchor_height_offset_def is_empty_block_required_def prepend_proposals_def
  get_current_proposal_id_def decrease_forced_inclusion_count_def should_new_block_be_created_def
  has_current_forced_inclusion_def planned_def all_blocks_def current_blocks_def room_def demo_forced_def
  block_manifest_of_def proposal_add_forced_inclusion_def last_block_timestamp_def
  proposal_remove_last_l2_block_def proposal_inc_forced_inclusion_def proposal_dec_forced_inclusion_def
  proposal_is_empty_def has_forced_inclusion_def queue_is_empty_def queue_mark_front_for_resubmit_def
  queue_prepend_def queue_front_def queue_set_front_def pre_built_empty_def empty_with_tx_list_def
  push_tx_def l2_block_new_empty_def calculate_anchor_block_id_def slot_info_new_from_other_def
  is_last_slot_for_empty_block_def to_be_bytes_def MAX_PROPOSAL_ID_def encode_def or_value_def node_new_def

lemmas checked_iffs = add_Ok_iff sub_Ok_iff mul_Ok_iff add_Panic_iff sub_Panic_iff rem_chk_Ok_iff div_chk_Ok_iff
  checked_sub_Some_iff checked_sub_None_iff unat_saturating_sub

lemma demo_node_init: "node_init demo_config (demo_node, e :: unit env)"
  unfolding node_init_def
  by (rule exI [of _ demo_node_services], rule exI [of _ "\<lparr>nc_handover_window_slots = 4,
        nc_handover_start_buffer_ms = 6000, nc_ejection_grace_period_sec = 25, nc_l1_height_lag = 2,
        nc_min_anchor_offset = 1, nc_propose_forced_inclusion = True,
        nc_simulate_not_submitting_at_the_end_of_epoch = False, nc_max_blocks_to_reanchor = 8,
        nc_watchdog_max_counter = 10\<rparr>"],
      rule exI [of _ "op_fork_info demo_operator"])
    (simp add: node_eval del: checked_iffs)

lemma demo_node_reach: "reach (node_init demo_config) (node_step S) (demo_node, e :: unit env)"
  by (rule reach.start) (rule demo_node_init)

lemma demo_join: "\<not> is_ok (fst (join_again demo_node_services w))"
  by (simp add: demo_node_services_def demo_services_def lift_def)

theorem node_single_flight_witness:
  "\<exists>n e p. reach (node_init demo_config) (node_step demo_node_services) (n, e) \<and>
     current_proposal (proposal_builder (n_manager n)) = Some p \<and> p_num_forced_inclusion p = 1 \<and>
     \<not> p_pending_confirmation p"
proof -
  obtain n e p where beat: "heartbeat demo_node_services (demo_node, fresh_env ()) = (Ok (), (n, e))"
    and p: "current_proposal (proposal_builder (n_manager n)) = Some p" "p_num_forced_inclusion p = 1"
    by (simp add: node_eval del: checked_iffs)
  have r: "reach (node_init demo_config) (node_step demo_node_services) (n, e)"
    by (rule reach.move [OF demo_node_reach node_step.beat [OF _ beat]]) simp
  from node_single_flight [OF demo_join r] p r show ?thesis by blast
qed

theorem submission_finds_nothing_in_flight_witness:
  "\<exists>st ctx n' e'. before_submit demo_node_services (demo_node, fresh_env ()) = (Ok (st, ctx, Some True), (n', e')) \<and>
     (\<forall>p \<in> set (proposals (queue (proposal_builder (n_manager n')))). \<not> p_pending_confirmation p)"
proof -
  obtain st ctx n' e' where run: "before_submit demo_node_services (demo_node, fresh_env ()) =
      (Ok (st, ctx, Some True), (n', e'))"
    by (simp add: node_eval del: checked_iffs)
  from submission_finds_nothing_in_flight [OF demo_join demo_node_reach run] run
  show ?thesis by blast
qed


end
