(* ===== verification/Runs.thy ===== *)
theory Runs
  imports Prelude
begin

text \<open>
  Actions that may never return. A \<open>run\<close> is an action with \<^term>\<open>None\<close> for a call that waits forever.
  The only source of that are polling loops (\<open>poll\<close>): ask, and if there is no answer yet, sleep and
  ask again. The section gives a rule for partial correctness of a polling loop and the exact
  condition under which it returns.
\<close>

type_synonym ('s, 'a) run = "'s \<Rightarrow> ('a outcome \<times> 's) option"

definition once :: "('s, 'a) action \<Rightarrow> ('s, 'a) run" where
  "once m s = Some (m s)"

definition then_run :: "('s, 'a) run \<Rightarrow> ('a \<Rightarrow> ('s, 'b) run) \<Rightarrow> ('s, 'b) run" where
  "then_run m f s = (case m s of
      None \<Rightarrow> None
    | Some (Ok a, t) \<Rightarrow> f a t
    | Some (Err e, t) \<Rightarrow> Some (Err e, t)
    | Some (Panic, t) \<Rightarrow> Some (Panic, t))"

lemma once_Some [simp]: "once m s = Some y \<longleftrightarrow> m s = y"
  by (auto simp: once_def)

lemma then_once: "then_run (once m) f s = (case m s of
    (Ok a, t) \<Rightarrow> f a t | (Err e, t) \<Rightarrow> Some (Err e, t) | (Panic, t) \<Rightarrow> Some (Panic, t))"
  by (simp add: then_run_def once_def split: prod.splits outcome.splits)

lemma then_run_Ok_iff:
  "then_run m f s = Some (Ok b, t) \<longleftrightarrow> (\<exists>a s'. m s = Some (Ok a, s') \<and> f a s' = Some (Ok b, t))"
  by (auto simp: then_run_def split: option.splits prod.splits outcome.splits)

partial_function (option) poll :: "('s, 'a option) action \<Rightarrow> ('s \<Rightarrow> 's) \<Rightarrow> ('s, 'a) run" where
  "poll ask sleep s = (case ask s of
      (Ok answer, t) \<Rightarrow> (case answer of
          Some a \<Rightarrow> Some (Ok a, t)
        | None \<Rightarrow> poll ask sleep (sleep t))
    | (Err e, t) \<Rightarrow> Some (Err e, t)
    | (Panic, t) \<Rightarrow> Some (Panic, t))"

declare poll.simps [code]

text \<open>For evaluation: a rewrite rule that unfolds one round only.\<close>

definition poll_later :: "('s, 'a option) action \<Rightarrow> ('s \<Rightarrow> 's) \<Rightarrow> ('s, 'a) run" where
  "poll_later = poll"

lemma poll_unfold:
  "poll ask sleep s = (case ask s of
      (Ok answer, t) \<Rightarrow> (case answer of
          Some a \<Rightarrow> Some (Ok a, t)
        | None \<Rightarrow> poll_later ask sleep (sleep t))
    | (Err e, t) \<Rightarrow> Some (Err e, t)
    | (Panic, t) \<Rightarrow> Some (Panic, t))"
  unfolding poll_later_def by (rule poll.simps)

section \<open>Partial correctness\<close>

definition after :: "('s \<Rightarrow> bool) \<Rightarrow> ('s, 'a) run \<Rightarrow> ('a outcome \<Rightarrow> 's \<Rightarrow> bool) \<Rightarrow> bool" where
  "after P m Q \<longleftrightarrow> (\<forall>s r t. P s \<longrightarrow> m s = Some (r, t) \<longrightarrow> Q r t)"

lemma afterD: "after P m Q \<Longrightarrow> P s \<Longrightarrow> m s = Some (r, t) \<Longrightarrow> Q r t"
  by (auto simp: after_def)

lemma afterI: "(\<And>s r t. P s \<Longrightarrow> m s = Some (r, t) \<Longrightarrow> Q r t) \<Longrightarrow> after P m Q"
  by (auto simp: after_def)

lemma after_once: "triple P m Q \<Longrightarrow> after P (once m) Q"
  by (auto simp: after_def once_def triple_def)

lemma after_then:
  assumes "after P m (\<lambda>r s. case r of Ok a \<Rightarrow> R a s | Err e \<Rightarrow> Q (Err e) s | Panic \<Rightarrow> Q Panic s)"
    and "\<And>a. after (R a) (f a) Q"
  shows "after P (then_run m f) Q"
  using assms unfolding after_def then_run_def
  by (fastforce split: option.splits prod.splits outcome.splits)

lemma after_then_all:
  assumes "after P m (\<lambda>_. R)" "\<And>a. after R (f a) (\<lambda>_. Q)" "\<And>s. R s \<Longrightarrow> Q s"
  shows "after P (then_run m f) (\<lambda>_. Q)"
  by (rule after_then [where R = "\<lambda>_. R"]) (use assms in \<open>auto simp: after_def split: outcome.splits\<close>)

lemma after_once_keeps:
  assumes "keeps I m" "\<And>s. I s \<Longrightarrow> Q s"
  shows "after I (once m) (\<lambda>_. Q)"
  using assms by (auto simp: after_def once_def triple_def)

lemma after_option:
  assumes "x = None \<Longrightarrow> after P m Q" "\<And>a. x = Some a \<Longrightarrow> after P (f a) Q"
  shows "after P (case x of None \<Rightarrow> m | Some a \<Rightarrow> f a) Q"
  using assms by (cases x) auto

lemma after_pre: "after P m Q \<Longrightarrow> (\<And>s. P' s \<Longrightarrow> P s) \<Longrightarrow> after P' m Q"
  by (auto simp: after_def)

lemma after_post: "after P m Q \<Longrightarrow> (\<And>r s. Q r s \<Longrightarrow> Q' r s) \<Longrightarrow> after P m Q'"
  by (auto simp: after_def)

lemma after_poll:
  assumes "triple P ask (\<lambda>r t. case r of
      Ok (Some a) \<Rightarrow> Q (Ok a) t | Ok None \<Rightarrow> P (sleep t) | Err e \<Rightarrow> Q (Err e) t | Panic \<Rightarrow> Q Panic t)"
  shows "after P (poll ask sleep) Q"
proof (rule afterI)
  fix s r t
  assume "P s" "poll ask sleep s = Some (r, t)"
  from this(2) assms this(1) show "Q r t"
  proof (induction ask sleep s "(r, t)" arbitrary: r t rule: poll.raw_induct [rotated, consumes 1, case_names round])
    case (round f ask sleep s r t)
    obtain r' t' where ask: "ask s = (r', t')" by fastforce
    note post = tripleD [OF round.prems(1,2) ask]
    show ?case
    proof (cases "r' = Ok None")
      case True
      with post round.hyps(2) ask round.hyps(1) [OF _ round.prems(1)] show ?thesis by simp
    next
      case False
      with post round.hyps(2) ask show ?thesis by (auto split: outcome.splits option.splits)
    qed
  qed
qed

section \<open>Termination\<close>

primrec polled :: "('s, 'a option) action \<Rightarrow> ('s \<Rightarrow> 's) \<Rightarrow> nat \<Rightarrow> 's \<Rightarrow> 's" where
  "polled ask sleep 0 s = s"
| "polled ask sleep (Suc k) s = polled ask sleep k (sleep (snd (ask s)))"

lemma poll_returns_iff:
  "poll ask sleep s \<noteq> None \<longleftrightarrow> (\<exists>k. fst (ask (polled ask sleep k s)) \<noteq> Ok None)"
proof
  assume "poll ask sleep s \<noteq> None"
  then obtain y where "poll ask sleep s = Some y" by blast
  then show "\<exists>k. fst (ask (polled ask sleep k s)) \<noteq> Ok None"
  proof (induction ask sleep s y rule: poll.raw_induct [rotated, consumes 1, case_names round])
    case (round f ask sleep s y)
    show ?case
    proof (cases "fst (ask s) = Ok None")
      case True
      then obtain t where t: "ask s = (Ok None, t)" by (metis prod.collapse)
      with round obtain k where "fst (ask (polled ask sleep k (sleep t))) \<noteq> Ok None" by fastforce
      with t show ?thesis by (intro exI [of _ "Suc k"]) simp
    qed (auto intro: exI [of _ 0])
  qed
next
  assume "\<exists>k. fst (ask (polled ask sleep k s)) \<noteq> Ok None"
  then obtain k where "fst (ask (polled ask sleep k s)) \<noteq> Ok None" by blast
  then show "poll ask sleep s \<noteq> None"
  proof (induction k arbitrary: s)
    case 0
    then show ?case by (subst poll.simps) (auto split: prod.splits outcome.splits option.splits)
  next
    case (Suc k)
    then show ?case by (subst poll.simps) (fastforce split: prod.splits outcome.splits option.splits)
  qed
qed

lemma poll_Ok:
  assumes "poll ask sleep s = Some (Ok a, t)"
  shows "\<exists>k. ask (polled ask sleep k s) = (Ok (Some a), t)"
  using assms
proof (induction ask sleep s "(Ok a, t)" rule: poll.raw_induct [rotated, consumes 1, case_names round])
  case (round f ask sleep s)
  show ?case
  proof (cases "fst (ask s) = Ok None")
    case True
    then obtain u where u: "ask s = (Ok None, u)" by (metis prod.collapse)
    with round obtain k where "ask (polled ask sleep k (sleep u)) = (Ok (Some a), t)" by fastforce
    with u show ?thesis by (intro exI [of _ "Suc k"]) simp
  next
    case False
    with round.hyps(2) show ?thesis
      by (intro exI [of _ 0]) (auto split: prod.splits outcome.splits option.splits)
  qed
qed

lemma poll_returns:
  assumes "I s" "\<And>s t. I s \<Longrightarrow> ask s = (Ok None, t) \<Longrightarrow> I (sleep t) \<and> mu (sleep t) < (mu s :: nat)"
  shows "poll ask sleep s \<noteq> None"
  using assms(1)
proof (induction "mu s" arbitrary: s rule: less_induct)
  case less
  then show ?case
    using assms(2) by (subst poll.simps) (auto split: prod.splits outcome.splits option.splits)
qed

named_theorems returns_rules

definition returns :: "('s, 'a) run \<Rightarrow> bool" where
  "returns m \<longleftrightarrow> (\<forall>s. m s \<noteq> None)"

lemma returnsD: "returns m \<Longrightarrow> \<exists>r t. m s = Some (r, t)"
  by (auto simp: returns_def)

lemma returns_once [returns_rules]: "returns (once m)"
  by (simp add: returns_def once_def)

lemma returns_then [returns_rules]: "returns m \<Longrightarrow> (\<And>a. returns (f a)) \<Longrightarrow> returns (then_run m f)"
  by (auto simp: returns_def then_run_def split: option.splits prod.splits outcome.splits)

lemma returns_if [returns_rules]: "returns m \<Longrightarrow> returns n \<Longrightarrow> returns (if b then m else n)"
  by simp

lemma returns_option [returns_rules]:
  "returns m \<Longrightarrow> (\<And>a. returns (f a)) \<Longrightarrow> returns (case x of None \<Rightarrow> m | Some a \<Rightarrow> f a)"
  by (cases x) auto

lemma returns_prod [returns_rules]: "(\<And>a b. returns (f a b)) \<Longrightarrow> returns (case x of (a, b) \<Rightarrow> f a b)"
  by (cases x) auto

lemma returns_poll:
  assumes "\<And>s t. ask s = (Ok None, t) \<Longrightarrow> mu (sleep t) < (mu s :: nat)"
  shows "returns (poll ask sleep)"
  unfolding returns_def by (intro allI poll_returns [where I = "\<lambda>_. True" and mu = mu]) (use assms in auto)

end
