(* ===== verification/Startup.thy ===== *)
theory Startup
  imports Shasta_Node Runs
begin

text \<open>
  The start of the node, \<open>entrypoint\<close> and \<open>warmup\<close> of \<^verbatim>\<open>src/shasta/src/node/mod.rs\<close>: three polling loops, one after
  the other, before the main loop is started. \<open>sleep d\<close> is what happens to the world while the
  node sleeps for \<open>d\<close>.
\<close>

definition get_next_proposal_id_l1_l2 :: "('w, 'tx) services \<Rightarrow> ('w, u64 \<times> u64) action" where
  "get_next_proposal_id_l1_l2 S =
     bind (get_inbox_next_proposal_id S) (\<lambda>l1_proposal_id.
     bind (or_value (get_last_synced_proposal_id_from_geth S) 0) (\<lambda>last.
     bind (lift (add last 1)) (\<lambda>l2_proposal_id.
     return (l1_proposal_id, l2_proposal_id))))"

definition ask_activation :: "('w, 'tx) services \<Rightarrow> ('w, u64 option) action" where
  "ask_activation S =
     bind (get_activation_timestamp S) (\<lambda>activation_timestamp.
     return (if activation_timestamp = 0 then None else Some activation_timestamp))"

definition ask_geth :: "('w, 'tx) services \<Rightarrow> ('w, unit option) action" where
  "ask_geth S =
     bind (get_next_proposal_id_l1_l2 S) (\<lambda>(l1_proposal_id, l2_proposal_id).
     return (if l1_proposal_id \<le> l2_proposal_id then Some () else None))"

definition ask_nonces :: "('w, 'tx) services \<Rightarrow> ('w, unit option) action" where
  "ask_nonces S =
     bind (get_preconfer_nonce_latest S) (\<lambda>nonce_latest.
     bind (get_preconfer_nonce_pending S) (\<lambda>nonce_pending.
     return (if nonce_pending = nonce_latest then Some () else None)))"

definition wait_for_sent_transactions :: "('w, 'tx) services \<Rightarrow> (duration \<Rightarrow> 'w \<Rightarrow> 'w) \<Rightarrow> ('w, unit) run" where
  "wait_for_sent_transactions S sleep = poll (ask_nonces S) (sleep (from_secs 6))"

definition warmup :: "('w, 'tx) services \<Rightarrow> (duration \<Rightarrow> 'w \<Rightarrow> 'w) \<Rightarrow> ('w, unit) run" where
  "warmup S sleep =
     then_run (poll (ask_activation S) (sleep (slot_duration (slot_clock_of S)))) (\<lambda>_.
     then_run (poll (ask_geth S) (sleep (from_secs 5))) (\<lambda>_.
     wait_for_sent_transactions S sleep))"

definition entrypoint :: "('w, 'tx) services \<Rightarrow> (duration \<Rightarrow> 'w \<Rightarrow> 'w) \<Rightarrow> (('w, 'tx) nstate, unit) run" where
  "entrypoint S sleep = (\<lambda>(n, e).
     case warmup S sleep (world e) of
       None \<Rightarrow> None
     | Some (Ok _, w) \<Rightarrow> Some (Ok (), (n, e\<lparr>world := w\<rparr>))
     | Some (Err err, w) \<Rightarrow> Some (shut_down err (n, e\<lparr>world := w\<rparr>))
     | Some (Panic, w) \<Rightarrow> Some (Panic, (n, e\<lparr>world := w\<rparr>)))"

definition synchronize_with_l1_slot_start ::
  "('w, 'tx) services \<Rightarrow> (duration \<Rightarrow> 'w \<Rightarrow> 'w) \<Rightarrow> ('w, unit) action" where
  "synchronize_with_l1_slot_start S sleep =
     bind (system_now S) (\<lambda>now.
     attempt (lift (duration_to_next_slot (slot_clock_of S) now)) (\<lambda>d. modify (sleep d)) (\<lambda>_. return ()))"

text \<open>
  The node does not start too early. If \<open>entrypoint\<close> returns without an error, then, in this order,
  the inbox has been seen activated, the L2 node has been seen to have caught up with the
  proposals on L1, and finally the latest and the pending nonce of the operator have been seen
  equal, which is the last thing that happened before the main loop. If it returns with an error,
  the node is shut down.
\<close>
lemma startup_gated:
  assumes "entrypoint S sleep (n, e) = Some (r, (n', e'))"
  shows "n' = n \<and> (case r of
      Ok _ \<Rightarrow> (\<exists>i w0 t w1. w0 = polled (ask_activation S) (sleep (slot_duration (slot_clock_of S))) i (world e) \<and>
        get_activation_timestamp S w0 = (Ok t, w1) \<and> t \<noteq> 0 \<and>
        (\<exists>k v l1 l2 w2. v = polled (ask_geth S) (sleep (from_secs 5)) k w1 \<and>
           get_next_proposal_id_l1_l2 S v = (Ok (l1, l2), w2) \<and> l1 \<le> l2 \<and>
           (\<exists>j u x w3. u = polled (ask_nonces S) (sleep (from_secs 6)) j w2 \<and>
              get_preconfer_nonce_latest S u = (Ok x, w3) \<and>
              get_preconfer_nonce_pending S w3 = (Ok x, world e'))))
    | Err _ \<Rightarrow> cancelled e'
    | Panic \<Rightarrow> True)"
proof (cases r)
  case (Ok x)
  with assms have "warmup S sleep (world e) = Some (Ok (), world e')" and n: "n' = n"
    by (auto simp: entrypoint_def cancelled_shut_down split: option.splits prod.splits outcome.splits)
  then obtain a w1 w2 where
    1: "poll (ask_activation S) (sleep (slot_duration (slot_clock_of S))) (world e) = Some (Ok a, w1)"
    and 2: "poll (ask_geth S) (sleep (from_secs 5)) w1 = Some (Ok (), w2)"
    and 3: "poll (ask_nonces S) (sleep (from_secs 6)) w2 = Some (Ok (), world e')"
    by (auto simp: warmup_def wait_for_sent_transactions_def then_run_Ok_iff)
  from poll_Ok [OF 1] obtain i where "get_activation_timestamp S
      (polled (ask_activation S) (sleep (slot_duration (slot_clock_of S))) i (world e)) = (Ok a, w1)" "a \<noteq> 0"
    by (auto simp: ask_activation_def bind_Ok_iff return_def split: if_splits)
  moreover from poll_Ok [OF 2] obtain k l1 l2 where "get_next_proposal_id_l1_l2 S
      (polled (ask_geth S) (sleep (from_secs 5)) k w1) = (Ok (l1, l2), w2)" "l1 \<le> l2"
    by (auto simp: ask_geth_def bind_Ok_iff return_def split: if_splits)
  moreover from poll_Ok [OF 3] obtain j x w3 where
    "get_preconfer_nonce_latest S (polled (ask_nonces S) (sleep (from_secs 6)) j w2) = (Ok x, w3)"
    "get_preconfer_nonce_pending S w3 = (Ok x, world e')"
    by (auto simp: ask_nonces_def bind_Ok_iff return_def split: if_splits)
  ultimately show ?thesis using Ok n by fastforce
qed (use assms in \<open>auto simp: entrypoint_def cancelled_shut_down split: option.splits prod.splits outcome.splits\<close>)

lemmas startup_eval = ask_activation_def ask_geth_def ask_nonces_def get_next_proposal_id_l1_l2_def node_eval

text \<open>
  The start-up returns exactly if none of its three waits is endless: some poll of the activation
  time is answered, or fails; after that the same for the proposal ids; and after that for the
  nonces.
\<close>
lemma startup_returns_iff:
  "(\<exists>y. entrypoint S sleep (n, e) = Some y) \<longleftrightarrow>
    (\<exists>i. fst (ask_activation S (polled (ask_activation S) (sleep (slot_duration (slot_clock_of S))) i (world e))) \<noteq> Ok None) \<and>
    (\<forall>t w1. poll (ask_activation S) (sleep (slot_duration (slot_clock_of S))) (world e) = Some (Ok t, w1) \<longrightarrow>
      (\<exists>k. fst (ask_geth S (polled (ask_geth S) (sleep (from_secs 5)) k w1)) \<noteq> Ok None) \<and>
      (\<forall>w2. poll (ask_geth S) (sleep (from_secs 5)) w1 = Some (Ok (), w2) \<longrightarrow>
         (\<exists>j. fst (ask_nonces S (polled (ask_nonces S) (sleep (from_secs 6)) j w2)) \<noteq> Ok None)))"
proof -
  have "(\<exists>y. entrypoint S sleep (n, e) = Some y) \<longleftrightarrow> warmup S sleep (world e) \<noteq> None"
    by (auto simp: entrypoint_def cancelled_shut_down split: option.splits prod.splits outcome.splits)
  then show ?thesis
    unfolding poll_returns_iff [symmetric]
    by (auto simp: warmup_def wait_for_sent_transactions_def then_run_def split: option.splits prod.splits outcome.splits)
qed

end
