(* ===== verification/Tx_Monitor.thy ===== *)
theory Tx_Monitor
  imports Runs Slot_Clock
begin

text \<open>
  \<^verbatim>\<open>src/common/src/shared/transaction_monitor.rs\<close>, with \<^verbatim>\<open>src/common/src/l1/tools.rs\<close> and
  the revert reason of \<^verbatim>\<open>src/common/src/shared/alloy_tools.rs\<close>: an L1 transaction is sent, replaced with higher
  fees as long as it is not included, and reported.

  The L1 node is the record \<open>l1_rpc\<close> over an abstract world. A monitoring task is an action on its
  own state \<open>monitor_thread\<close> and the world. The two one-shot channels and the error channel are
  fields that record what was sent: \<open>hash_sent\<close>, \<open>result_sent\<close> and \<open>signals\<close>. Nothing in the task
  depends on whether somebody listens. Metrics and logs are left out, with the argument
  \<open>sending_attempt\<close> that only they use.
\<close>

section \<open>Error messages\<close>

fun find_sub :: "string \<Rightarrow> string \<Rightarrow> nat option" where
  "find_sub needle [] = (if needle = [] then Some 0 else None)"
| "find_sub needle (c # s) =
     (if take (length needle) (c # s) = needle then Some 0 else map_option Suc (find_sub needle s))"

definition contains :: "string \<Rightarrow> string \<Rightarrow> bool" where
  "contains needle s = (find_sub needle s \<noteq> None)"

definition check_for_insufficient_funds :: "string \<Rightarrow> bool" where
  "check_for_insufficient_funds err_str =
     (contains ''insufficient funds'' err_str \<or> contains ''insufficient allowance'' err_str \<or>
      contains ''0xe92c469f'' err_str)"

definition check_for_reanchor_required :: "string \<Rightarrow> bool" where
  "check_for_reanchor_required err_str =
     (contains ''0x46afbf54'' err_str \<or> contains ''0x1999aed2'' err_str \<or>
      contains ''0xfe1698b2'' err_str \<or> contains ''0x21389b84'' err_str)"

definition check_for_too_early_estimation :: "string \<Rightarrow> bool" where
  "check_for_too_early_estimation err_str =
     (contains ''0x3d32ffdb'' err_str \<or> contains ''0x2b44f010'' err_str \<or> contains ''0x92a2f43a'' err_str)"

definition check_oldest_forced_inclusion_due :: "string \<Rightarrow> bool" where
  "check_oldest_forced_inclusion_due err_str =
     (contains ''0x1e66a770'' err_str \<or> contains ''0x02967fb6'' err_str)"

definition check_for_not_the_operator_in_current_epoch :: "string \<Rightarrow> bool" where
  "check_for_not_the_operator_in_current_epoch err_str =
     (contains ''0x47fac6c1'' err_str \<or> contains ''0x795e2f19'' err_str \<or>
      contains ''0xc0ec4b50'' err_str \<or> contains ''0x4100ac03'' err_str)"

definition convert_error_payload :: "string \<Rightarrow> transaction_error option" where
  "convert_error_payload err =
     (if check_for_too_early_estimation err then Some EstimationTooEarly
      else if check_for_insufficient_funds err then Some InsufficientFunds
      else if check_for_reanchor_required err then Some ReanchorRequired
      else if check_oldest_forced_inclusion_due err then Some OldestForcedInclusionDue
      else if check_for_not_the_operator_in_current_epoch err then Some NotTheOperatorInCurrentEpoch
      else None)"

text \<open>The scan of a debug trace: the rest of the trace still to be searched, and the message so far.\<close>

lemma find_sub_Some:
  "find_sub needle s = Some i \<Longrightarrow> needle \<noteq> [] \<Longrightarrow> i < length s \<and> take (length needle) (drop i s) = needle"
  by (induction needle s arbitrary: i rule: find_sub.induct) (auto split: if_splits)

function scan_trace :: "string \<Rightarrow> string \<Rightarrow> string" where
  "scan_trace trace message =
     (case find_sub ''error: Some('' trace of
        None \<Rightarrow> message
      | Some error_start \<Rightarrow>
          (case find_sub '')'' (drop error_start trace) of
             None \<Rightarrow> message
           | Some closing_paren \<Rightarrow>
               scan_trace (drop (error_start + closing_paren + 1) trace)
                 (message @ (if message = [] then [] else '', '') @
                  take (closing_paren + 1) (drop error_start trace))))"
  by auto
termination
  by (relation "measure (length \<circ> fst)") (auto dest!: find_sub_Some)

definition find_errors_from_trace :: "string \<Rightarrow> string option" where
  "find_errors_from_trace trace_str =
     (let error_message = scan_trace trace_str []
      in if error_message \<noteq> [] then Some ('', errors from debug trace: '' @ error_message) else None)"

section \<open>The L1 node\<close>

datatype tx_type = Legacy | Eip2930 | Eip1559 | Eip4844 | Eip7702

record 'p tx_request =
  tx_nonce :: "u64 option"
  tx_chain_id :: "u64 option"
  tx_max_fee_per_gas :: "u128 option"
  tx_max_priority_fee_per_gas :: "u128 option"
  tx_max_fee_per_blob_gas :: "u128 option"
  tx_body :: 'p

datatype rpc_error = ErrorResp string | OtherRpcError
datatype send_answer = Accepted b256 | Refused rpc_error
datatype receipt_answer = Receipt bool "u64 option" | WatchTimeout | ReceiptError

record ('w, 'p) l1_rpc =
  buildable_type :: "'p tx_request \<Rightarrow> tx_type option"
  rpc_block_number :: "('w, u64) action"
  rpc_send :: "'p tx_request \<Rightarrow> ('w, send_answer) action"
  rpc_send_backup :: "string \<Rightarrow> 'p tx_request \<Rightarrow> ('w, unit) action"
  rpc_tx_by_hash :: "b256 \<Rightarrow> ('w, u64 option option) action"
  rpc_receipt :: "b256 \<Rightarrow> duration \<Rightarrow> ('w, receipt_answer) action"
  rpc_debug_trace :: "b256 \<Rightarrow> ('w, string) action"
  rpc_call_again :: "b256 \<Rightarrow> u64 \<Rightarrow> ('w, string + string) action"
  show_hash :: "b256 \<Rightarrow> string"

section \<open>State\<close>

record tx_monitor_config =
  min_priority_fee_per_gas_wei :: u128
  tx_fees_increase_percentage :: u128
  max_attempts_to_send_tx :: u64
  max_attempts_to_wait_tx :: u64
  delay_between_tx_attempts :: duration
  execution_rpc_urls :: "string list"

record monitor_thread =
  mt_config :: tx_monitor_config
  mt_nonce :: u64
  mt_chain_id :: u64
  sent_tx_hashes :: "b256 list"
  hash_sent :: "b256 option"
  result_sent :: "bool option"
  signals :: "transaction_error list"

datatype tx_status = Confirmed | Failed string | Pending

type_synonym 'w tstate = "monitor_thread \<times> 'w"

definition monitor_thread_new :: "tx_monitor_config \<Rightarrow> u64 \<Rightarrow> u64 \<Rightarrow> monitor_thread" where
  "monitor_thread_new config nonce chain_id =
     \<lparr>mt_config = config, mt_nonce = nonce, mt_chain_id = chain_id, sent_tx_hashes = [],
      hash_sent = None, result_sent = None, signals = []\<rparr>"

definition t_rpc :: "('w, 'a) action \<Rightarrow> ('w tstate, 'a) action" where
  "t_rpc = zoom snd (\<lambda>w (t, _). (t, w))"

definition t_get :: "(monitor_thread \<Rightarrow> 'a) \<Rightarrow> ('w tstate, 'a) action" where
  "t_get f = gets (\<lambda>(t, _). f t)"

definition t_set :: "(monitor_thread \<Rightarrow> monitor_thread) \<Rightarrow> ('w tstate, unit) action" where
  "t_set f = modify (\<lambda>(t, w). (f t, w))"

definition send_error_signal :: "transaction_error \<Rightarrow> ('w tstate, unit) action" where
  "send_error_signal err = t_set (\<lambda>t. t\<lparr>signals := signals t @ [err]\<rparr>)"

definition notify_result :: "bool \<Rightarrow> ('w tstate, unit) action" where
  "notify_result success = t_set (\<lambda>t. t\<lparr>result_sent := Some success\<rparr>)"

section \<open>Looking for the transaction\<close>

fun first_included :: "('w, 'p) l1_rpc \<Rightarrow> b256 list \<Rightarrow> ('w tstate, bool) action" where
  "first_included R [] = return False"
| "first_included R (tx_hash # hashes) =
     attempt (t_rpc (rpc_tx_by_hash R tx_hash))
       (\<lambda>tx. case tx of Some (Some block_number) \<Rightarrow> return True | _ \<Rightarrow> first_included R hashes)
       (\<lambda>_. first_included R hashes)"

definition verify_tx_included :: "('w, 'p) l1_rpc \<Rightarrow> ('w tstate, bool) action" where
  "verify_tx_included R = bind (t_get sent_tx_hashes) (first_included R)"

definition check_for_revert_reason :: "('w, 'p) l1_rpc \<Rightarrow> b256 \<Rightarrow> u64 \<Rightarrow> ('w, string) action" where
  "check_for_revert_reason R tx_hash block_number =
     bind (attempt (rpc_debug_trace R tx_hash) (\<lambda>trace. return (find_errors_from_trace trace))
            (\<lambda>_. return None)) (\<lambda>trace_errors.
     attempt (rpc_tx_by_hash R tx_hash)
       (\<lambda>tx. case tx of
          None \<Rightarrow> return (''Transaction '' @ show_hash R tx_hash @ '' failed'')
        | Some _ \<Rightarrow>
            bind (rpc_call_again R tx_hash block_number) (\<lambda>answer.
            let revert_reason = (case answer of Inl e \<Rightarrow> e | Inr ok \<Rightarrow> ''Unknown revert reason: '' @ ok)
            in return (''Transaction '' @ show_hash R tx_hash @ '' failed: '' @ revert_reason @
                 (case trace_errors of None \<Rightarrow> [] | Some errs \<Rightarrow> errs))))
       (\<lambda>_. return (''Transaction '' @ show_hash R tx_hash @ '' failed'')))"

definition wait_for_tx_receipt :: "('w, 'p) l1_rpc \<Rightarrow> b256 \<Rightarrow> ('w tstate, tx_status) action" where
  "wait_for_tx_receipt R tx_hash =
     bind (t_get (\<lambda>t. delay_between_tx_attempts (mt_config t))) (\<lambda>delay.
     bind (t_rpc (rpc_receipt R tx_hash delay)) (\<lambda>receipt.
     case receipt of
       Receipt ok block_number \<Rightarrow>
         if ok then return Confirmed
         else (case block_number of
             Some n \<Rightarrow> bind (t_rpc (check_for_revert_reason R tx_hash n)) (\<lambda>reason. return (Failed reason))
           | None \<Rightarrow> return (Failed
               (''Transaction '' @ show_hash R tx_hash @ '' failed, but block number not found'')))
     | WatchTimeout \<Rightarrow> return Pending
     | ReceiptError \<Rightarrow>
         bind (verify_tx_included R) (\<lambda>included. return (if included then Confirmed else Pending))))"

text \<open>
  One round of the loop of \<open>is_transaction_handled_by_builder\<close>: the result of the loop, or no result
  if the L1 height is still the one at the time of sending.
\<close>

definition handled_round :: "('w, 'p) l1_rpc \<Rightarrow> b256 \<Rightarrow> u64 \<Rightarrow> ('w tstate, bool option option) action" where
  "handled_round R tx_hash l1_block_at_send =
     bind (wait_for_tx_receipt R tx_hash) (\<lambda>tx_status.
     case tx_status of
       Confirmed \<Rightarrow> return (Some (Some True))
     | Failed err_str \<Rightarrow>
         bind (send_error_signal
                 (case convert_error_payload err_str of Some err \<Rightarrow> err | None \<Rightarrow> TransactionReverted)) (\<lambda>_.
         return (Some (Some False)))
     | Pending \<Rightarrow>
         attempt (t_rpc (rpc_block_number R))
           (\<lambda>current_l1_height.
              return (if current_l1_height \<noteq> l1_block_at_send then Some None else None))
           (\<lambda>_. bind (send_error_signal GetBlockNumberFailed) (\<lambda>_. return (Some (Some False)))))"

definition is_transaction_handled_by_builder ::
  "('w, 'p) l1_rpc \<Rightarrow> b256 \<Rightarrow> u64 \<Rightarrow> ('w tstate, bool option) run" where
  "is_transaction_handled_by_builder R tx_hash l1_block_at_send =
     poll (handled_round R tx_hash l1_block_at_send) id"

section \<open>Sending\<close>

definition handle_rpc_error :: "('w, 'p) l1_rpc \<Rightarrow> rpc_error \<Rightarrow> ('w tstate, unit) action" where
  "handle_rpc_error R e =
     (case e of
        ErrorResp message \<Rightarrow>
          if contains ''nonce too low'' message
          then bind (verify_tx_included R) (\<lambda>included.
               if \<not> included then send_error_signal TransactionReverted else return ())
          else (case convert_error_payload message of
                  Some err \<Rightarrow> send_error_signal err
                | None \<Rightarrow> send_error_signal TransactionReverted)
      | OtherRpcError \<Rightarrow> send_error_signal TransactionReverted)"

definition propagate_transaction_to_other_backup_nodes ::
  "('w, 'p) l1_rpc \<Rightarrow> 'p tx_request \<Rightarrow> ('w tstate, unit) action" where
  "propagate_transaction_to_other_backup_nodes R tx =
     bind (t_get (\<lambda>t. execution_rpc_urls (mt_config t))) (\<lambda>urls.
     for_each (\<lambda>_ url. attempt (t_rpc (rpc_send_backup R url tx)) return (\<lambda>_. return ())) () (drop 1 urls))"

definition send_transaction :: "('w, 'p) l1_rpc \<Rightarrow> 'p tx_request \<Rightarrow> ('w tstate, b256 option) action" where
  "send_transaction R tx =
     bind (t_rpc (rpc_send R tx)) (\<lambda>answer.
     case answer of
       Accepted pending_tx \<Rightarrow>
         bind (propagate_transaction_to_other_backup_nodes R tx) (\<lambda>_. return (Some pending_tx))
     | Refused e \<Rightarrow> bind (handle_rpc_error R e) (\<lambda>_. return None))"

record tx_fees =
  fee_max :: u128
  fee_priority :: u128
  fee_blob :: "u128 option"

definition set_tx_parameters :: "u64 \<Rightarrow> tx_fees \<Rightarrow> 'p tx_request \<Rightarrow> 'p tx_request" where
  "set_tx_parameters nonce fees tx =
     tx\<lparr>tx_max_priority_fee_per_gas := Some (fee_priority fees),
        tx_max_fee_per_gas := Some (fee_max fees),
        tx_max_fee_per_blob_gas :=
          (case fee_blob fees of Some fee \<Rightarrow> Some fee | None \<Rightarrow> tx_max_fee_per_blob_gas tx),
        tx_nonce := Some nonce\<rparr>"

definition expect :: "'a option \<Rightarrow> 'a outcome" where
  "expect x = (case x of Some a \<Rightarrow> Ok a | None \<Rightarrow> Panic)"

fun on_some :: "('a \<Rightarrow> 'b outcome) \<Rightarrow> 'a option \<Rightarrow> 'b option outcome" where
  "on_some f None = Ok None"
| "on_some f (Some a) = and_then (f a) (\<lambda>b. Ok (Some b))"

definition initial_fees :: "tx_monitor_config \<Rightarrow> 'p tx_request \<Rightarrow> tx_fees outcome" where
  "initial_fees config tx =
     and_then (expect (tx_max_priority_fee_per_gas tx)) (\<lambda>priority.
     and_then (expect (tx_max_fee_per_gas tx)) (\<lambda>max_fee.
     and_then (mul max_fee 2) (\<lambda>max_fee.
     and_then (mul priority (tx_fees_increase_percentage config)) (\<lambda>scaled.
     and_then (div_chk scaled 100) (\<lambda>increase.
     and_then (add priority increase) (\<lambda>priority.
     and_then (on_some (\<lambda>fee. mul fee 2) (tx_max_fee_per_blob_gas tx)) (\<lambda>blob.
     if priority < min_priority_fee_per_gas_wei config
     then
       and_then (sub (min_priority_fee_per_gas_wei config) priority) (\<lambda>diff.
       and_then (add max_fee diff) (\<lambda>max_fee.
       and_then (add priority diff) (\<lambda>priority.
       Ok \<lparr>fee_max = max_fee, fee_priority = priority, fee_blob = blob\<rparr>)))
     else Ok \<lparr>fee_max = max_fee, fee_priority = priority, fee_blob = blob\<rparr>)))))))"

definition increase_fees :: "tx_fees \<Rightarrow> tx_fees outcome" where
  "increase_fees fees =
     and_then (add (fee_max fees) (fee_max fees)) (\<lambda>max_fee.
     and_then (add (fee_priority fees) (fee_priority fees)) (\<lambda>priority.
     and_then (on_some (\<lambda>fee. add fee fee) (fee_blob fees)) (\<lambda>blob.
     Ok \<lparr>fee_max = max_fee, fee_priority = priority, fee_blob = blob\<rparr>)))"

text \<open>
  One sending attempt: the hash of the transaction and the L1 height at which it was sent, or \<open>None\<close>
  if the task has ended, with its result notified.
\<close>

definition push_hash :: "b256 \<Rightarrow> monitor_thread \<Rightarrow> monitor_thread" where
  "push_hash tx_hash t = t\<lparr>sent_tx_hashes := sent_tx_hashes t @ [tx_hash],
     hash_sent := (case hash_sent t of None \<Rightarrow> Some tx_hash | Some h \<Rightarrow> Some h)\<rparr>"

definition send_attempt ::
  "('w, 'p) l1_rpc \<Rightarrow> 'p tx_request \<Rightarrow> bool \<Rightarrow> tx_fees \<Rightarrow> ('w tstate, (b256 \<times> u64) option) action" where
  "send_attempt R tx first fees =
     attempt (t_rpc (rpc_block_number R))
       (\<lambda>l1_block_at_send.
          bind (if first then return False else verify_tx_included R) (\<lambda>included.
          if included then bind (notify_result True) (\<lambda>_. return None)
          else
            bind (t_get mt_nonce) (\<lambda>nonce.
            bind (send_transaction R (set_tx_parameters nonce fees tx)) (\<lambda>pending_tx.
            case pending_tx of
              None \<Rightarrow> bind (notify_result False) (\<lambda>_. return None)
            | Some tx_hash \<Rightarrow>
                bind (t_set (push_hash tx_hash)) (\<lambda>_. return (Some (tx_hash, l1_block_at_send)))))))
       (\<lambda>_. bind (send_error_signal GetBlockNumberFailed) (\<lambda>_.
            bind (notify_result False) (\<lambda>_. return None)))"

text \<open>
  The sending loop, with \<open>n\<close> attempts left and \<open>first\<close> true in the first one. The result is \<open>None\<close>
  if the task has ended, and the L1 height at the last sending if all attempts are used up.
\<close>

primrec send_loop ::
  "('w, 'p) l1_rpc \<Rightarrow> 'p tx_request \<Rightarrow> nat \<Rightarrow> bool \<Rightarrow> tx_fees \<Rightarrow> u64 \<Rightarrow> ('w tstate, u64 option) run" where
  "send_loop R tx 0 first fees l1_block_at_send = once (return (Some l1_block_at_send))"
| "send_loop R tx (Suc n) first fees _ =
     then_run (once (send_attempt R tx first fees)) (\<lambda>sent.
     case sent of
       None \<Rightarrow> once (return None)
     | Some (tx_hash, l1_block_at_send) \<Rightarrow>
         then_run (is_transaction_handled_by_builder R tx_hash l1_block_at_send) (\<lambda>handled.
         case handled of
           Some confirmed \<Rightarrow> once (bind (notify_result confirmed) (\<lambda>_. return None))
         | None \<Rightarrow>
             then_run (once (lift (increase_fees fees))) (\<lambda>fees.
             send_loop R tx n False fees l1_block_at_send)))"

primrec wait_loop ::
  "('w, 'p) l1_rpc \<Rightarrow> b256 \<Rightarrow> u64 \<Rightarrow> nat \<Rightarrow> u64 \<Rightarrow> ('w tstate, bool option) run" where
  "wait_loop R tx_hash l1_block_at_send 0 wait_attempt = once (return None)"
| "wait_loop R tx_hash l1_block_at_send (Suc n) wait_attempt =
     then_run (is_transaction_handled_by_builder R tx_hash l1_block_at_send) (\<lambda>handled.
     case handled of
       Some confirmed \<Rightarrow> once (return (Some confirmed))
     | None \<Rightarrow>
         then_run (once (bind (t_get (\<lambda>t. add wait_attempt (max_attempts_to_send_tx (mt_config t)))) lift)) (\<lambda>_.
         then_run (once (verify_tx_included R)) (\<lambda>included.
         if included then once (return (Some True))
         else wait_loop R tx_hash l1_block_at_send n (wait_attempt + 1))))"

text \<open>
  The tail of \<open>monitor_transaction\<close>. The variable \<open>root_provider\<close> of the code is set when the first
  hash is pushed; so it is set exactly if there is a last hash.
\<close>

definition wait_stage :: "('w, 'p) l1_rpc \<Rightarrow> u64 \<Rightarrow> ('w tstate, unit) run" where
  "wait_stage R l1_block_at_send =
     then_run (once (t_get (\<lambda>t. (sent_tx_hashes t, max_attempts_to_wait_tx (mt_config t))))) (\<lambda>(hashes, max_wait).
     if hashes = []
     then once (bind (if max_wait = 0 then send_error_signal NotConfirmed else return ()) (\<lambda>_.
                notify_result False))
     else
       then_run (wait_loop R (last hashes) l1_block_at_send (unat max_wait) 0) (\<lambda>result.
       case result of
         Some confirmed \<Rightarrow> once (notify_result confirmed)
       | None \<Rightarrow> once (bind (send_error_signal NotConfirmed) (\<lambda>_. notify_result False))))"

definition monitor_transaction :: "('w, 'p) l1_rpc \<Rightarrow> 'p tx_request \<Rightarrow> ('w tstate, unit) run" where
  "monitor_transaction R tx =
     then_run (once (t_get (\<lambda>t. (mt_nonce t, mt_chain_id t, mt_config t)))) (\<lambda>(nonce, chain_id, config).
     let tx = tx\<lparr>tx_nonce := Some nonce\<rparr> in
     if buildable_type R tx \<notin> {Some Eip1559, Some Eip4844}
     then once (bind (send_error_signal UnsupportedTransactionType) (\<lambda>_. notify_result False))
     else
       let tx = tx\<lparr>tx_chain_id := Some chain_id\<rparr> in
       then_run (once (lift (initial_fees config tx))) (\<lambda>fees.
       then_run (send_loop R tx (unat (max_attempts_to_send_tx config)) True fees 0) (\<lambda>sent.
       case sent of
         None \<Rightarrow> once (return ())
       | Some l1_block_at_send \<Rightarrow> wait_stage R l1_block_at_send)))"

text \<open>The task of \<open>spawn_monitoring_task_with_builder\<close>.\<close>

definition monitor_with_builder ::
  "('w, 'p) l1_rpc \<Rightarrow> ('w, transaction_error + 'p tx_request) action \<Rightarrow> ('w tstate, unit) run" where
  "monitor_with_builder R build =
     then_run (once (t_rpc build)) (\<lambda>built.
     case built of
       Inr tx \<Rightarrow> monitor_transaction R tx
     | Inl err \<Rightarrow> once (send_error_signal err))"

section \<open>What a task reports\<close>

text \<open>The L1 node shows a transaction as included: by its hash or by a receipt.\<close>

definition on_chain :: "('w, 'p) l1_rpc \<Rightarrow> b256 \<Rightarrow> bool" where
  "on_chain R h \<longleftrightarrow> (\<exists>w n w'. rpc_tx_by_hash R h w = (Ok (Some (Some n)), w')) \<or>
     (\<exists>d w b w'. rpc_receipt R h d w = (Ok (Receipt True b), w'))"

definition seen :: "('w, 'p) l1_rpc \<Rightarrow> monitor_thread \<Rightarrow> bool" where
  "seen R t \<longleftrightarrow> (\<exists>h \<in> set (sent_tx_hashes t). on_chain R h)"

definition quiet_task :: "monitor_thread \<Rightarrow> bool" where
  "quiet_task t \<longleftrightarrow> signals t = [] \<and> result_sent t = None"

definition verdict_ok :: "('w, 'p) l1_rpc \<Rightarrow> monitor_thread \<Rightarrow> bool" where
  "verdict_ok R t \<longleftrightarrow> \<not> Option.is_none (result_sent t) \<and> length (signals t) \<le> 1 \<and> (signals t = [] \<longrightarrow> seen R t) \<and>
     (result_sent t = Some True \<longrightarrow> signals t = [])"

lemmas task_defs = t_rpc_def t_get_def t_set_def send_error_signal_def notify_result_def zoom_def gets_def
  modify_def return_def

lemma first_included_Ok:
  "first_included R hs (t, w) = (r, (t', w')) \<Longrightarrow> t' = t \<and> (r = Ok True \<longrightarrow> (\<exists>h \<in> set hs. on_chain R h))"
proof (induction hs arbitrary: w)
  case (Cons h hs)
  obtain a w1 where a: "rpc_tx_by_hash R h w = (a, w1)" by fastforce
  then have "on_chain R h" if "a = Ok (Some (Some n))" for n using that by (auto simp: on_chain_def)
  with Cons a show ?case
    by (auto simp: attempt_def task_defs split: outcome.splits option.splits)
qed (auto simp: return_def)

lemma verify_tx_included_Ok:
  "verify_tx_included R (t, w) = (r, (t', w')) \<Longrightarrow> t' = t \<and> (r = Ok True \<longrightarrow> seen R t)"
  by (auto simp: verify_tx_included_def t_get_def seen_def dest: first_included_Ok)

lemma t_rpc_same: "t_rpc m (t, w) = (r, (t', w')) \<Longrightarrow> t' = t"
  by (auto simp: t_rpc_def zoom_def split: prod.splits)

lemma wait_for_tx_receipt_Ok:
  assumes "wait_for_tx_receipt R h (t, w) = (r, (t', w'))" "h \<in> set (sent_tx_hashes t)"
  shows "t' = t \<and> (r = Ok Confirmed \<longrightarrow> seen R t)"
proof -
  obtain a w1 where a: "rpc_receipt R h (delay_between_tx_attempts (mt_config t)) w = (a, w1)" by fastforce
  then have "seen R t" if "a = Ok (Receipt True b)" for b
    using that assms(2) unfolding on_chain_def seen_def by blast
  with assms(1) a show ?thesis
    by (auto simp: wait_for_tx_receipt_def bind_def task_defs split: outcome.splits receipt_answer.splits
        if_splits option.splits prod.splits dest: verify_tx_included_Ok)
qed

lemma handled_round_Ok:
  assumes "handled_round R h blk (t, w) = (r, (t', w'))" "h \<in> set (sent_tx_hashes t)"
  shows "case r of
      Ok (Some (Some True)) \<Rightarrow> t' = t \<and> seen R t
    | Ok (Some (Some False)) \<Rightarrow> (\<exists>e. t' = t\<lparr>signals := signals t @ [e]\<rparr>)
    | Ok _ \<Rightarrow> t' = t | _ \<Rightarrow> True"
proof -
  obtain a t1 w1 where a: "wait_for_tx_receipt R h (t, w) = (a, (t1, w1))" by (metis prod.collapse)
  from wait_for_tx_receipt_Ok [OF this assms(2)] assms(1) a show ?thesis
    by (cases a)
      (auto simp: handled_round_def bind_def attempt_def task_defs split: tx_status.splits prod.splits
        outcome.splits if_splits)
qed

lemma handled_Ok:
  assumes "is_transaction_handled_by_builder R h blk (t, w) = Some (r, (t', w'))" "h \<in> set (sent_tx_hashes t)"
  shows "case r of
      Ok (Some True) \<Rightarrow> t' = t \<and> seen R t
    | Ok (Some False) \<Rightarrow> (\<exists>e. t' = t\<lparr>signals := signals t @ [e]\<rparr>)
    | Ok None \<Rightarrow> t' = t | _ \<Rightarrow> True"
proof -
  let ?Q = "\<lambda>r (t', w' :: 'a). case r of
      Ok (Some True) \<Rightarrow> t' = t \<and> seen R t
    | Ok (Some False) \<Rightarrow> (\<exists>e. t' = t\<lparr>signals := signals t @ [e]\<rparr>)
    | Ok None \<Rightarrow> t' = t | _ \<Rightarrow> True"
  have "after (\<lambda>(t', _). t' = t) (is_transaction_handled_by_builder R h blk) ?Q"
    unfolding is_transaction_handled_by_builder_def
  proof (rule after_poll, rule tripleI)
    fix s r s'
    assume "case s of (t', _) \<Rightarrow> t' = t" and run: "handled_round R h blk s = (r, s')"
    then obtain w1 t2 w2 where s: "s = (t, w1)" "s' = (t2, w2)" by (cases s; cases s') auto
    from handled_round_Ok [OF run [unfolded s] assms(2)] s
    show "case r of Ok None \<Rightarrow> (case id s' of (t', _) \<Rightarrow> t' = t) | Ok (Some a) \<Rightarrow> ?Q (Ok a) s'
      | Err e \<Rightarrow> ?Q (Err e) s' | Panic \<Rightarrow> ?Q Panic s'"
      by (auto split: outcome.splits option.splits)
  qed
  from afterD [OF this _ assms(1)] show ?thesis by simp
qed

lemma handle_rpc_error_Ok:
  assumes "handle_rpc_error R x (t, w) = (Ok (), (t', w'))"
  shows "(\<exists>e. t' = t\<lparr>signals := signals t @ [e]\<rparr>) \<or> (t' = t \<and> seen R t)"
  using assms
  by (auto simp: handle_rpc_error_def bind_def task_defs split: rpc_error.splits if_splits option.splits
      prod.splits outcome.splits dest: verify_tx_included_Ok)

lemma propagate_same: "propagate_transaction_to_other_backup_nodes R tx (t, w) = (r, (t', w')) \<Longrightarrow> t' = t"
proof -
  have "keeps (\<lambda>(t', _). t' = t) (propagate_transaction_to_other_backup_nodes R tx)"
    unfolding propagate_transaction_to_other_backup_nodes_def t_get_def
    by (intro keeps_rules) (auto simp: triple_def t_rpc_def zoom_def split: prod.splits)
  then show "propagate_transaction_to_other_backup_nodes R tx (t, w) = (r, (t', w')) \<Longrightarrow> t' = t"
    by (auto dest: tripleD)
qed

lemma send_transaction_Ok:
  assumes "send_transaction R tx (t, w) = (Ok a, (t', w'))"
  shows "case a of
      Some h \<Rightarrow> t' = t
    | None \<Rightarrow> (\<exists>e. t' = t\<lparr>signals := signals t @ [e]\<rparr>) \<or> (t' = t \<and> seen R t)"
proof -
  from assms obtain ans w1 where ans: "t_rpc (rpc_send R tx) (t, w) = (Ok ans, (t, w1))"
    and rest: "(case ans of
       Accepted pending_tx \<Rightarrow>
         bind (propagate_transaction_to_other_backup_nodes R tx) (\<lambda>_. return (Some pending_tx))
     | Refused e \<Rightarrow> bind (handle_rpc_error R e) (\<lambda>_. return None)) (t, w1) = (Ok a, (t', w'))"
    by (auto simp: send_transaction_def bind_Ok_iff dest: t_rpc_same)
  show ?thesis
  proof (cases ans)
    case (Accepted h)
    with rest show ?thesis by (auto simp: bind_Ok_iff return_def dest: propagate_same)
  next
    case (Refused x)
    with rest show ?thesis by (auto simp: bind_Ok_iff return_def dest!: handle_rpc_error_Ok)
  qed
qed

lemma notify_verdict:
  assumes "t' = t \<and> seen R t \<or> (\<exists>e. t' = t\<lparr>signals := signals t @ [e]\<rparr>)" "quiet_task t"
  shows "verdict_ok R (t'\<lparr>result_sent := Some False\<rparr>)"
    and "t' = t \<Longrightarrow> seen R t \<Longrightarrow> verdict_ok R (t'\<lparr>result_sent := Some b\<rparr>)"
  using assms by (auto simp: verdict_ok_def quiet_task_def seen_def)

lemma send_attempt_Ok:
  assumes "send_attempt R tx first fees (t, w) = (Ok r, (t', w'))" "quiet_task t"
  shows "case r of None \<Rightarrow> verdict_ok R t' | Some (h, _) \<Rightarrow> t' = push_hash h t"
proof (cases "fst (rpc_block_number R w)")
  case (Err x)
  with assms show ?thesis
    by (auto simp: send_attempt_def attempt_def task_defs verdict_ok_def quiet_task_def split: prod.splits)
next
  case Panic
  with assms(1) show ?thesis by (auto simp: send_attempt_def attempt_def task_defs split: prod.splits)
next
  case (Ok blk)
  then obtain w1 included t2 w2 where
    2: "(if first then return False else verify_tx_included R) (t, w1) = (Ok included, (t2, w2))"
    and rest: "(if included then bind (notify_result True) (\<lambda>_. return None)
          else
            bind (t_get mt_nonce) (\<lambda>nonce.
            bind (send_transaction R (set_tx_parameters nonce fees tx)) (\<lambda>pending_tx.
            case pending_tx of
              None \<Rightarrow> bind (notify_result False) (\<lambda>_. return None)
            | Some tx_hash \<Rightarrow> bind (t_set (push_hash tx_hash)) (\<lambda>_. return (Some (tx_hash, blk))))))
        (t2, w2) = (Ok r, (t', w'))"
    using assms(1) by (auto simp: send_attempt_def attempt_def t_rpc_def zoom_def bind_Ok_iff
        split: prod.splits outcome.splits)
  have t2: "t2 = t" and inc: "included \<longrightarrow> seen R t"
    using 2 by (auto simp: return_def split: if_splits dest: verify_tx_included_Ok)
  show ?thesis
  proof (cases included)
    case True
    with rest inc t2 notify_verdict(2) [OF _ assms(2), of t R True] show ?thesis by (auto simp: task_defs)
  next
    case False
    with rest t2 obtain pending t3 w3 where
      3: "send_transaction R (set_tx_parameters (mt_nonce t) fees tx) (t, w2) = (Ok pending, (t3, w3))"
      and rest: "(case pending of
              None \<Rightarrow> bind (notify_result False) (\<lambda>_. return None)
            | Some tx_hash \<Rightarrow> bind (t_set (push_hash tx_hash)) (\<lambda>_. return (Some (tx_hash, blk)))) (t3, w3) =
          (Ok r, (t', w'))"
      by (auto simp: bind_Ok_iff t_get_def gets_def)
    from rest send_transaction_Ok [OF 3] notify_verdict(1) [OF _ assms(2), of t3 R] show ?thesis
      by (cases pending) (auto simp: task_defs)
  qed
qed

lemma send_loop_Ok:
  assumes "send_loop R tx n first fees blk (t, w) = Some (Ok r, (t', w'))"
    and "quiet_task t" "\<not> first \<longrightarrow> sent_tx_hashes t \<noteq> []"
  shows "case r of
      None \<Rightarrow> verdict_ok R t'
    | Some _ \<Rightarrow> quiet_task t' \<and> (first \<and> n = 0 \<or> sent_tx_hashes t' \<noteq> [])"
  using assms
proof (induction n arbitrary: first fees blk t w)
  case 0
  then show ?case by (auto simp: return_def)
next
  case (Suc n)
  from Suc.prems(1) obtain sent t1 w1 where 1: "send_attempt R tx first fees (t, w) = (Ok sent, (t1, w1))"
    by (auto simp: then_run_Ok_iff)
  show ?case
  proof (cases sent)
    case None
    with Suc.prems(1) 1 send_attempt_Ok [OF 1 Suc.prems(2)] show ?thesis by (auto simp: then_once return_def)
  next
    case (Some p)
    then obtain h blk' where p: "sent = Some (h, blk')" by (cases p) auto
    with send_attempt_Ok [OF 1 Suc.prems(2)] have t1: "t1 = push_hash h t" by simp
    with Suc.prems(2) have q: "quiet_task t1" and mem: "h \<in> set (sent_tx_hashes t1)"
      by (auto simp: push_hash_def quiet_task_def)
    from Suc.prems(1) 1 p obtain handled t2 w2 where
      2: "is_transaction_handled_by_builder R h blk' (t1, w1) = Some (Ok handled, (t2, w2))"
      and rest: "(case handled of
           Some confirmed \<Rightarrow> once (bind (notify_result confirmed) (\<lambda>_. return None))
         | None \<Rightarrow>
             then_run (once (lift (increase_fees fees))) (\<lambda>fees.
             send_loop R tx n False fees blk')) (t2, w2) = Some (Ok r, (t', w'))"
      by (auto simp: then_once then_run_Ok_iff)
    note h = handled_Ok [OF 2 mem]
    show ?thesis
    proof (cases handled)
      case None
      with h rest obtain fees' where "send_loop R tx n False fees' blk' (t1, w2) = Some (Ok r, (t', w'))"
        by (auto simp: then_run_Ok_iff lift_def)
      from Suc.IH [OF this q] mem show ?thesis by (fastforce split: option.splits)
    next
      case (Some c)
      with h rest q notify_verdict [of t2 t1 R] show ?thesis by (cases c) (auto simp: task_defs)
    qed
  qed
qed

lemma wait_loop_Ok:
  assumes "wait_loop R h blk n k (t, w) = Some (Ok r, (t', w'))" "h \<in> set (sent_tx_hashes t)"
  shows "case r of
      Some True \<Rightarrow> t' = t \<and> seen R t
    | Some False \<Rightarrow> (\<exists>e. t' = t\<lparr>signals := signals t @ [e]\<rparr>)
    | None \<Rightarrow> t' = t"
  using assms
proof (induction n arbitrary: k w)
  case (Suc n)
  from Suc.prems(1) obtain handled t1 w1 where
    1: "is_transaction_handled_by_builder R h blk (t, w) = Some (Ok handled, (t1, w1))"
    and rest: "(case handled of
       Some confirmed \<Rightarrow> once (return (Some confirmed))
     | None \<Rightarrow>
         then_run (once (bind (t_get (\<lambda>t. add k (max_attempts_to_send_tx (mt_config t)))) lift)) (\<lambda>_.
         then_run (once (verify_tx_included R)) (\<lambda>included.
         if included then once (return (Some True)) else wait_loop R h blk n (k + 1)))) (t1, w1) =
       Some (Ok r, (t', w'))"
    by (auto simp: then_run_Ok_iff)
  note h = handled_Ok [OF 1 Suc.prems(2)]
  show ?case
  proof (cases handled)
    case None
    with h rest obtain included w2 where inc: "verify_tx_included R (t, w1) = (Ok included, (t, w2))"
      and rest: "(if included then once (return (Some True)) else wait_loop R h blk n (k + 1)) (t, w2) =
        Some (Ok r, (t', w'))"
      by (auto simp: then_run_Ok_iff t_get_def gets_def lift_def dest: verify_tx_included_Ok)
    from rest verify_tx_included_Ok [OF inc] Suc.IH [OF _ Suc.prems(2), of "k + 1" w2] show ?thesis
      by (cases included) (auto simp: return_def)
  next
    case (Some c)
    with h rest show ?thesis by (cases c) (auto simp: return_def)
  qed
qed (auto simp: return_def)

lemma wait_stage_Ok:
  assumes "wait_stage R blk (t, w) = Some (Ok (), (t', w'))" "quiet_task t" "sent_tx_hashes t \<noteq> []"
  shows "verdict_ok R t'"
proof -
  from assms(1,3) obtain result t1 w1 where
    1: "wait_loop R (last (sent_tx_hashes t)) blk (unat (max_attempts_to_wait_tx (mt_config t))) 0 (t, w) =
      Some (Ok result, (t1, w1))"
    and rest: "(case result of
         Some confirmed \<Rightarrow> once (notify_result confirmed)
       | None \<Rightarrow> once (bind (send_error_signal NotConfirmed) (\<lambda>_. notify_result False))) (t1, w1) =
       Some (Ok (), (t', w'))"
    by (auto simp: wait_stage_def then_run_Ok_iff t_get_def gets_def)
  note loop = wait_loop_Ok [OF 1 last_in_set [OF assms(3)]]
  show ?thesis
  proof (cases result)
    case None
    with loop rest notify_verdict(1) [OF _ assms(2), of "t\<lparr>signals := signals t @ [NotConfirmed]\<rparr>" R]
    show ?thesis by (auto simp: task_defs)
  next
    case (Some c)
    with loop rest notify_verdict [OF _ assms(2), of t1 R] show ?thesis by (cases c) (auto simp: task_defs)
  qed
qed

lemma monitor_verdict:
  assumes "monitor_transaction R tx (t, w) = Some (Ok (), (t', w'))" "quiet_task t"
    and "max_attempts_to_send_tx (mt_config t) \<noteq> 0"
  shows "verdict_ok R t'"
proof -
  let ?tx = "tx\<lparr>tx_nonce := Some (mt_nonce t)\<rparr>"
  show ?thesis
  proof (cases "buildable_type R ?tx \<in> {Some Eip1559, Some Eip4844}")
    case False
    with assms show ?thesis
      by (auto simp: monitor_transaction_def then_once task_defs verdict_ok_def quiet_task_def Let_def)
  next
    case True
    let ?tx = "?tx\<lparr>tx_chain_id := Some (mt_chain_id t)\<rparr>"
    from True assms(1) obtain fees sent t1 w1 where
      1: "send_loop R ?tx (unat (max_attempts_to_send_tx (mt_config t))) True fees 0 (t, w) = Some (Ok sent, (t1, w1))"
      and rest: "(case sent of None \<Rightarrow> once (return ()) | Some blk \<Rightarrow> wait_stage R blk) (t1, w1) =
        Some (Ok (), (t', w'))"
      by (auto simp: monitor_transaction_def then_run_Ok_iff t_get_def gets_def lift_def Let_def)
    from assms(3) have "unat (max_attempts_to_send_tx (mt_config t)) \<noteq> 0" by (simp add: unat_eq_zero)
    with send_loop_Ok [OF 1 assms(2)] rest wait_stage_Ok [of R _ t1 w1 t' w'] show ?thesis
      by (cases sent) (auto simp: return_def)
  qed
qed

text \<open>
  C7: What the task reports is true. When the monitoring task of a transaction ends, it has notified
  exactly one result, it has signalled at most one error, and a positive result comes without an
  error. If it has signalled no error, which is what makes the node drop the proposal as confirmed,
  then the L1 node has shown one of the transactions sent as included. The hypothesis is that at
  least one sending attempt is configured.
\<close>
theorem silent_task_means_included:
  assumes "monitor_transaction R tx (monitor_thread_new config nonce chain_id, w) = Some (Ok (), (t', w'))"
    and "max_attempts_to_send_tx config \<noteq> 0"
  shows "result_sent t' \<noteq> None \<and> length (signals t') \<le> 1 \<and>
    (result_sent t' = Some True \<longrightarrow> signals t' = []) \<and>
    (signals t' = [] \<longrightarrow> (\<exists>h \<in> set (sent_tx_hashes t').
       (\<exists>w n w'. rpc_tx_by_hash R h w = (Ok (Some (Some n)), w')) \<or>
       (\<exists>d w b w'. rpc_receipt R h d w = (Ok (Receipt True b), w'))))"
proof -
  have "verdict_ok R t'"
    by (rule monitor_verdict [OF assms(1)]) (use assms(2) in \<open>auto simp: quiet_task_def monitor_thread_new_def\<close>)
  then show ?thesis by (auto simp: verdict_ok_def seen_def on_chain_def Option.is_none_def)
qed

section \<open>Replacement transactions\<close>

text \<open>\<open>sent\<close> reads the list of requests the L1 node has been sent from the world.\<close>

definition logs_sends :: "('w, 'p) l1_rpc \<Rightarrow> ('w \<Rightarrow> 'p tx_request list) \<Rightarrow> bool" where
  "logs_sends R sent \<longleftrightarrow>
     (\<forall>tx w. sent (snd (rpc_send R tx w)) = sent w @ [tx]) \<and>
     (\<forall>w. sent (snd (rpc_block_number R w)) = sent w) \<and>
     (\<forall>u tx w. sent (snd (rpc_send_backup R u tx w)) = sent w) \<and>
     (\<forall>h w. sent (snd (rpc_tx_by_hash R h w)) = sent w) \<and>
     (\<forall>h d w. sent (snd (rpc_receipt R h d w)) = sent w) \<and>
     (\<forall>h w. sent (snd (rpc_debug_trace R h w)) = sent w) \<and>
     (\<forall>h b w. sent (snd (rpc_call_again R h b w)) = sent w)"

abbreviation sent_is :: "('w \<Rightarrow> 'p tx_request list) \<Rightarrow> u64 \<Rightarrow> 'p tx_request list \<Rightarrow> 'w tstate \<Rightarrow> bool" where
  "sent_is sent nonce L \<equiv> (\<lambda>(t, w). mt_nonce t = nonce \<and> sent w = L)"

lemma keeps_cases [keeps_rules]:
  "(\<And>a b. keeps I (f a b)) \<Longrightarrow> keeps I g \<Longrightarrow> keeps I h \<Longrightarrow>
   keeps I (case x of Receipt a b \<Rightarrow> f a b | WatchTimeout \<Rightarrow> g | ReceiptError \<Rightarrow> h)"
  "keeps I m \<Longrightarrow> (\<And>s. keeps I (k s)) \<Longrightarrow> keeps I n \<Longrightarrow>
   keeps I (case y of Confirmed \<Rightarrow> m | Failed s \<Rightarrow> k s | Pending \<Rightarrow> n)"
  "(\<And>c. keeps I (p c)) \<Longrightarrow> keeps I q \<Longrightarrow> keeps I (case z of ErrorResp c \<Rightarrow> p c | OtherRpcError \<Rightarrow> q)"
  by (auto split: receipt_answer.split tx_status.split rpc_error.split)

lemma keeps_sent_rpc:
  "(\<And>w. sent (snd (m w)) = sent w) \<Longrightarrow> keeps (sent_is sent nonce L) (t_rpc m)"
  by (auto simp: triple_def t_rpc_def zoom_def split: prod.splits) (metis snd_conv)+

lemma keeps_sent_thread [keeps_rules]:
  "keeps (sent_is sent nonce L) (t_get f)"
  "keeps (sent_is sent nonce L) (send_error_signal x)"
  "keeps (sent_is sent nonce L) (notify_result b)"
  "keeps (sent_is sent nonce L) (t_set (push_hash h))"
  by (auto simp: triple_def task_defs push_hash_def)

lemma keeps_sent_lookup:
  assumes "logs_sends R sent"
  shows "keeps (sent_is sent nonce L) (first_included R hs)"
proof (induction hs)
  case (Cons h hs)
  have "keeps (sent_is sent nonce L) (t_rpc (rpc_tx_by_hash R h))"
    by (rule keeps_sent_rpc) (use assms in \<open>simp add: logs_sends_def\<close>)
  then show ?case using Cons.IH by (auto intro!: keeps_rules)
qed (simp add: keeps_return)

lemma keeps_sent_verify:
  "logs_sends R sent \<Longrightarrow> keeps (sent_is sent nonce L) (verify_tx_included R)"
  unfolding verify_tx_included_def by (intro keeps_rules keeps_sent_lookup)

lemma sent_revert_reason:
  assumes "logs_sends R sent"
  shows "sent (snd (check_for_revert_reason R h n w)) = sent w"
proof -
  have "keeps (\<lambda>w. sent w = L) (rpc_debug_trace R h)" "keeps (\<lambda>w. sent w = L) (rpc_tx_by_hash R h)"
    "keeps (\<lambda>w. sent w = L) (rpc_call_again R h n)" for L
    using assms by (auto simp: logs_sends_def triple_def)
  then have "keeps (\<lambda>w. sent w = L) (check_for_revert_reason R h n)" for L
    unfolding check_for_revert_reason_def Let_def by (intro keeps_rules)
  then show ?thesis by (auto simp: triple_def)
qed

lemma keeps_sent_handled:
  assumes "logs_sends R sent"
  shows "after (sent_is sent nonce L) (is_transaction_handled_by_builder R h blk) (\<lambda>_. sent_is sent nonce L)"
proof -
  note v = keeps_sent_verify [OF assms]
  have rpc: "keeps (sent_is sent nonce L) (t_rpc (rpc_receipt R h d))"
    "keeps (sent_is sent nonce L) (t_rpc (rpc_block_number R))"
    "keeps (sent_is sent nonce L) (t_rpc (check_for_revert_reason R h n))" for d n
    by (rule keeps_sent_rpc; use assms sent_revert_reason in \<open>simp add: logs_sends_def\<close>)+
  have "keeps (sent_is sent nonce L) (handled_round R h blk)"
    unfolding handled_round_def wait_for_tx_receipt_def by (intro keeps_rules rpc v)
  then show ?thesis
    unfolding is_transaction_handled_by_builder_def
    by (intro after_poll) (auto simp: triple_def split: outcome.splits option.splits)
qed

lemma triple_bind_all:
  assumes "triple P m (\<lambda>_. R)" "\<And>a. triple R (f a) Q" "\<And>r s. R s \<Longrightarrow> Q r s"
  shows "triple P (bind m f) Q"
  by (rule triple_bind [where R = "\<lambda>_. R"]) (use assms in \<open>auto simp: triple_def split: outcome.splits\<close>)

lemma triple_send_transaction:
  assumes "logs_sends R sent"
  shows "triple (sent_is sent nonce L) (send_transaction R x) (\<lambda>_. sent_is sent nonce (L @ [x]))"
proof -
  let ?I = "sent_is sent nonce (L @ [x])"
  have send: "triple (sent_is sent nonce L) (t_rpc (rpc_send R x)) (\<lambda>_. ?I)"
    using assms by (auto simp: triple_def t_rpc_def zoom_def logs_sends_def split: prod.splits) (metis snd_conv)
  have backup: "keeps ?I (t_rpc (rpc_send_backup R u x))" for u
    by (rule keeps_sent_rpc) (use assms in \<open>simp add: logs_sends_def\<close>)
  have err: "keeps ?I (handle_rpc_error R e)" for e
    unfolding handle_rpc_error_def by (intro keeps_rules keeps_sent_verify assms)
  have "keeps ?I (case answer of
       Accepted pending_tx \<Rightarrow>
         bind (propagate_transaction_to_other_backup_nodes R x) (\<lambda>_. return (Some pending_tx))
     | Refused e \<Rightarrow> bind (handle_rpc_error R e) (\<lambda>_. return None))" for answer
    unfolding propagate_transaction_to_other_backup_nodes_def
    by (cases answer; simp; intro keeps_rules backup err)
  then show ?thesis
    unfolding send_transaction_def by (intro triple_bind_all [OF send])
qed

lemma triple_send_attempt:
  assumes "logs_sends R sent"
  shows "triple (sent_is sent nonce L) (send_attempt R tx first fees)
    (\<lambda>r s. (\<forall>h. r \<noteq> Ok (Some h)) \<and> sent_is sent nonce L s \<or>
       sent_is sent nonce (L @ [set_tx_parameters nonce fees tx]) s)"
    (is "triple ?P _ ?Q")
proof -
  have blk: "keeps ?P (t_rpc (rpc_block_number R))"
    by (rule keeps_sent_rpc) (use assms in \<open>simp add: logs_sends_def\<close>)
  have ended: "triple ?P (bind m (\<lambda>_. return None)) ?Q" if "keeps ?P m" for m :: "('a tstate, unit) action"
    by (rule triple_bind_keeps [OF that]) (auto simp: triple_def return_def)
  have send: "triple ?P (bind (t_get mt_nonce) (\<lambda>nonce.
            bind (send_transaction R (set_tx_parameters nonce fees tx)) (\<lambda>pending_tx.
            case pending_tx of
              None \<Rightarrow> bind (notify_result False) (\<lambda>_. return None)
            | Some tx_hash \<Rightarrow> bind (t_set (push_hash tx_hash)) (\<lambda>_. return (Some (tx_hash, b)))))) ?Q" for b
  proof (rule tripleI)
    fix s r s'
    assume P: "?P s" and run: "bind (t_get mt_nonce) (\<lambda>nonce.
            bind (send_transaction R (set_tx_parameters nonce fees tx)) (\<lambda>pending_tx.
            case pending_tx of
              None \<Rightarrow> bind (notify_result False) (\<lambda>_. return None)
            | Some tx_hash \<Rightarrow> bind (t_set (push_hash tx_hash)) (\<lambda>_. return (Some (tx_hash, b))))) s = (r, s')"
    have "triple ?P (bind (send_transaction R (set_tx_parameters nonce fees tx)) (\<lambda>pending_tx.
            case pending_tx of
              None \<Rightarrow> bind (notify_result False) (\<lambda>_. return None)
            | Some tx_hash \<Rightarrow> bind (t_set (push_hash tx_hash)) (\<lambda>_. return (Some (tx_hash, b))))) 
         (\<lambda>_. sent_is sent nonce (L @ [set_tx_parameters nonce fees tx]))"
      by (intro triple_bind_all [OF triple_send_transaction [OF assms]] keeps_rules)
    from tripleD [OF this P] run P show "?Q r s'" by (auto simp: t_get_def)
  qed
  show ?thesis
    unfolding send_attempt_def
    by (intro triple_attempt_keeps blk triple_bind_keeps triple_if send ended keeps_rules keeps_sent_verify assms)
      auto
qed

text \<open>\<open>fees'\<close> are \<open>fees\<close> doubled \<open>k\<close> times, without overflow.\<close>

definition fees_doubled :: "nat \<Rightarrow> tx_fees \<Rightarrow> tx_fees \<Rightarrow> bool" where
  "fees_doubled k fees fees' \<longleftrightarrow> unat (fee_max fees') = 2 ^ k * unat (fee_max fees) \<and>
     unat (fee_priority fees') = 2 ^ k * unat (fee_priority fees) \<and>
     rel_option (\<lambda>fee fee'. unat fee' = 2 ^ k * unat fee) (fee_blob fees) (fee_blob fees')"

lemma fees_doubled_0: "fees_doubled 0 fees fees"
  by (cases "fee_blob fees") (auto simp: fees_doubled_def)

lemma increase_fees_doubled: "increase_fees fees = Ok fees' \<Longrightarrow> fees_doubled k fees' fees'' \<Longrightarrow> fees_doubled (Suc k) fees fees''"
  by (cases "fee_blob fees"; cases "fee_blob fees'"; cases "fee_blob fees''")
    (auto simp: increase_fees_def fees_doubled_def and_then_Ok_iff algebra_simps)

definition sent_doubling :: "u64 \<Rightarrow> 'p tx_request \<Rightarrow> tx_fees \<Rightarrow> 'p tx_request list \<Rightarrow> bool" where
  "sent_doubling nonce tx fees txs \<longleftrightarrow>
     (\<forall>i < length txs. \<exists>fees'. fees_doubled i fees fees' \<and> txs ! i = set_tx_parameters nonce fees' tx)"

lemma sent_doubling_Nil [simp]: "sent_doubling nonce tx fees []"
  by (simp add: sent_doubling_def)

lemma sent_doubling_Cons:
  assumes "sent_doubling nonce tx fees' txs" "increase_fees fees = Ok fees'"
  shows "sent_doubling nonce tx fees (set_tx_parameters nonce fees tx # txs)"
  unfolding sent_doubling_def
proof (intro allI impI)
  fix i
  assume "i < length (set_tx_parameters nonce fees tx # txs)"
  then show "\<exists>f. fees_doubled i fees f \<and> (set_tx_parameters nonce fees tx # txs) ! i = set_tx_parameters nonce f tx"
    using assms fees_doubled_0 increase_fees_doubled by (cases i) (fastforce simp: sent_doubling_def)+
qed

lemma after_send_loop:
  assumes "logs_sends R sent"
  shows "after (sent_is sent nonce L) (send_loop R tx n first fees blk)
    (\<lambda>_ (t, w). mt_nonce t = nonce \<and> (\<exists>txs. sent w = L @ txs \<and> length txs \<le> n \<and> sent_doubling nonce tx fees txs))"
proof (induction n arbitrary: first fees blk L)
  case 0
  show ?case by (auto simp: after_def return_def)
next
  case (Suc n)
  let ?x = "set_tx_parameters nonce fees tx"
  let ?Q = "\<lambda>(t, w). mt_nonce t = nonce \<and>
    (\<exists>txs. sent w = L @ txs \<and> length txs \<le> Suc n \<and> sent_doubling nonce tx fees txs)"
  have one: "?Q s" if "sent_is sent nonce (L @ [?x]) s" for s
    using that fees_doubled_0 [of fees] by (auto simp: sent_doubling_def)
  have none: "?Q s" if "sent_is sent nonce L s" for s using that by auto
  have sent: "after (sent_is sent nonce L) (once (send_attempt R tx first fees))
      (\<lambda>r s. case r of Ok (Some _) \<Rightarrow> sent_is sent nonce (L @ [?x]) s | _ \<Rightarrow> ?Q s)"
    by (rule after_once, rule triple_conseq [OF triple_send_attempt [OF assms, of nonce L tx first fees]])
      (use one none in \<open>auto split: outcome.splits option.splits\<close>)
  have again: "after (sent_is sent nonce (L @ [?x])) (then_run (once (lift (increase_fees fees))) (\<lambda>fees.
      send_loop R tx n False fees b)) (\<lambda>_. ?Q)" for b
  proof (rule afterI)
    fix s r s'
    assume s: "sent_is sent nonce (L @ [?x]) s"
      and run: "then_run (once (lift (increase_fees fees))) (\<lambda>fees. send_loop R tx n False fees b) s = Some (r, s')"
    show "?Q s'"
    proof (cases "increase_fees fees")
      case (Ok fees')
      with run have "send_loop R tx n False fees' b s = Some (r, s')" by (simp add: then_once lift_def)
      from afterD [OF Suc.IH s this] sent_doubling_Cons [OF _ Ok, of nonce tx] show ?thesis by fastforce
    qed (use run s one in \<open>auto simp: then_once lift_def\<close>)
  qed
  have rest: "after (sent_is sent nonce (L @ [?x])) (then_run (is_transaction_handled_by_builder R h b) (\<lambda>handled.
         case handled of
           Some confirmed \<Rightarrow> once (bind (notify_result confirmed) (\<lambda>_. return None))
         | None \<Rightarrow> then_run (once (lift (increase_fees fees))) (\<lambda>fees. send_loop R tx n False fees b))) (\<lambda>_. ?Q)" for h b
    by (intro after_then_all [OF keeps_sent_handled [OF assms]] after_option again after_once_keeps keeps_rules)
      (rule one, assumption)+
  show ?case
    by (simp, rule after_then [OF sent], intro after_option after_once_keeps keeps_rules) (use rest in auto)
qed

lemma keeps_sent_wait:
  assumes "logs_sends R sent"
  shows "after (sent_is sent nonce L) (wait_stage R blk) (\<lambda>_. sent_is sent nonce L)"
proof -
  note v = keeps_sent_verify [OF assms]
  have "after (sent_is sent nonce L) (wait_loop R h blk n k) (\<lambda>_. sent_is sent nonce L)" for h n k
  proof (induction n arbitrary: k)
    case (Suc n)
    have "after (sent_is sent nonce L) (if b then once (return (Some True)) else wait_loop R h blk n k)
        (\<lambda>_. sent_is sent nonce L)" for b k
      using Suc by (auto intro: after_once_keeps keeps_return)
    moreover have "keeps (sent_is sent nonce L) (bind (t_get f) lift)" for f :: "monitor_thread \<Rightarrow> u64 outcome"
      by (intro keeps_rules)
    ultimately show ?case
      by (simp, intro after_then_all [OF keeps_sent_handled [OF assms]] after_option
          after_then_all [OF after_once_keeps [where Q = "sent_is sent nonce L"]] after_once_keeps keeps_rules v)
  qed (auto intro: after_once_keeps keeps_return)
  then show ?thesis
    unfolding wait_stage_def
    by (intro after_then_all [where R = "sent_is sent nonce L"]) 
      (auto intro!: after_once_keeps keeps_rules after_then_all [where R = "sent_is sent nonce L"] after_option
        split: prod.splits)
qed

lemma initial_fees_priority:
  "initial_fees config tx = Ok fees \<Longrightarrow> min_priority_fee_per_gas_wei config \<le> fee_priority fees"
  by (auto simp: initial_fees_def and_then_Ok_iff word_le_nat_alt word_less_nat_alt split: if_splits)

text \<open>
  C20: Replacements. Whatever the L1 node answers, the requests that a task sends to it are at most
  \<open>max_attempts_to_send_tx\<close> many; all have the nonce and the chain id of the task and the body of the
  given request; the first has the initial fees, with a priority fee not below the configured
  minimum, and every further one has twice the fees of its predecessor, which is what L1 nodes ask
  of a replacement. The world keeps a list of the requests sent.
\<close>
theorem replacements_double_fees:
  assumes "logs_sends R sent"
    and "monitor_transaction R tx (monitor_thread_new config nonce chain_id, w) = Some (r, (t', w'))"
  shows "\<exists>txs. sent w' = sent w @ txs \<and> length txs \<le> unat (max_attempts_to_send_tx config) \<and>
    (txs \<noteq> [] \<longrightarrow> (\<exists>fees. initial_fees config tx = Ok fees \<and>
       min_priority_fee_per_gas_wei config \<le> fee_priority fees \<and>
       (\<forall>i < length txs. \<exists>fees'. fees_doubled i fees fees' \<and>
          txs ! i = set_tx_parameters nonce fees' (tx\<lparr>tx_nonce := Some nonce, tx_chain_id := Some chain_id\<rparr>))))"
proof -
  let ?t = "monitor_thread_new config nonce chain_id"
  let ?tx = "tx\<lparr>tx_nonce := Some nonce, tx_chain_id := Some chain_id\<rparr>"
  let ?n = "unat (max_attempts_to_send_tx config)"
  have cong: "initial_fees config ?tx = initial_fees config tx" by (simp add: initial_fees_def)
  have t: "mt_nonce ?t = nonce" "mt_chain_id ?t = chain_id" "mt_config ?t = config"
    by (simp_all add: monitor_thread_new_def)
  show ?thesis
  proof (cases "buildable_type R (tx\<lparr>tx_nonce := Some nonce\<rparr>) \<in> {Some Eip1559, Some Eip4844} \<and>
      is_ok (initial_fees config tx)")
    case False
    with assms(2) have "w' = w"
      by (auto simp: monitor_transaction_def then_once task_defs t cong Let_def lift_def bind_def
          split: outcome.splits if_splits)
    then show ?thesis by (intro exI [of _ "[]"]) simp
  next
    case True
    then obtain fees where fees: "initial_fees config tx = Ok fees" by (cases "initial_fees config tx") auto
    let ?Q = "\<lambda>(t, w'). mt_nonce t = nonce \<and>
      (\<exists>txs. sent w' = sent w @ txs \<and> length txs \<le> ?n \<and> sent_doubling nonce ?tx fees txs)"
    have loop: "after (sent_is sent nonce (sent w)) (send_loop R ?tx ?n True fees 0) (\<lambda>_. ?Q)"
      by (rule after_send_loop [OF assms(1)])
    have wait: "after ?Q (wait_stage R blk) (\<lambda>_. ?Q)" for blk
      using keeps_sent_wait [OF assms(1)] unfolding after_def by fastforce
    have "after (sent_is sent nonce (sent w)) (then_run (send_loop R ?tx ?n True fees 0) (\<lambda>s.
       case s of None \<Rightarrow> once (return ()) | Some blk \<Rightarrow> wait_stage R blk)) (\<lambda>_. ?Q)"
      by (intro after_then_all [OF loop] after_option wait after_once_keeps keeps_rules)
    from afterD [OF this, of "(?t, w)" r "(t', w')"] assms(2) True fees
    obtain txs where "sent w' = sent w @ txs" "length txs \<le> ?n" "sent_doubling nonce ?tx fees txs"
      by (auto simp: monitor_transaction_def then_once t_get_def gets_def t cong Let_def lift_def)
    with fees initial_fees_priority [OF fees] show ?thesis by (auto simp: sent_doubling_def)
  qed
qed

section \<open>Termination\<close>


section \<open>A race in the report\<close>

text \<open>
  An included transaction reported as failed. If, in a replacement attempt, the transaction is
  included between the check for inclusion and the sending of the replacement, the L1 node answers
  that the nonce is too low; the task then finds the transaction included and signals no error,
  but it notifies a negative result.
\<close>
lemma included_transaction_reported_failed:
  assumes "rpc_block_number R w = (Ok blk, w1)"
    and "verify_tx_included R (t, w1) = (Ok False, (t, w2))"
    and "rpc_send R (set_tx_parameters (mt_nonce t) fees tx) w2 = (Ok (Refused (ErrorResp msg)), w3)"
    and "contains ''nonce too low'' msg"
    and "verify_tx_included R (t, w3) = (Ok True, (t, w4))"
  shows "send_loop R tx (Suc n) False fees b (t, w) = Some (Ok None, (t\<lparr>result_sent := Some False\<rparr>, w4))"
  using assms
  by (simp add: then_once send_attempt_def attempt_def send_transaction_def handle_rpc_error_def bind_def
      task_defs once_def)

section \<open>One transaction at a time\<close>

text \<open>
  The monitor itself: the handle of the last task, and the tasks of the runtime that are still
  running.
\<close>

record tx_monitor =
  monitor_handle :: "nat option"
  running :: "nat set"
  spawned :: nat

definition tx_monitor_new :: tx_monitor where
  "tx_monitor_new = \<lparr>monitor_handle = None, running = {}, spawned = 0\<rparr>"

definition monitor_in_progress :: "tx_monitor \<Rightarrow> bool" where
  "monitor_in_progress m = (case monitor_handle m of Some h \<Rightarrow> h \<in> running m | None \<Rightarrow> False)"

definition start_monitoring :: "(tx_monitor, unit) action" where
  "start_monitoring m =
     (if (case monitor_handle m of Some h \<Rightarrow> h \<in> running m | None \<Rightarrow> False)
      then (Err (Anyhow ''Cannot monitor new transaction, previous transaction is in progress''), m)
      else (Ok (), m\<lparr>monitor_handle := Some (spawned m), running := insert (spawned m) (running m),
                    spawned := spawned m + 1\<rparr>))"

inductive monitor_step :: "tx_monitor \<Rightarrow> tx_monitor \<Rightarrow> bool" where
  start: "start_monitoring m = (r, m') \<Longrightarrow> monitor_step m m'"
| finish: "h \<in> running m \<Longrightarrow> monitor_step m (m\<lparr>running := running m - {h}\<rparr>)"

definition at_most_last :: "tx_monitor \<Rightarrow> bool" where
  "at_most_last m \<longleftrightarrow> (\<forall>h \<in> running m. monitor_handle m = Some h)"

interpretation txm: safe_system "\<lambda>m. m = tx_monitor_new" monitor_step at_most_last
  by unfold_locales
    (auto simp: tx_monitor_new_def at_most_last_def start_monitoring_def elim!: monitor_step.cases
      split: if_splits option.splits)

text \<open>
  One transaction at a time. However starts of new transactions and ends of tasks interleave, at
  most one monitoring task is running; a transaction is reported to be in progress exactly if one
  is, and a new one is accepted exactly if none is.
\<close>
lemma one_transaction_at_a_time:
  assumes "reach (\<lambda>m. m = tx_monitor_new) monitor_step m"
  shows "card (running m) \<le> 1 \<and> (monitor_in_progress m \<longleftrightarrow> running m \<noteq> {}) \<and>
    (is_ok (fst (start_monitoring m)) \<longleftrightarrow> running m = {})"
proof -
  have safe: "\<forall>h \<in> running m. monitor_handle m = Some h"
    using txm.reach_safe [OF assms] by (simp add: at_most_last_def)
  show ?thesis
  proof (cases "running m = {}")
    case True
    then show ?thesis by (auto simp: monitor_in_progress_def start_monitoring_def split: option.splits)
  next
    case False
    then obtain h where h: "h \<in> running m" by blast
    with safe have handle: "monitor_handle m = Some h" by blast
    with safe h have "running m = {h}" by fastforce
    with handle show ?thesis by (auto simp: monitor_in_progress_def start_monitoring_def)
  qed
qed

section \<open>A transaction that needs a replacement\<close>

text \<open>
  Concrete data: the world is the list of requests sent and the L1 height, which grows with every
  look at it. A transaction gets a receipt once it has been replaced.
\<close>

definition demo_rpc :: "(nat tx_request list \<times> u64, nat) l1_rpc" where
  "demo_rpc =
     \<lparr>buildable_type = (\<lambda>tx. Some Eip4844),
      rpc_block_number = (\<lambda>(l, b). (Ok b, (l, b + 1))),
      rpc_send = (\<lambda>tx (l, b). (Ok (Accepted (of_nat (length l))), (l @ [tx], b))),
      rpc_send_backup = (\<lambda>url tx. return ()),
      rpc_tx_by_hash = (\<lambda>h. return (Some None)),
      rpc_receipt = (\<lambda>h d (l, b). (Ok (if length l \<ge> 2 then Receipt True (Some b) else WatchTimeout), (l, b))),
      rpc_debug_trace = (\<lambda>h. return []),
      rpc_call_again = (\<lambda>h b. return (Inl [])),
      show_hash = (\<lambda>h. [])\<rparr>"

definition demo_tx_config :: tx_monitor_config where
  "demo_tx_config = \<lparr>min_priority_fee_per_gas_wei = 5, tx_fees_increase_percentage = 20,
     max_attempts_to_send_tx = 4, max_attempts_to_wait_tx = 3, delay_between_tx_attempts = 1,
     execution_rpc_urls = [[], ''backup'']\<rparr>"

definition demo_tx :: "nat tx_request" where
  "demo_tx = \<lparr>tx_nonce = None, tx_chain_id = None, tx_max_fee_per_gas = Some 10,
     tx_max_priority_fee_per_gas = Some 3, tx_max_fee_per_blob_gas = Some 1, tx_body = 0\<rparr>"

lemmas send_loop_numeral = send_loop.simps(2) [of R tx "pred_numeral k" for R tx k, folded numeral_eq_Suc]

lemmas tx_eval = monitor_transaction_def then_once then_run_def once_def task_defs monitor_thread_new_def
  initial_fees_def expect_def eval_arith send_attempt_def attempt_def bind_def verify_tx_included_def
  send_transaction_def propagate_transaction_to_other_backup_nodes_def push_hash_def lift_def
  is_transaction_handled_by_builder_def poll_unfold handled_round_def wait_for_tx_receipt_def increase_fees_def
  demo_rpc_def demo_tx_config_def demo_tx_def Let_def set_tx_parameters_def send_loop_numeral

lemma set_tx_parameters_fields:
  "tx_max_fee_per_gas (set_tx_parameters nonce fees tx) = Some (fee_max fees)"
  "tx_max_priority_fee_per_gas (set_tx_parameters nonce fees tx) = Some (fee_priority fees)"
  "tx_nonce (set_tx_parameters nonce fees tx) = Some nonce"
  by (simp_all add: set_tx_parameters_def)

lemma demo_logs: "logs_sends demo_rpc fst"
  by (auto simp: logs_sends_def demo_rpc_def return_def)

lemma demo_monitor:
  "\<exists>t' w'. monitor_transaction demo_rpc demo_tx (monitor_thread_new demo_tx_config 7 1, ([], 100)) =
      Some (Ok (), (t', w')) \<and> length (fst w') = 2 \<and> signals t' = []"
  by (simp add: tx_eval del: add_Ok_iff sub_Ok_iff mul_Ok_iff add_Panic_iff sub_Panic_iff mul_Panic_iff
      div_chk_Ok_iff div_chk_Panic_iff)

theorem silent_task_means_included_witness:
  "\<exists>t' w'. monitor_transaction demo_rpc demo_tx (monitor_thread_new demo_tx_config 7 1, ([], 100)) =
      Some (Ok (), (t', w')) \<and> result_sent t' \<noteq> None \<and> (\<exists>h \<in> set (sent_tx_hashes t'). on_chain demo_rpc h)"
proof -
  obtain t' w' where run: "monitor_transaction demo_rpc demo_tx (monitor_thread_new demo_tx_config 7 1, ([], 100)) =
      Some (Ok (), (t', w'))" and silent: "signals t' = []"
    using demo_monitor by blast
  have "max_attempts_to_send_tx demo_tx_config \<noteq> 0" by (simp add: demo_tx_config_def)
  from silent_task_means_included [OF run this] silent run show ?thesis
    unfolding on_chain_def by blast
qed

theorem replacements_double_fees_witness:
  "\<exists>r t' w' tx1 tx2. monitor_transaction demo_rpc demo_tx (monitor_thread_new demo_tx_config 7 1, ([], 100)) =
      Some (r, (t', w')) \<and> fst w' = [tx1, tx2] \<and>
    tx_max_fee_per_gas tx1 = Some 22 \<and> tx_max_fee_per_gas tx2 = Some 44 \<and>
    tx_max_priority_fee_per_gas tx2 = Some 10 \<and> tx_nonce tx2 = Some 7"
proof -
  let ?run = "monitor_transaction demo_rpc demo_tx (monitor_thread_new demo_tx_config 7 1, ([], 100))"
  obtain t' w' where run: "?run = Some (Ok (), (t', w'))" and len: "length (fst w') = 2"
    using demo_monitor by blast
  have fees: "initial_fees demo_tx_config demo_tx = Ok \<lparr>fee_max = 22, fee_priority = 5, fee_blob = Some 2\<rparr>"
    by (simp add: tx_eval del: add_Ok_iff sub_Ok_iff mul_Ok_iff add_Panic_iff sub_Panic_iff mul_Panic_iff
        div_chk_Ok_iff div_chk_Panic_iff)
  from replacements_double_fees [OF demo_logs run] len fees
  have all: "\<forall>i < 2. \<exists>f. fees_doubled i \<lparr>fee_max = 22, fee_priority = 5, fee_blob = Some 2\<rparr> f \<and>
      fst w' ! i = set_tx_parameters 7 f (demo_tx\<lparr>tx_nonce := Some 7, tx_chain_id := Some 1\<rparr>)" by auto
  then obtain f0 f1 where
    f0: "fees_doubled 0 \<lparr>fee_max = 22, fee_priority = 5, fee_blob = Some 2\<rparr> f0"
      "fst w' ! 0 = set_tx_parameters 7 f0 (demo_tx\<lparr>tx_nonce := Some 7, tx_chain_id := Some 1\<rparr>)"
    and f1: "fees_doubled 1 \<lparr>fee_max = 22, fee_priority = 5, fee_blob = Some 2\<rparr> f1"
      "fst w' ! 1 = set_tx_parameters 7 f1 (demo_tx\<lparr>tx_nonce := Some 7, tx_chain_id := Some 1\<rparr>)"
    by (metis one_less_numeral_iff semiring_norm(76) zero_less_numeral)
  have "fee_max f0 = 22" "fee_max f1 = 44" "fee_priority f1 = 10"
    using f0(1) f1(1) by (simp_all add: fees_doubled_def word_unat_eq_iff)
  moreover from len have "fst w' = [fst w' ! 0, fst w' ! 1]"
    by (cases "fst w'"; cases "tl (fst w')") auto
  ultimately show ?thesis
    using run f0(2) f1(2) by (metis set_tx_parameters_fields)
qed


end
