(* ===== verification/Realtime_Batch.thy ===== *)
theory Realtime_Batch
  imports Proposal Slot_Clock
begin

text \<open>
  \<^verbatim>\<open>src/realtime/src/node/proposal_manager/batch_builder.rs\<close>, \<^verbatim>\<open>proposal.rs\<close>, \<^verbatim>\<open>l2_block_payload.rs\<close>, and the
  data of \<^verbatim>\<open>bridge_handler.rs\<close> that a batch carries: the batch builder of the real-time node. A batch
  here also collects the user operations, the signal slots and the L1 calls that its blocks
  cause, and the checkpoint of its last block.

  The abstract specification of the builder is a \<open>batch_log\<close>: sealed lists of blocks and one open
  list. \<open>rt_event\<close> names what an operation does to it; \<open>builder_move\<close> are the operations of the
  builder with their events, and they simulate the moves of the log.
\<close>

section \<open>Data\<close>

text \<open>The struct \<open>IBridge.Message\<close> of the bridge contract, with the fields the code reads.\<close>

record message =
  msg_id :: u64
  msg_fee :: u64
  msg_gas_limit :: u32
  msg_from :: address
  msg_src_chain_id :: u64
  msg_src_owner :: address
  msg_dest_chain_id :: u64
  msg_dest_owner :: address
  msg_to :: address
  msg_value :: b256
  msg_data :: "u8 list"

record user_op =
  uo_id :: u64
  uo_submitter :: address
  uo_calldata :: "u8 list"

record l1_call =
  message_from_l2 :: message
  signal_slot_proof :: "u8 list"
  required_return_signal :: "b256 option"

record 'tx rt_proposal =
  rp_l2_blocks :: "'tx l2_block_v2 list"
  rp_total_bytes :: u64
  rp_coinbase :: address
  rp_max_anchor_block_number :: u64
  rp_max_anchor_block_hash :: b256
  rp_max_anchor_state_root :: b256
  rp_checkpoint :: checkpoint
  rp_last_finalized_block_hash :: b256
  rp_user_ops :: "user_op list"
  rp_l2_user_op_ids :: "u64 list"
  rp_l2_mempool_tx_hashes :: "b256 list"
  rp_signal_slots :: "b256 list"
  rp_l1_calls :: "l1_call list"
  rp_zk_proof :: "u8 list option"
  rp_blob_payload :: "u8 list option"

record 'tx rt_payload =
  rpl_coinbase :: address
  rpl_tx_list :: "'tx list"
  rpl_timestamp_sec :: u64
  rpl_gas_limit_without_anchor :: u64
  rpl_anchor_block_id :: u64
  rpl_anchor_block_hash :: b256
  rpl_anchor_state_root :: b256

section \<open>Operations on a proposal\<close>

definition rt_compress :: "'tx encoder \<Rightarrow> 'tx rt_proposal \<Rightarrow> 'tx rt_proposal" where
  "rt_compress enc p =
     (case enc (map block_manifest_of (rp_l2_blocks p)) of
        Some manifest_data \<Rightarrow> p\<lparr>rp_total_bytes := of_nat (length manifest_data)\<rparr>
      | None \<Rightarrow> p)"

definition rt_create_block_from_draft :: "'tx rt_proposal \<Rightarrow> 'tx l2_block_draft \<Rightarrow> 'tx l2_block_v2" where
  "rt_create_block_from_draft p d =
     l2_block_new_from (d_prebuilt_tx_list d) (d_timestamp_sec d) (rp_coinbase p)
       (rp_max_anchor_block_number p) (d_gas_limit_without_anchor d)"

definition rt_add_l2_block ::
  "'tx rt_proposal \<Rightarrow> 'tx l2_block_v2 \<Rightarrow> ('tx rt_payload \<times> 'tx rt_proposal) outcome" where
  "rt_add_l2_block p b =
     and_then (add (rp_total_bytes p) (block_bytes b)) (\<lambda>total. Ok
       (\<lparr>rpl_coinbase = rp_coinbase p, rpl_tx_list = tx_list (b_prebuilt_tx_list b),
         rpl_timestamp_sec = b_timestamp_sec b,
         rpl_gas_limit_without_anchor = b_gas_limit_without_anchor b,
         rpl_anchor_block_id = rp_max_anchor_block_number p,
         rpl_anchor_block_hash = rp_max_anchor_block_hash p,
         rpl_anchor_state_root = rp_max_anchor_state_root p\<rparr>,
        p\<lparr>rp_total_bytes := total, rp_l2_blocks := rp_l2_blocks p @ [b]\<rparr>))"

definition rt_add_draft ::
  "'tx rt_proposal \<Rightarrow> 'tx l2_block_draft \<Rightarrow> ('tx rt_payload \<times> 'tx rt_proposal) outcome" where
  "rt_add_draft p d = rt_add_l2_block p (rt_create_block_from_draft p d)"

section \<open>The builder\<close>

record 'tx rt_builder =
  rt_config :: batch_builder_config
  proposals_to_send :: "'tx rt_proposal list"
  rt_current :: "'tx rt_proposal option"
  rt_clock :: slot_clock

definition rt_builder_new :: "batch_builder_config \<Rightarrow> slot_clock \<Rightarrow> 'tx rt_builder" where
  "rt_builder_new c clk =
     \<lparr>rt_config = c, proposals_to_send = [], rt_current = None, rt_clock = clk\<rparr>"

text \<open>The timestamp of the last block of the current proposal, which several methods read.\<close>

definition rt_last_timestamp :: "'tx rt_builder \<Rightarrow> u64 option" where
  "rt_last_timestamp b =
     Option.bind (rt_current b) (\<lambda>p.
       if rp_l2_blocks p = [] then None else Some (b_timestamp_sec (last (rp_l2_blocks p))))"

definition is_time_shift_expired :: "u64 \<Rightarrow> 'tx rt_builder \<Rightarrow> bool outcome" where
  "is_time_shift_expired current_l2_slot_timestamp b =
     (case rt_last_timestamp b of
        None \<Rightarrow> Ok False
      | Some last_ts \<Rightarrow>
          and_then (sub current_l2_slot_timestamp last_ts) (\<lambda>shift.
            Ok (max_time_shift_between_blocks_sec (rt_config b) < shift)))"

text \<open>The closure of \<open>can_consume_l2_block\<close>: the verdict, and the batch it may have compressed.\<close>

definition rt_consume_check ::
  "'tx encoder \<Rightarrow> batch_builder_config \<Rightarrow> 'tx l2_block_draft \<Rightarrow> bool \<Rightarrow> 'tx rt_proposal \<Rightarrow>
   (bool \<times> 'tx rt_proposal) outcome" where
  "rt_consume_check enc c d expired batch =
     (case try_from (length (rp_l2_blocks batch) + 1) of
        Err _ \<Rightarrow> Ok (False, batch)
      | Panic \<Rightarrow> Panic
      | Ok new_block_count \<Rightarrow>
          and_then (add (rp_total_bytes batch) (draft_bytes d)) (\<lambda>new_total_bytes.
          if is_within_bytes_limit c new_total_bytes
          then Ok (is_within_block_limit c new_block_count \<and> \<not> expired, batch)
          else
            let batch = rt_compress enc batch in
            and_then (add (rp_total_bytes batch) (draft_bytes d)) (\<lambda>new_total_bytes.
            if is_within_bytes_limit c new_total_bytes
            then Ok (is_within_block_limit c new_block_count \<and> \<not> expired, batch)
            else
              and_then (rt_add_draft batch d) (\<lambda>(_, batch_clone).
              Ok (is_within_bytes_limit c (rp_total_bytes (rt_compress enc batch_clone)) \<and>
                  is_within_block_limit c new_block_count \<and> \<not> expired, batch)))))"

definition rt_can_consume_l2_block ::
  "'tx encoder \<Rightarrow> 'tx l2_block_draft \<Rightarrow> ('tx rt_builder, bool) action" where
  "rt_can_consume_l2_block enc d b =
     (case is_time_shift_expired (d_timestamp_sec d) b of
        Err e \<Rightarrow> (Err e, b)
      | Panic \<Rightarrow> (Panic, b)
      | Ok expired \<Rightarrow>
          (case rt_current b of
             None \<Rightarrow> (Ok False, b)
           | Some p \<Rightarrow>
               (case rt_consume_check enc (rt_config b) d expired p of
                  Ok (verdict, p') \<Rightarrow> (Ok verdict, b\<lparr>rt_current := Some p'\<rparr>)
                | Err e \<Rightarrow> (Err e, b)
                | Panic \<Rightarrow> (Panic, b))))"

definition finalize_current_batch :: "'tx rt_builder \<Rightarrow> 'tx rt_builder" where
  "finalize_current_batch b =
     (case rt_current b of
        None \<Rightarrow> b
      | Some batch \<Rightarrow>
          if rp_l2_blocks batch \<noteq> []
          then b\<lparr>rt_current := None, proposals_to_send := proposals_to_send b @ [batch]\<rparr>
          else b\<lparr>rt_current := None\<rparr>)"

definition checkpoint_default :: checkpoint where
  "checkpoint_default = \<lparr>cp_block_number = 0, cp_block_hash = 0, cp_state_root = 0\<rparr>"

definition fresh_batch :: "anchor_block_info \<Rightarrow> address \<Rightarrow> b256 \<Rightarrow> 'tx rt_proposal" where
  "fresh_batch anchor_block cb last_finalized =
     \<lparr>rp_l2_blocks = [], rp_total_bytes = 0, rp_coinbase = cb,
      rp_max_anchor_block_number = ab_id anchor_block,
      rp_max_anchor_block_hash = ab_hash anchor_block,
      rp_max_anchor_state_root = ab_state_root anchor_block,
      rp_checkpoint = checkpoint_default, rp_last_finalized_block_hash = last_finalized,
      rp_user_ops = [], rp_l2_user_op_ids = [], rp_l2_mempool_tx_hashes = [],
      rp_signal_slots = [], rp_l1_calls = [], rp_zk_proof = None, rp_blob_payload = None\<rparr>"

definition create_new_batch :: "anchor_block_info \<Rightarrow> b256 \<Rightarrow> 'tx rt_builder \<Rightarrow> 'tx rt_builder" where
  "create_new_batch anchor_block last_finalized b =
     (finalize_current_batch b)\<lparr>rt_current :=
        Some (fresh_batch anchor_block (default_coinbase (rt_config b)) last_finalized)\<rparr>"

text \<open>\<open>if let Some(current_proposal) = self.current_proposal.as_mut()\<close>, with the error of the \<open>else\<close>.\<close>

definition rt_on_current ::
  "('tx rt_proposal \<Rightarrow> ('a \<times> 'tx rt_proposal) outcome) \<Rightarrow> string \<Rightarrow> ('tx rt_builder, 'a) action" where
  "rt_on_current f msg b =
     (case rt_current b of
        None \<Rightarrow> (Err (Anyhow msg), b)
      | Some p \<Rightarrow>
          (case f p of
             Ok (a, p') \<Rightarrow> (Ok a, b\<lparr>rt_current := Some p'\<rparr>)
           | Err e \<Rightarrow> (Err e, b)
           | Panic \<Rightarrow> (Panic, b)))"

definition rt_add_l2_draft_block :: "'tx l2_block_draft \<Rightarrow> ('tx rt_builder, 'tx rt_payload) action" where
  "rt_add_l2_draft_block d = rt_on_current (\<lambda>p. rt_add_draft p d) ''No current batch''"

definition add_user_op :: "user_op \<Rightarrow> ('tx rt_builder, unit) action" where
  "add_user_op op =
     rt_on_current (\<lambda>p. Ok ((), p\<lparr>rp_user_ops := rp_user_ops p @ [op]\<rparr>)) ''No current batch''"

definition add_l2_mempool_tx_hash :: "b256 \<Rightarrow> ('tx rt_builder, unit) action" where
  "add_l2_mempool_tx_hash h =
     rt_on_current (\<lambda>p. Ok ((), p\<lparr>rp_l2_mempool_tx_hashes := rp_l2_mempool_tx_hashes p @ [h]\<rparr>))
       ''No current batch for L2 mempool tx hash''"

definition add_signal_slot :: "b256 \<Rightarrow> ('tx rt_builder, unit) action" where
  "add_signal_slot sl =
     rt_on_current (\<lambda>p. Ok ((), p\<lparr>rp_signal_slots := rp_signal_slots p @ [sl]\<rparr>)) ''No current batch''"

definition add_l1_call :: "l1_call \<Rightarrow> ('tx rt_builder, unit) action" where
  "add_l1_call c =
     rt_on_current (\<lambda>p. Ok ((), p\<lparr>rp_l1_calls := rp_l1_calls p @ [c]\<rparr>)) ''No current batch''"

definition set_proposal_checkpoint :: "checkpoint \<Rightarrow> ('tx rt_builder, unit) action" where
  "set_proposal_checkpoint cp =
     rt_on_current (\<lambda>p. Ok ((), p\<lparr>rp_checkpoint := cp\<rparr>)) ''No current batch''"

definition rt_remove_last_l2_block :: "('tx rt_builder, unit) action" where
  "rt_remove_last_l2_block b =
     (case rt_current b of
        None \<Rightarrow> (Ok (), b)
      | Some p \<Rightarrow>
          if rp_l2_blocks p = [] then (Ok (), b)
          else
            (case sub (rp_total_bytes p) (block_bytes (last (rp_l2_blocks p))) of
               Ok bytes \<Rightarrow>
                 let blocks = butlast (rp_l2_blocks p) in
                 (Ok (), b\<lparr>rt_current := (if blocks = [] then None
                    else Some (p\<lparr>rp_l2_blocks := blocks, rp_total_bytes := bytes\<rparr>))\<rparr>)
             | Err e \<Rightarrow> (Err e, b)
             | Panic \<Rightarrow> (Panic, b)))"

definition rt_is_empty :: "'tx rt_builder \<Rightarrow> bool" where
  "rt_is_empty b = (rt_current b = None \<and> proposals_to_send b = [])"

definition finalize_if_needed :: "bool \<Rightarrow> ('tx rt_builder, unit) action" where
  "finalize_if_needed submit_only_full_batches b =
     (case rt_current b of
        None \<Rightarrow> (Ok (), b)
      | Some p \<Rightarrow>
          if \<not> submit_only_full_batches then (Ok (), finalize_current_batch b)
          else
            let n :: u16 = (case try_from (length (rp_l2_blocks p)) of Ok n \<Rightarrow> n | _ \<Rightarrow> - 1) in
            (case add n 1 of
               Ok m \<Rightarrow> (Ok (), if \<not> is_within_block_limit (rt_config b) m then finalize_current_batch b else b)
             | Err e \<Rightarrow> (Err e, b)
             | Panic \<Rightarrow> (Panic, b)))"

definition pop_oldest_batch :: "b256 \<Rightarrow> 'tx rt_builder \<Rightarrow> 'tx rt_proposal option \<times> 'tx rt_builder" where
  "pop_oldest_batch last_finalized b =
     (case proposals_to_send b of
        [] \<Rightarrow> (None, b)
      | batch # rest \<Rightarrow>
          (Some (batch\<lparr>rp_last_finalized_block_hash := last_finalized\<rparr>), b\<lparr>proposals_to_send := rest\<rparr>))"

definition push_front_batch :: "'tx rt_proposal \<Rightarrow> 'tx rt_builder \<Rightarrow> 'tx rt_builder" where
  "push_front_batch batch b = b\<lparr>proposals_to_send := batch # proposals_to_send b\<rparr>"

definition rt_is_time_shift_between_blocks_expiring :: "'tx rt_builder \<Rightarrow> u64 \<Rightarrow> bool outcome" where
  "rt_is_time_shift_between_blocks_expiring b current_l2_slot_timestamp =
     (case rt_last_timestamp b of
        None \<Rightarrow> Ok False
      | Some last_ts \<Rightarrow>
          if current_l2_slot_timestamp < last_ts then Ok False
          else is_last_slot_for_empty_block current_l2_slot_timestamp last_ts
                 (max_time_shift_between_blocks_sec (rt_config b)) (l1_slot_duration_sec (rt_config b)))"

definition rt_is_greater_than_max_anchor_height_offset :: "system_time \<Rightarrow> 'tx rt_builder \<Rightarrow> bool outcome" where
  "rt_is_greater_than_max_anchor_height_offset now b =
     (case rt_current b of
        None \<Rightarrow> Ok False
      | Some p \<Rightarrow>
          and_then (get_current_slot (rt_clock b) now) (\<lambda>current_l1_block.
          if rp_max_anchor_block_number p < current_l1_block
          then and_then (sub current_l1_block (rp_max_anchor_block_number p)) (\<lambda>offset.
                 Ok (max_anchor_height_offset (rt_config b) < offset))
          else Ok False))"

definition get_number_of_batches :: "'tx rt_builder \<Rightarrow> u64 outcome" where
  "get_number_of_batches b =
     add (of_nat (length (proposals_to_send b))) (if rt_current b \<noteq> None then 1 else 0)"

definition rt_should_new_block_be_created ::
  "'tx rt_builder \<Rightarrow> 'tx pre_built_tx_list option \<Rightarrow> u64 \<Rightarrow> bool \<Rightarrow> bool outcome" where
  "rt_should_new_block_be_created b pending_tx_list current_l2_slot_timestamp end_of_seq =
     (let number_of_pending_txs :: u64 = (case pending_tx_list of
            None \<Rightarrow> 0 | Some l \<Rightarrow> of_nat (length (tx_list l)))
      in and_then (rt_is_time_shift_between_blocks_expiring b current_l2_slot_timestamp) (\<lambda>required.
         if required \<or> end_of_seq then Ok True
         else if preconf_min_txs (rt_config b) \<le> number_of_pending_txs then Ok True
         else (case rt_last_timestamp b of
            None \<Rightarrow> Ok True
          | Some last_ts \<Rightarrow>
              and_then (mul (saturating_sub current_l2_slot_timestamp last_ts) 1000) (\<lambda>ms.
              and_then (div_chk ms (preconf_heartbeat_ms (rt_clock b))) (\<lambda>number_of_l2_slots.
              Ok (preconf_max_skipped_l2_slots (rt_config b) < number_of_l2_slots))))))"

section \<open>Frame conditions\<close>

lemma rt_compress_fields [simp]:
  "rp_l2_blocks (rt_compress enc p) = rp_l2_blocks p"
  "rp_coinbase (rt_compress enc p) = rp_coinbase p"
  "rp_max_anchor_block_number (rt_compress enc p) = rp_max_anchor_block_number p"
  "rp_checkpoint (rt_compress enc p) = rp_checkpoint p"
  "rp_last_finalized_block_hash (rt_compress enc p) = rp_last_finalized_block_hash p"
  "rp_user_ops (rt_compress enc p) = rp_user_ops p"
  "rp_l2_user_op_ids (rt_compress enc p) = rp_l2_user_op_ids p"
  "rp_l2_mempool_tx_hashes (rt_compress enc p) = rp_l2_mempool_tx_hashes p"
  "rp_signal_slots (rt_compress enc p) = rp_signal_slots p"
  "rp_l1_calls (rt_compress enc p) = rp_l1_calls p"
  by (simp_all add: rt_compress_def split: option.splits)

lemma rt_create_block_fields [simp]:
  "block_bytes (rt_create_block_from_draft p d) = draft_bytes d"
  "b_coinbase (rt_create_block_from_draft p d) = rp_coinbase p"
  "b_anchor_block_number (rt_create_block_from_draft p d) = rp_max_anchor_block_number p"
  "b_timestamp_sec (rt_create_block_from_draft p d) = d_timestamp_sec d"
  by (simp_all add: rt_create_block_from_draft_def l2_block_new_from_def)

lemma rt_add_l2_block_Ok_iff:
  "rt_add_l2_block p b = Ok (pl, q) \<longleftrightarrow>
     (\<exists>total. unat total = unat (rp_total_bytes p) + unat (block_bytes b) \<and>
        q = p\<lparr>rp_total_bytes := total, rp_l2_blocks := rp_l2_blocks p @ [b]\<rparr> \<and>
        pl = \<lparr>rpl_coinbase = rp_coinbase p, rpl_tx_list = tx_list (b_prebuilt_tx_list b),
              rpl_timestamp_sec = b_timestamp_sec b,
              rpl_gas_limit_without_anchor = b_gas_limit_without_anchor b,
              rpl_anchor_block_id = rp_max_anchor_block_number p,
              rpl_anchor_block_hash = rp_max_anchor_block_hash p,
              rpl_anchor_state_root = rp_max_anchor_state_root p\<rparr>)"
  by (auto simp: rt_add_l2_block_def)

lemma rt_on_current_Ok_iff:
  "rt_on_current f msg b = (Ok a, b') \<longleftrightarrow>
     (\<exists>p p'. rt_current b = Some p \<and> f p = Ok (a, p') \<and> b' = b\<lparr>rt_current := Some p'\<rparr>)"
  by (auto simp: rt_on_current_def split: option.splits outcome.splits)

lemma rt_add_l2_draft_block_Ok:
  assumes "rt_add_l2_draft_block d b = (Ok pl, b')"
  obtains p bytes where "rt_current b = Some p"
    "unat bytes = unat (rp_total_bytes p) + unat (draft_bytes d)"
    "b' = b\<lparr>rt_current := Some (p\<lparr>rp_total_bytes := bytes,
        rp_l2_blocks := rp_l2_blocks p @ [rt_create_block_from_draft p d]\<rparr>)\<rparr>"
    "pl = \<lparr>rpl_coinbase = rp_coinbase p, rpl_tx_list = tx_list (d_prebuilt_tx_list d),
            rpl_timestamp_sec = d_timestamp_sec d,
            rpl_gas_limit_without_anchor = d_gas_limit_without_anchor d,
            rpl_anchor_block_id = rp_max_anchor_block_number p,
            rpl_anchor_block_hash = rp_max_anchor_block_hash p,
            rpl_anchor_state_root = rp_max_anchor_state_root p\<rparr>"
proof -
  from assms obtain p q where p: "rt_current b = Some p" and q: "rt_add_draft p d = Ok (pl, q)"
    and b': "b' = b\<lparr>rt_current := Some q\<rparr>"
    unfolding rt_add_l2_draft_block_def rt_on_current_Ok_iff by blast
  from q obtain bytes where
    "unat bytes = unat (rp_total_bytes p) + unat (block_bytes (rt_create_block_from_draft p d))"
    "q = p\<lparr>rp_total_bytes := bytes, rp_l2_blocks := rp_l2_blocks p @ [rt_create_block_from_draft p d]\<rparr>"
    "pl = \<lparr>rpl_coinbase = rp_coinbase p,
            rpl_tx_list = tx_list (b_prebuilt_tx_list (rt_create_block_from_draft p d)),
            rpl_timestamp_sec = b_timestamp_sec (rt_create_block_from_draft p d),
            rpl_gas_limit_without_anchor = b_gas_limit_without_anchor (rt_create_block_from_draft p d),
            rpl_anchor_block_id = rp_max_anchor_block_number p,
            rpl_anchor_block_hash = rp_max_anchor_block_hash p,
            rpl_anchor_state_root = rp_max_anchor_state_root p\<rparr>"
    unfolding rt_add_draft_def rt_add_l2_block_Ok_iff by blast
  with p b' show ?thesis
    by (intro that [of p bytes]) (simp_all add: rt_create_block_from_draft_def l2_block_new_from_def)
qed

lemma rt_consume_check_batch:
  "rt_consume_check enc c d expired p = Ok (v, p') \<Longrightarrow> p' = p \<or> p' = rt_compress enc p"
  by (auto simp: rt_consume_check_def Let_def split: outcome.splits if_splits)

lemma rt_can_consume_Ok:
  assumes "rt_can_consume_l2_block enc d b = (Ok v, b')"
  shows "b' = b \<or> (\<exists>p. rt_current b = Some p \<and> b' = b\<lparr>rt_current := Some (rt_compress enc p)\<rparr>)"
  using assms
  by (auto simp: rt_can_consume_l2_block_def dest!: rt_consume_check_batch
      split: option.splits outcome.splits)

lemma finalize_current_batch_None [simp]: "rt_current (finalize_current_batch b) = None"
  by (simp add: finalize_current_batch_def split: option.splits)

lemma finalize_current_batch_config [simp]:
  "rt_config (finalize_current_batch b) = rt_config b" "rt_clock (finalize_current_batch b) = rt_clock b"
  by (simp_all add: finalize_current_batch_def split: option.splits)

section \<open>The abstract log\<close>

record 'b batch_log =
  sealed :: "'b list list"
  open_list :: "'b list"

datatype 'b rt_event =
    Appended 'b
  | RolledBack
  | Sealed
  | Popped "'b list"
  | Requeued "'b list"
  | Quiet

fun log_move :: "'b rt_event \<Rightarrow> 'b batch_log \<Rightarrow> 'b batch_log option" where
  "log_move (Appended x) L = Some (L\<lparr>open_list := open_list L @ [x]\<rparr>)"
| "log_move RolledBack L =
     (if open_list L = [] then None else Some (L\<lparr>open_list := butlast (open_list L)\<rparr>))"
| "log_move Sealed L =
     Some (if open_list L = [] then L else L\<lparr>sealed := sealed L @ [open_list L], open_list := []\<rparr>)"
| "log_move (Popped xs) L =
     (case sealed L of ys # rest \<Rightarrow> if ys = xs then Some (L\<lparr>sealed := rest\<rparr>) else None | [] \<Rightarrow> None)"
| "log_move (Requeued xs) L = Some (L\<lparr>sealed := xs # sealed L\<rparr>)"
| "log_move Quiet L = Some L"

definition log_of :: "'tx rt_builder \<Rightarrow> 'tx l2_block_v2 batch_log" where
  "log_of b =
     \<lparr>sealed = map rp_l2_blocks (proposals_to_send b),
      open_list = (case rt_current b of None \<Rightarrow> [] | Some p \<Rightarrow> rp_l2_blocks p)\<rparr>"

text \<open>
  The typing of a batch: its blocks carry its coinbase and its anchor, and its coinbase is the
  configured one. A sealed batch is not empty.
\<close>

definition batch_typed :: "batch_builder_config \<Rightarrow> 'tx rt_proposal \<Rightarrow> bool" where
  "batch_typed c p \<longleftrightarrow>
     rp_coinbase p = default_coinbase c \<and>
     (\<forall>b \<in> set (rp_l2_blocks p).
        b_coinbase b = rp_coinbase p \<and> b_anchor_block_number b = rp_max_anchor_block_number p)"

definition rt_typed :: "'tx rt_builder \<Rightarrow> bool" where
  "rt_typed b \<longleftrightarrow>
     (\<forall>p \<in> set (proposals_to_send b). batch_typed (rt_config b) p \<and> rp_l2_blocks p \<noteq> []) \<and>
     (\<forall>p \<in> set_option (rt_current b). batch_typed (rt_config b) p)"

text \<open>Notes on the current batch: everything that is recorded besides its blocks.\<close>

datatype batch_note =
    NoteUserOp user_op
  | NoteMempoolTx b256
  | NoteSignalSlot b256
  | NoteL1Call l1_call
  | NoteCheckpoint checkpoint

fun add_note :: "batch_note \<Rightarrow> ('tx rt_builder, unit) action" where
  "add_note (NoteUserOp op) = add_user_op op"
| "add_note (NoteMempoolTx h) = add_l2_mempool_tx_hash h"
| "add_note (NoteSignalSlot sl) = add_signal_slot sl"
| "add_note (NoteL1Call c) = add_l1_call c"
| "add_note (NoteCheckpoint cp) = set_proposal_checkpoint cp"

inductive builder_move ::
  "'tx encoder \<Rightarrow> 'tx l2_block_v2 rt_event \<Rightarrow> 'tx rt_builder \<Rightarrow> 'tx rt_builder \<Rightarrow> bool" for enc where
  consume: "rt_can_consume_l2_block enc d b = (Ok v, b') \<Longrightarrow> builder_move enc Quiet b b'"
| annotate: "add_note n b = (Ok (), b') \<Longrightarrow> builder_move enc Quiet b b'"
| create: "builder_move enc Sealed b (create_new_batch anchor h b)"
| append: "rt_add_l2_draft_block d b = (Ok pl, b') \<Longrightarrow> rt_current b = Some p \<Longrightarrow>
    builder_move enc (Appended (rt_create_block_from_draft p d)) b b'"
| rollback: "rt_remove_last_l2_block b = (Ok (), b') \<Longrightarrow> open_list (log_of b) \<noteq> [] \<Longrightarrow>
    builder_move enc RolledBack b b'"
| no_rollback: "rt_remove_last_l2_block b = (Ok (), b') \<Longrightarrow> open_list (log_of b) = [] \<Longrightarrow>
    builder_move enc Quiet b b'"
| seal: "builder_move enc Sealed b (finalize_current_batch b)"
| seal_if: "finalize_if_needed full b = (Ok (), b') \<Longrightarrow>
    builder_move enc (if b' = b then Quiet else Sealed) b b'"
| pop: "pop_oldest_batch h b = (Some p, b') \<Longrightarrow> builder_move enc (Popped (rp_l2_blocks p)) b b'"
| requeue: "batch_typed (rt_config b) p \<Longrightarrow> rp_l2_blocks p \<noteq> [] \<Longrightarrow>
    builder_move enc (Requeued (rp_l2_blocks p)) b (push_front_batch p b)"

inductive_cases builder_move_AppendedE: "builder_move enc (Appended x) b b'"

fun noted :: "batch_note \<Rightarrow> 'tx rt_proposal \<Rightarrow> 'tx rt_proposal" where
  "noted (NoteUserOp op) p = p\<lparr>rp_user_ops := rp_user_ops p @ [op]\<rparr>"
| "noted (NoteMempoolTx h) p = p\<lparr>rp_l2_mempool_tx_hashes := rp_l2_mempool_tx_hashes p @ [h]\<rparr>"
| "noted (NoteSignalSlot sl) p = p\<lparr>rp_signal_slots := rp_signal_slots p @ [sl]\<rparr>"
| "noted (NoteL1Call c) p = p\<lparr>rp_l1_calls := rp_l1_calls p @ [c]\<rparr>"
| "noted (NoteCheckpoint cp) p = p\<lparr>rp_checkpoint := cp\<rparr>"

lemma noted_fields [simp]:
  "rp_l2_blocks (noted n p) = rp_l2_blocks p" "rp_coinbase (noted n p) = rp_coinbase p"
  "rp_max_anchor_block_number (noted n p) = rp_max_anchor_block_number p"
  by (cases n; simp)+

lemma add_note_Ok:
  assumes "add_note n b = (Ok (), b')"
  obtains p where "rt_current b = Some p" "b' = b\<lparr>rt_current := Some (noted n p)\<rparr>"
  using assms
  by (cases n) (auto simp: rt_on_current_Ok_iff add_user_op_def add_l2_mempool_tx_hash_def
      add_signal_slot_def add_l1_call_def set_proposal_checkpoint_def)

lemma finalize_current_batch_log: "log_move Sealed (log_of b) = Some (log_of (finalize_current_batch b))"
  by (auto simp: log_of_def finalize_current_batch_def split: option.splits)

lemma create_new_batch_log: "log_move Sealed (log_of b) = Some (log_of (create_new_batch anchor h b))"
  unfolding finalize_current_batch_log
  by (simp add: log_of_def create_new_batch_def fresh_batch_def)

lemma rt_remove_last_Ok:
  assumes "rt_remove_last_l2_block b = (Ok (), b')" "open_list (log_of b) \<noteq> []"
  obtains p bytes where "rt_current b = Some p" "rp_l2_blocks p \<noteq> []"
    "b' = b\<lparr>rt_current := (if butlast (rp_l2_blocks p) = [] then None
       else Some (p\<lparr>rp_l2_blocks := butlast (rp_l2_blocks p), rp_total_bytes := bytes\<rparr>))\<rparr>"
proof (cases "rt_current b")
  case None
  with assms(2) show ?thesis by (simp add: log_of_def)
next
  case (Some p)
  with assms(2) have ne: "rp_l2_blocks p \<noteq> []" by (simp add: log_of_def)
  with assms(1) Some show ?thesis
    by (cases "sub (rp_total_bytes p) (block_bytes (last (rp_l2_blocks p)))")
      (auto simp: rt_remove_last_l2_block_def Let_def intro!: that)
qed

lemma rt_remove_last_nothing:
  "rt_remove_last_l2_block b = (Ok (), b') \<Longrightarrow> open_list (log_of b) = [] \<Longrightarrow> b' = b"
  by (auto simp: rt_remove_last_l2_block_def log_of_def split: option.splits)

lemma pop_oldest_batch_Some:
  assumes "pop_oldest_batch h b = (Some p, b')"
  obtains batch rest where "proposals_to_send b = batch # rest"
    "p = batch\<lparr>rp_last_finalized_block_hash := h\<rparr>" "b' = b\<lparr>proposals_to_send := rest\<rparr>"
  using assms by (simp add: pop_oldest_batch_def split: list.split_asm)

lemma finalize_if_needed_Ok:
  "finalize_if_needed full b = (Ok (), b') \<Longrightarrow> b' = b \<or> b' = finalize_current_batch b"
proof -
  assume ok: "finalize_if_needed full b = (Ok (), b')"
  have choice: "b' = b \<or> b' = finalize_current_batch b"
    if "(case x of Ok m \<Rightarrow> (Ok (), if P m then finalize_current_batch b else b)
         | Err e \<Rightarrow> (Err e, b) | Panic \<Rightarrow> (Panic, b)) = (Ok (), b')" for x :: "u16 outcome" and P
    using that by (cases x) (auto split: if_splits)
  from ok show ?thesis
    by (cases "rt_current b"; cases full)
      (auto simp: finalize_if_needed_def Let_def simp del: add_Ok_iff dest!: choice)
qed

lemma builder_move_log:
  assumes "builder_move enc ev b b'"
  shows "log_move ev (log_of b) = Some (log_of b')"
  using assms
proof cases
  case (consume d v)
  then show ?thesis by (auto simp: log_of_def dest!: rt_can_consume_Ok)
next
  case (annotate n)
  then show ?thesis by (auto simp: log_of_def elim!: add_note_Ok)
next
  case (create anchor h)
  then show ?thesis by (simp only: create_new_batch_log)
next
  case (append d pl p)
  then show ?thesis by (auto simp: log_of_def elim!: rt_add_l2_draft_block_Ok)
next
  case rollback
  from rollback(2,3) obtain p bytes where "rt_current b = Some p" "rp_l2_blocks p \<noteq> []"
    "b' = b\<lparr>rt_current := (if butlast (rp_l2_blocks p) = [] then None
       else Some (p\<lparr>rp_l2_blocks := butlast (rp_l2_blocks p), rp_total_bytes := bytes\<rparr>))\<rparr>"
    by (rule rt_remove_last_Ok)
  with rollback(1) show ?thesis by (simp add: log_of_def)
next
  case no_rollback
  then show ?thesis by (auto dest: rt_remove_last_nothing)
next
  case seal
  then show ?thesis by (simp only: finalize_current_batch_log)
next
  case (seal_if full)
  from finalize_if_needed_Ok [OF seal_if(2)] show ?thesis
  proof
    assume "b' = b"
    then show ?thesis using seal_if(1) by simp
  next
    assume b': "b' = finalize_current_batch b"
    show ?thesis
    proof (cases "finalize_current_batch b = b")
      case True
      then show ?thesis using seal_if(1) unfolding b' by simp
    next
      case False
      then have "ev = Sealed" using seal_if(1) unfolding b' by (simp only: if_False)
      then show ?thesis unfolding b' by (simp only: finalize_current_batch_log)
    qed
  qed
next
  case (pop h p)
  from pop(2) obtain batch rest where "proposals_to_send b = batch # rest"
    "p = batch\<lparr>rp_last_finalized_block_hash := h\<rparr>" "b' = b\<lparr>proposals_to_send := rest\<rparr>"
    by (rule pop_oldest_batch_Some)
  with pop(1) show ?thesis by (simp add: log_of_def)
next
  case (requeue p)
  then show ?thesis by (simp add: log_of_def push_front_batch_def)
qed

text \<open>
  C6: The real-time batch builder implements the abstract log of batches: every one of its
  operations is, through the abstraction that keeps only the blocks, the move of the log that
  carries the same label - a block is appended to the open batch or taken back from its end, the
  open batch is sealed at the end of the sealed ones, the oldest sealed batch is popped or put
  back, and the checks, compressions and annotations change nothing.
\<close>
theorem rt_builder_refines_log:
  assumes "builder_move enc ev b b'"
  shows "log_move ev (log_of b) = Some (log_of b')"
  using assms by (rule builder_move_log)

section \<open>A small run\<close>

definition demo_batch_config :: batch_builder_config where
  "demo_batch_config =
     \<lparr>max_bytes_size_of_batch = 1000, max_blocks_per_batch = 3, l1_slot_duration_sec = 12,
      max_time_shift_between_blocks_sec = 255, max_anchor_height_offset = 64, default_coinbase = 7,
      preconf_min_txs = 1, preconf_max_skipped_l2_slots = 2, proposal_max_time_sec = 600,
      max_forced_inclusions = 1\<rparr>"

definition demo_anchor :: anchor_block_info where
  "demo_anchor = \<lparr>ab_id = 90, ab_timestamp_sec = 1000, ab_hash = 5, ab_state_root = 6\<rparr>"

definition demo_draft :: "nat l2_block_draft" where
  "demo_draft =
     \<lparr>d_prebuilt_tx_list = \<lparr>tx_list = [1], estimated_gas_used = 0, bytes_length = 10\<rparr>,
      d_timestamp_sec = 2000, d_gas_limit_without_anchor = 30\<rparr>"

definition demo_rt_builder :: "nat rt_builder" where
  "demo_rt_builder =
     (rt_builder_new demo_batch_config mainnet_clock)\<lparr>
        rt_current := Some (fresh_batch demo_anchor 7 0)\<rparr>"

definition demo_rt_block :: "nat l2_block_v2" where
  "demo_rt_block = rt_create_block_from_draft (fresh_batch demo_anchor 7 0) demo_draft"

definition demo_rt_builder1 :: "nat rt_builder" where
  "demo_rt_builder1 =
     demo_rt_builder\<lparr>rt_current := Some ((fresh_batch demo_anchor 7 0)\<lparr>rp_total_bytes := 10,
        rp_l2_blocks := [demo_rt_block]\<rparr>)\<rparr>"

lemma demo_rt_append:
  "builder_move enc (Appended demo_rt_block) demo_rt_builder demo_rt_builder1"
  unfolding demo_rt_block_def
proof (rule builder_move.append)
  show "rt_current demo_rt_builder = Some (fresh_batch demo_anchor 7 0)"
    by (simp add: demo_rt_builder_def)
  show "rt_add_l2_draft_block demo_draft demo_rt_builder =
      (Ok \<lparr>rpl_coinbase = 7, rpl_tx_list = [1], rpl_timestamp_sec = 2000,
           rpl_gas_limit_without_anchor = 30, rpl_anchor_block_id = 90, rpl_anchor_block_hash = 5,
           rpl_anchor_state_root = 6\<rparr>, demo_rt_builder1)"
    by (simp add: rt_add_l2_draft_block_def rt_on_current_def rt_add_draft_def rt_add_l2_block_def
        demo_rt_builder_def demo_rt_builder1_def demo_rt_block_def rt_create_block_from_draft_def
        l2_block_new_from_def demo_draft_def demo_anchor_def fresh_batch_def add_def
        del: add_Ok_iff)
qed

theorem rt_builder_refines_log_witness:
  "builder_move (\<lambda>_. None) (Appended demo_rt_block) demo_rt_builder demo_rt_builder1 \<and>
   log_move (Appended demo_rt_block) (log_of demo_rt_builder) = Some (log_of demo_rt_builder1)"
  using demo_rt_append rt_builder_refines_log [OF demo_rt_append] by blast

section \<open>Typing\<close>

lemma finalize_typed: "rt_typed b \<Longrightarrow> rt_typed (finalize_current_batch b)"
  by (auto simp: rt_typed_def finalize_current_batch_def split: option.splits)

lemma fresh_batch_typed: "batch_typed c (fresh_batch anchor (default_coinbase c) h)"
  by (simp add: batch_typed_def fresh_batch_def)

lemma create_typed: "rt_typed b \<Longrightarrow> rt_typed (create_new_batch anchor h b)"
  using finalize_typed [of b] fresh_batch_typed [of "rt_config b" anchor h]
  by (simp add: rt_typed_def create_new_batch_def)

lemma update_current_typed:
  "rt_typed b \<Longrightarrow> rt_current b = Some p \<Longrightarrow> (batch_typed (rt_config b) p \<Longrightarrow> batch_typed (rt_config b) q) \<Longrightarrow>
   rt_typed (b\<lparr>rt_current := Some q\<rparr>)"
  by (simp add: rt_typed_def)

lemma builder_move_typed:
  assumes "builder_move enc ev b b'" "rt_typed b"
  shows "rt_typed b'"
  using assms(1)
proof cases
  case (consume d v)
  from rt_can_consume_Ok [OF consume(2)] show ?thesis
  proof (elim disjE exE conjE)
    fix p assume p: "rt_current b = Some p" "b' = b\<lparr>rt_current := Some (rt_compress enc p)\<rparr>"
    show ?thesis unfolding p(2) using assms(2) p(1)
      by (rule update_current_typed) (simp add: batch_typed_def)
  qed (use assms(2) in simp)
next
  case (annotate n)
  from annotate(2) obtain p where p: "rt_current b = Some p" "b' = b\<lparr>rt_current := Some (noted n p)\<rparr>"
    by (rule add_note_Ok)
  show ?thesis unfolding p(2) using assms(2) p(1)
    by (rule update_current_typed) (simp add: batch_typed_def)
next
  case (create anchor h)
  then show ?thesis by (simp add: create_typed assms(2))
next
  case (append d pl p)
  from append(2) obtain q bytes where q: "rt_current b = Some q"
    "b' = b\<lparr>rt_current := Some (q\<lparr>rp_total_bytes := bytes,
        rp_l2_blocks := rp_l2_blocks q @ [rt_create_block_from_draft q d]\<rparr>)\<rparr>"
    by (rule rt_add_l2_draft_block_Ok)
  show ?thesis unfolding q(2) using assms(2) q(1)
    by (rule update_current_typed) (simp add: batch_typed_def)
next
  case rollback
  from rollback(2,3) obtain p bytes where p: "rt_current b = Some p" "rp_l2_blocks p \<noteq> []"
    "b' = b\<lparr>rt_current := (if butlast (rp_l2_blocks p) = [] then None
       else Some (p\<lparr>rp_l2_blocks := butlast (rp_l2_blocks p), rp_total_bytes := bytes\<rparr>))\<rparr>"
    by (rule rt_remove_last_Ok)
  from assms(2) p(1) show ?thesis unfolding p(3)
    by (simp add: rt_typed_def batch_typed_def in_set_butlastD)
next
  case no_rollback
  with rt_remove_last_nothing [OF no_rollback(2,3)] show ?thesis using assms(2) by simp
next
  case seal
  then show ?thesis by (simp add: finalize_typed assms(2))
next
  case (seal_if full)
  from finalize_if_needed_Ok [OF seal_if(2)] show ?thesis
    by (elim disjE) (simp_all add: finalize_typed assms(2))
next
  case (pop h p)
  from pop(2) obtain batch rest where "proposals_to_send b = batch # rest"
    "p = batch\<lparr>rp_last_finalized_block_hash := h\<rparr>" "b' = b\<lparr>proposals_to_send := rest\<rparr>"
    by (rule pop_oldest_batch_Some)
  with assms(2) show ?thesis by (simp add: rt_typed_def)
next
  case (requeue p)
  then show ?thesis using assms(2) by (simp add: rt_typed_def push_front_batch_def)
qed

text \<open>
  C19: The batches of the real-time builder stay well formed under every operation: each block of
  a batch carries the coinbase of the batch, which is the configured one, and the anchor of the
  batch, and no sealed batch is empty.
\<close>
theorem rt_builder_preserves_typing:
  assumes "builder_move enc ev b b'" "rt_typed b"
  shows "rt_typed b'"
  using assms by (rule builder_move_typed)

theorem rt_builder_preserves_typing_witness:
  "builder_move (\<lambda>_. None) (Appended demo_rt_block) demo_rt_builder demo_rt_builder1 \<and>
   rt_typed demo_rt_builder \<and> rt_typed demo_rt_builder1"
proof -
  have typed: "rt_typed demo_rt_builder"
    by (simp add: rt_typed_def demo_rt_builder_def rt_builder_new_def batch_typed_def fresh_batch_def
        demo_batch_config_def)
  show ?thesis using demo_rt_append typed rt_builder_preserves_typing [OF demo_rt_append typed] by blast
qed

section \<open>Nothing is lost or reordered\<close>

text \<open>
  The ledger of a run: the batches that have left the builder, and the blocks that were appended
  and not taken back. A batch is put back only if it is the one that left last.
\<close>

fun ledger_move :: "'b rt_event \<Rightarrow> 'b list list \<times> 'b list \<Rightarrow> ('b list list \<times> 'b list) option" where
  "ledger_move (Appended x) (out, kept) = Some (out, kept @ [x])"
| "ledger_move RolledBack (out, kept) = Some (out, butlast kept)"
| "ledger_move (Popped xs) (out, kept) = Some (out @ [xs], kept)"
| "ledger_move (Requeued xs) (out, kept) =
     (if out \<noteq> [] \<and> last out = xs then Some (butlast out, kept) else None)"
| "ledger_move Sealed l = Some l"
| "ledger_move Quiet l = Some l"

inductive builder_run ::
  "'tx encoder \<Rightarrow> 'tx rt_builder \<Rightarrow> 'tx l2_block_v2 list list \<times> 'tx l2_block_v2 list \<Rightarrow> bool" for enc where
  new: "builder_run enc (rt_builder_new c clk) ([], [])"
| step: "builder_run enc b l \<Longrightarrow> builder_move enc ev b b' \<Longrightarrow> ledger_move ev l = Some l' \<Longrightarrow>
    builder_run enc b' l'"

definition log_blocks :: "'b batch_log \<Rightarrow> 'b list" where
  "log_blocks L = concat (sealed L) @ open_list L"

lemma ledger_balance:
  assumes "log_move ev L = Some L'" "ledger_move ev (out, kept) = Some (out', kept')"
    "concat out @ log_blocks L = kept"
  shows "concat out' @ log_blocks L' = kept'"
proof (cases ev)
  case RolledBack
  with assms show ?thesis
    by (auto simp: log_blocks_def butlast_append split: if_splits)
next
  case (Requeued xs)
  then have "out \<noteq> []" "last out = xs" using assms(2) by (auto split: if_splits)
  then have "concat out = concat (butlast out) @ xs"
    by (metis append_butlast_last_id concat.simps(1,2) concat_append append_Nil2)
  with Requeued assms show ?thesis by (auto simp: log_blocks_def split: if_splits)
qed (use assms in \<open>auto simp: log_blocks_def split: list.splits if_splits\<close>)

text \<open>
  C18: The real-time builder loses and reorders nothing: in every run of its operations the
  batches that left it, followed by the sealed batches and the open one, are exactly the
  appended blocks that were not taken back, in the order in which they were appended.
\<close>
theorem rt_builder_conserves_blocks:
  assumes "builder_run enc b (out, kept)"
  shows "concat out @ log_blocks (log_of b) = kept"
proof -
  have "concat (fst l) @ log_blocks (log_of b) = snd l" if "builder_run enc b l" for l
    using that
  proof induction
    case (new c clk)
    then show ?case by (simp add: log_blocks_def log_of_def rt_builder_new_def)
  next
    case (step b l ev b' l')
    have "log_move ev (log_of b) = Some (log_of b')"
      using step.hyps(2) by (rule builder_move_log)
    then show ?case
      using step.hyps(3) step.IH ledger_balance [of ev "log_of b" "log_of b'" "fst l" "snd l" "fst l'" "snd l'"]
      by simp
  qed
  from this [OF assms] show ?thesis by simp
qed

lemma demo_rt_create:
  "builder_move enc Sealed (rt_builder_new demo_batch_config mainnet_clock) demo_rt_builder"
proof -
  have "create_new_batch demo_anchor 0 (rt_builder_new demo_batch_config mainnet_clock) = demo_rt_builder"
    by (simp add: create_new_batch_def demo_rt_builder_def rt_builder_new_def finalize_current_batch_def
        demo_batch_config_def)
  then show ?thesis using builder_move.create [of enc "rt_builder_new demo_batch_config mainnet_clock" demo_anchor 0]
    by simp
qed

theorem rt_builder_conserves_blocks_witness:
  "builder_run (\<lambda>_. None) demo_rt_builder1 ([], [demo_rt_block]) \<and>
   concat [] @ log_blocks (log_of demo_rt_builder1) = [demo_rt_block]"
proof -
  have "builder_run (\<lambda>_. None) demo_rt_builder ([], [])"
    by (rule builder_run.step [OF builder_run.new demo_rt_create]) simp
  then have run: "builder_run (\<lambda>_. None) demo_rt_builder1 ([], [demo_rt_block])"
    by (rule builder_run.step [OF _ demo_rt_append]) simp
  show ?thesis using run rt_builder_conserves_blocks [OF run] by blast
qed

section \<open>The anchor height offset\<close>

text \<open>
  The height check subtracts the number of the anchor block from the number of the current L1
  slot, as if every slot since genesis had a block.
\<close>

lemma rt_anchor_offset_counts_slots:
  assumes "rt_current b = Some p" "get_current_slot (rt_clock b) now = Ok slot"
  shows "rt_is_greater_than_max_anchor_height_offset now b =
    Ok (unat (max_anchor_height_offset (rt_config b)) < unat slot - unat (rp_max_anchor_block_number p))"
proof (cases "rp_max_anchor_block_number p < slot")
  case True
  then have "sub slot (rp_max_anchor_block_number p) = Ok (slot - rp_max_anchor_block_number p)"
    by (simp add: sub_def less_imp_le del: sub_Ok_iff)
  with True assms show ?thesis
    by (simp add: rt_is_greater_than_max_anchor_height_offset_def word_less_nat_alt unat_minus_le
        less_imp_le word_le_nat_alt del: sub_Ok_iff)
next
  case False
  with assms show ?thesis
    by (simp add: rt_is_greater_than_max_anchor_height_offset_def word_less_nat_alt)
qed

end
