(* ===== verification/Bridge.thy ===== *)
theory Bridge
  imports Realtime_Batch Execution_Layers "HOL-Library.Multiset"
begin

text \<open>
  \<^verbatim>\<open>src/realtime/src/node/proposal_manager/bridge_handler.rs\<close>: the queue of user operations, the store
  of their status, the four methods of the JSON-RPC server, and the two searches for bridge
  messages, on L1 for a user operation and on L2 for the block just built. The searches read call
  traces and logs with the helpers of \<^verbatim>\<open>src/realtime/src/l1/execution_layer.rs\<close> and
  \<^verbatim>\<open>src/realtime/src/l2/execution_layer.rs\<close>.

  The record \<open>rt_services\<close> extends the boundary of the model: tracing and log queries, ABI decoding,
  hashing, signing, the key-value store on disk. The state of the bridge is the record \<open>bridge\<close>:
  the channel of user operations, the counter of ids, the two partitions of the store and the
  number of the last finalized block, which the node shares with the server.
\<close>

section \<open>Services of the real-time node\<close>

record call_log =
  log_topics :: "b256 list option"
  log_data :: "u8 list option"

datatype call_frame =
  CallFrame (cf_from: address) (cf_to: "address option") (cf_input: "u8 list")
    (cf_logs: "call_log list") (cf_calls: "call_frame list")

text \<open>A call to trace: its envelope, and the balance and storage of one account overridden.\<close>

record trace_request =
  tr_from :: address
  tr_to :: address
  tr_input :: "u8 list"
  tr_value :: "b256 option"
  tr_override :: "(address \<times> b256 \<times> (b256 \<times> b256) list) option"

record hop_proof =
  hp_chain_id :: u64
  hp_block_id :: u64
  hp_root_hash :: b256
  hp_cache_option :: u8
  hp_account_proof :: "u8 list list"
  hp_storage_proof :: "u8 list list"

record ('w, 'tx) rt_services =
  base :: "('w, 'tx) services"
  l1_trace_call :: "trace_request \<Rightarrow> ('w, call_frame option) action"
  l2_trace_call :: "trace_request \<Rightarrow> ('w, call_frame option) action"
  message_sent_topic :: b256
  signal_sent_topic :: b256
  decode_message_sent :: "b256 list \<Rightarrow> u8 list \<Rightarrow> message option"
  decode_signal_sent :: "b256 list \<Rightarrow> u8 list \<Rightarrow> b256 option"
  decode_send_message :: "u8 list \<Rightarrow> message option"
  hash_message :: "message \<Rightarrow> ('w, b256) action"
  l1_next_message_id :: "('w, u64) action"
  l2_next_message_id :: "('w, u64) action"
  keccak256 :: "u8 list \<Rightarrow> b256"
  l1_chain_id :: u64
  l2_chain_id :: u64
  l1_bridge :: address
  l2_bridge :: address
  l2_signal_service :: address
  l2_logs :: "u64 \<Rightarrow> address \<Rightarrow> b256 \<Rightarrow> ('w, (b256 list \<times> u8 list) list) action"
  signal_proof :: "b256 \<Rightarrow> u64 \<Rightarrow> ('w, u8 list list \<times> u8 list list list) action"
  abi_hop_proof :: "hop_proof \<Rightarrow> u8 list"
  l2_call_signer :: address
  sign_l2_call :: "message \<Rightarrow> u64 \<Rightarrow> u64 \<Rightarrow> ('w, 'tx) action"
  tx_signer :: "'tx \<Rightarrow> address"
  tx_to :: "'tx \<Rightarrow> address option"
  tx_value :: "'tx \<Rightarrow> b256"
  tx_hash :: "'tx \<Rightarrow> b256"
  tx_block_number :: "'tx \<Rightarrow> u64 option"
  db_write :: "('w, unit) action"
  db_read :: "('w, unit) action"
  sleep_retry :: "'w \<Rightarrow> 'w"

section \<open>Call traces\<close>

definition SEND_MESSAGE_SELECTOR :: "u8 list" where
  "SEND_MESSAGE_SELECTOR = [0x1b, 0xdb, 0x00, 0x37]"

fun frame_count :: "call_frame \<Rightarrow> nat" where
  "frame_count (CallFrame from_addr to_addr input logs calls) = Suc (sum_list (map frame_count calls))"

lemma frame_count_calls: "frame_count f = Suc (sum_list (map frame_count (cf_calls f)))"
  by (cases f) simp

lemma sum_list_last: "xs \<noteq> [] \<Longrightarrow> sum_list (map g xs) = sum_list (map g (butlast xs)) + (g (last xs) :: nat)"
  by (induction xs) auto

text \<open>The loop of \<open>collect_all_logs\<close>; the stack is a vector with its top at the end.\<close>

function collect_loop :: "call_log list \<Rightarrow> call_frame list \<Rightarrow> call_log list" where
  "collect_loop logs stack =
     (if stack = [] then logs
      else let f = last stack in collect_loop (logs @ cf_logs f) (butlast stack @ cf_calls f))"
  by auto

termination
  by (relation "measure (\<lambda>(logs, stack). sum_list (map frame_count stack))")
    (auto simp: sum_list_last [of _ frame_count] frame_count_calls [of "last _"])

declare collect_loop.simps [simp del]

definition collect_all_logs :: "call_frame \<Rightarrow> call_log list" where
  "collect_all_logs frame = collect_loop [] [frame]"

text \<open>\<open>find_send_message_in_call_tree\<close> and \<open>find_send_message_in_calls\<close>, which have the same body.\<close>

definition send_message_of ::
  "('w, 'tx) rt_services \<Rightarrow> address \<Rightarrow> call_frame \<Rightarrow> (message \<times> address) option" where
  "send_message_of R bridge_address frame =
     (if cf_to frame = Some bridge_address \<and> 4 \<le> length (cf_input frame) \<and>
         take 4 (cf_input frame) = SEND_MESSAGE_SELECTOR
      then map_option (\<lambda>m. (m, cf_from frame)) (decode_send_message R (drop 4 (cf_input frame)))
      else None)"

fun find_send_message ::
  "('w, 'tx) rt_services \<Rightarrow> address \<Rightarrow> call_frame \<Rightarrow> (message \<times> address) option"
and find_send_message_in ::
  "('w, 'tx) rt_services \<Rightarrow> address \<Rightarrow> call_frame list \<Rightarrow> (message \<times> address) option"
where
  "find_send_message R bridge_address (CallFrame from_addr to_addr input logs calls) =
     (case send_message_of R bridge_address (CallFrame from_addr to_addr input logs calls) of
        Some result \<Rightarrow> Some result
      | None \<Rightarrow> find_send_message_in R bridge_address calls)"
| "find_send_message_in R bridge_address [] = None"
| "find_send_message_in R bridge_address (frame # frames) =
     (case find_send_message R bridge_address frame of
        Some result \<Rightarrow> Some result
      | None \<Rightarrow> find_send_message_in R bridge_address frames)"

section \<open>Messages on L1\<close>

text \<open>The loop over the logs: the last message and the last signal seen; a log that does not decode ends it.\<close>

definition topics_of :: "call_log \<Rightarrow> b256 list" where
  "topics_of l = (case log_topics l of None \<Rightarrow> [] | Some ts \<Rightarrow> ts)"

fun scan_logs ::
  "('w, 'tx) rt_services \<Rightarrow> message option \<Rightarrow> b256 option \<Rightarrow> call_log list \<Rightarrow>
   (message option \<times> b256 option) outcome" where
  "scan_logs R msg sl [] = Ok (msg, sl)"
| "scan_logs R msg sl (l # ls) =
     (let topics = topics_of l; data = (case log_data l of None \<Rightarrow> [] | Some d \<Rightarrow> d) in
      if topics = [] then scan_logs R msg sl ls
      else if hd topics = message_sent_topic R
      then and_then (ok_or (decode_message_sent R topics data) ''Failed to decode MessageSent event L1'')
             (\<lambda>m. scan_logs R (Some m) sl ls)
      else if hd topics = signal_sent_topic R
      then and_then (ok_or (decode_signal_sent R topics data) ''Failed to decode SignalSent event L1'')
             (\<lambda>s. scan_logs R msg (Some s) ls)
      else scan_logs R msg sl ls)"

definition l1_find_message_and_signal_slot ::
  "('w, 'tx) rt_services \<Rightarrow> user_op \<Rightarrow> ('w, (message \<times> b256) option) action" where
  "l1_find_message_and_signal_slot R op =
     bind (map_err ''Failed to simulate executeBatch on L1''
       (l1_trace_call R \<lparr>tr_from = preconfer_address (base R), tr_to = uo_submitter op,
          tr_input = uo_calldata op, tr_value = None, tr_override = None\<rparr>)) (\<lambda>trace_result.
     bind (case trace_result of
             Some call_frame \<Rightarrow> lift (scan_logs R None None (collect_all_logs call_frame))
           | None \<Rightarrow> return (None, None)) (\<lambda>(msg, sl).
     return (case (msg, sl) of (Some m, Some s) \<Rightarrow> Some (m, s) | _ \<Rightarrow> None)))"

definition be_bytes :: "nat \<Rightarrow> 'a::len word \<Rightarrow> u8 list" where
  "be_bytes n x = map (\<lambda>i. ucast (drop_bit (8 * i) x)) (rev [0..<n])"

text \<open>The packed storage slot 254 of the bridge: the sender in the low 20 bytes, then the chain id.\<close>

definition slot_254 :: "message \<Rightarrow> b256" where
  "slot_254 m = push_bit 160 (ucast (msg_src_chain_id m)) + ucast (msg_from m)"

definition signal_preimage :: "u64 \<Rightarrow> address \<Rightarrow> b256 \<Rightarrow> u8 list" where
  "signal_preimage chain_id bridge_address msg_hash =
     [0x53, 0x49, 0x47, 0x4e, 0x41, 0x4c] @ be_bytes 8 chain_id @ be_bytes 20 bridge_address @
     be_bytes 32 msg_hash"

definition simulate_l1_callback_return_signal ::
  "('w, 'tx) rt_services \<Rightarrow> message \<Rightarrow> ('w, (message \<times> b256) option) action" where
  "simulate_l1_callback_return_signal R m =
     bind (map_err ''Failed to call Bridge.hashMessage for sim'' (hash_message R m)) (\<lambda>msg_hash.
     bind (map_err ''L1 callback simulation RPC failed''
       (l1_trace_call R \<lparr>tr_from = l1_bridge R, tr_to = msg_to m, tr_input = msg_data m,
          tr_value = Some (msg_value m),
          tr_override = Some (l1_bridge R, saturating_add (msg_value m) (10 ^ 18),
            [(253, msg_hash), (254, slot_254 m)])\<rparr>)) (\<lambda>trace_result.
     case trace_result of
       None \<Rightarrow> return None
     | Some call_frame \<Rightarrow>
         (case find_send_message R (l1_bridge R) call_frame of
            None \<Rightarrow> return None
          | Some (msg, caller) \<Rightarrow>
              let msg = msg\<lparr>msg_from := caller, msg_src_chain_id := l1_chain_id R\<rparr> in
              bind (attempt (l1_next_message_id R) (\<lambda>next. return (msg\<lparr>msg_id := next\<rparr>)) (\<lambda>_. return msg)) (\<lambda>msg.
              bind (map_err ''Failed to call Bridge.hashMessage for return msg'' (hash_message R msg)) (\<lambda>h.
              return (Some (msg, keccak256 R (signal_preimage (l1_chain_id R) (l1_bridge R) h)))))))) "

section \<open>Messages on L2\<close>

definition trace_tx_for_outbound_message ::
  "('w, 'tx) rt_services \<Rightarrow> address \<Rightarrow> address \<Rightarrow> u8 list \<Rightarrow> b256 option \<Rightarrow> ('w, message option) action" where
  "trace_tx_for_outbound_message R from_addr to_addr input val =
     bind (map_err ''L2 tx trace RPC failed''
       (l2_trace_call R \<lparr>tr_from = from_addr, tr_to = to_addr, tr_input = input, tr_value = val,
          tr_override = None\<rparr>)) (\<lambda>trace_result.
     case Option.bind trace_result (find_send_message R (l2_bridge R)) of
       None \<Rightarrow> return None
     | Some (m, caller) \<Rightarrow>
         let m = m\<lparr>msg_from := caller, msg_src_chain_id := l2_chain_id R\<rparr> in
         attempt (l2_next_message_id R) (\<lambda>next. return (Some (m\<lparr>msg_id := next\<rparr>))) (\<lambda>_. return (Some m)))"

definition construct_l2_call_tx ::
  "('w, 'tx) rt_services \<Rightarrow> message \<Rightarrow> u64 \<Rightarrow> ('w, 'tx) action" where
  "construct_l2_call_tx R m fee =
     bind (map_err ''Failed to get nonce for bridge call''
       (get_transaction_count (l2_provider (base R)) (l2_call_signer R) Latest)) (\<lambda>nonce.
     sign_l2_call R m fee nonce)"

definition l2_find_message_and_signal_slot ::
  "('w, 'tx) rt_services \<Rightarrow> u64 \<Rightarrow> ('w, (message \<times> b256) option) action" where
  "l2_find_message_and_signal_slot R block_id =
     bind (map_err ''Failed to get MessageSent logs from bridge''
       (l2_logs R block_id (l2_bridge R) (message_sent_topic R))) (\<lambda>bridge_logs.
     bind (map_err ''Failed to get SignalSent logs from signal service''
       (l2_logs R block_id (l2_signal_service R) (signal_sent_topic R))) (\<lambda>signal_logs.
     case (bridge_logs, signal_logs) of
       (l # _, s # _) \<Rightarrow>
         bind (lift (ok_or (decode_message_sent R (fst l) (snd l)) ''Failed to decode MessageSent event'')) (\<lambda>m.
         bind (lift (ok_or (decode_signal_sent R (fst s) (snd s)) ''Failed to decode SignalSent event'')) (\<lambda>sl.
         return (Some (m, sl))))
     | _ \<Rightarrow> return None))"

definition get_hop_proof :: "('w, 'tx) rt_services \<Rightarrow> b256 \<Rightarrow> u64 \<Rightarrow> b256 \<Rightarrow> ('w, u8 list) action" where
  "get_hop_proof R sl block_id state_root =
     bind (map_err ''eth_getProof failed for signal slot'' (signal_proof R sl block_id)) (\<lambda>(account, storage).
     case storage of
       [] \<Rightarrow> raise (Anyhow ''No storage proof returned for signal slot'')
     | storage_proof # _ \<Rightarrow>
         return (abi_hop_proof R \<lparr>hp_chain_id = l2_chain_id R, hp_block_id = block_id,
           hp_root_hash = state_root, hp_cache_option = 0, hp_account_proof = account,
           hp_storage_proof = storage_proof\<rparr>))"

section \<open>The status store\<close>

datatype user_op_status =
    OpPending
  | OpProcessing b256
  | OpProvingBlock u64
  | OpRejected string
  | OpExecuted

record bridge =
  rx :: "user_op list"
  next_id :: u64
  by_id :: "u64 \<Rightarrow> user_op_status option"
  by_hash :: "b256 \<Rightarrow> user_op_status option"
  last_finalized_block_number :: u64

definition bridge_new :: "u64 \<Rightarrow> bridge" where
  "bridge_new n =
     \<lparr>rx = [], next_id = 1, by_id = Map.empty, by_hash = Map.empty, last_finalized_block_number = n\<rparr>"

type_synonym 'w bstate = "bridge \<times> 'w"

definition b_world :: "('w, 'a) action \<Rightarrow> ('w bstate, 'a) action" where
  "b_world = zoom snd (\<lambda>w (b, _). (b, w))"

definition b_set :: "(bridge \<Rightarrow> bridge) \<Rightarrow> ('w bstate, unit) action" where
  "b_set f = modify (\<lambda>(b, w). (f b, w))"

definition b_get :: "(bridge \<Rightarrow> 'a) \<Rightarrow> ('w bstate, 'a) action" where
  "b_get f = gets (\<lambda>(b, _). f b)"

text \<open>A write that the store refuses is logged and forgotten; a read that fails finds nothing.\<close>

definition db_update :: "('w, 'tx) rt_services \<Rightarrow> (bridge \<Rightarrow> bridge) \<Rightarrow> ('w bstate, unit) action" where
  "db_update R f = attempt (b_world (db_write R)) (\<lambda>_. b_set f) (\<lambda>_. return ())"

definition store_set :: "('w, 'tx) rt_services \<Rightarrow> u64 \<Rightarrow> user_op_status \<Rightarrow> ('w bstate, unit) action" where
  "store_set R i st = db_update R (\<lambda>b. b\<lparr>by_id := (by_id b)(i \<mapsto> st)\<rparr>)"

definition store_get :: "('w, 'tx) rt_services \<Rightarrow> u64 \<Rightarrow> ('w bstate, user_op_status option) action" where
  "store_get R i = attempt (b_world (db_read R)) (\<lambda>_. b_get (\<lambda>b. by_id b i)) (\<lambda>_. return None)"

definition store_remove :: "('w, 'tx) rt_services \<Rightarrow> u64 \<Rightarrow> ('w bstate, unit) action" where
  "store_remove R i = db_update R (\<lambda>b. b\<lparr>by_id := (by_id b)(i := None)\<rparr>)"

definition set_by_hash :: "('w, 'tx) rt_services \<Rightarrow> b256 \<Rightarrow> user_op_status \<Rightarrow> ('w bstate, unit) action" where
  "set_by_hash R h st = db_update R (\<lambda>b. b\<lparr>by_hash := (by_hash b)(h \<mapsto> st)\<rparr>)"

definition get_by_hash :: "('w, 'tx) rt_services \<Rightarrow> b256 \<Rightarrow> ('w bstate, user_op_status option) action" where
  "get_by_hash R h = attempt (b_world (db_read R)) (\<lambda>_. b_get (\<lambda>b. by_hash b h)) (\<lambda>_. return None)"

definition remove_by_hash :: "('w, 'tx) rt_services \<Rightarrow> b256 \<Rightarrow> ('w bstate, unit) action" where
  "remove_by_hash R h = db_update R (\<lambda>b. b\<lparr>by_hash := (by_hash b)(h := None)\<rparr>)"

section \<open>The queue of user operations\<close>

definition next_user_op :: "('w, 'tx) rt_services \<Rightarrow> ('w bstate, (user_op \<times> message \<times> b256) option) action" where
  "next_user_op R =
     bind (b_get rx) (\<lambda>queue.
     case queue of
       [] \<Rightarrow> return None
     | op # rest \<Rightarrow>
         bind (b_set (\<lambda>b. b\<lparr>rx := rest\<rparr>)) (\<lambda>_.
         bind (b_world (l1_find_message_and_signal_slot R op)) (\<lambda>found.
         case found of
           Some (message_from_l1, signal_slot_on_l2) \<Rightarrow> return (Some (op, message_from_l1, signal_slot_on_l2))
         | None \<Rightarrow>
             bind (store_set R (uo_id op) (OpRejected ''L1 UserOp with no bridge message'')) (\<lambda>_.
             return None))))"

definition has_pending_user_ops :: "bridge \<Rightarrow> bool" where
  "has_pending_user_ops b = (rx b \<noteq> [])"

text \<open>The search for the message of the block just built: at most five times, with a pause in between.\<close>

function l2_message_loop ::
  "('w, 'tx) rt_services \<Rightarrow> u64 \<Rightarrow> nat \<Rightarrow> ('w, (message \<times> b256) option) action" where
  "l2_message_loop R block_id tries =
     bind (l2_find_message_and_signal_slot R block_id) (\<lambda>r.
     case r of
       Some pair \<Rightarrow> return (Some pair)
     | None \<Rightarrow>
         if 5 \<le> tries + 1 then return None
         else bind (modify (sleep_retry R)) (\<lambda>_. l2_message_loop R block_id (tries + 1)))"
  by auto

termination by (relation "measure (\<lambda>(R, block_id, tries). 5 - tries)") auto

declare l2_message_loop.simps [simp del]

definition find_l1_call ::
  "('w, 'tx) rt_services \<Rightarrow> u64 \<Rightarrow> b256 \<Rightarrow> b256 option \<Rightarrow> ('w, l1_call option) action" where
  "find_l1_call R block_id state_root required =
     bind (l2_message_loop R block_id 0) (\<lambda>message_and_slot.
     case message_and_slot of
       None \<Rightarrow> return None
     | Some (m, signal_slot) \<Rightarrow>
         bind (get_hop_proof R signal_slot block_id state_root) (\<lambda>proof.
         return (Some \<lparr>message_from_l2 = m, signal_slot_proof = proof, required_return_signal = required\<rparr>)))"

section \<open>The JSON-RPC server\<close>

text \<open>
  \<open>surge_sendUserOp\<close> up to the point where it waits for room in the channel: the id is drawn
  (\<open>fetch_add\<close> wraps), and the status is \<open>Pending\<close>. The channel takes the operation when it holds
  fewer than 1024; if the receiver is gone, the status is removed again.
\<close>

definition CHANNEL_CAPACITY :: nat where "CHANNEL_CAPACITY = 1024"

definition send_user_op :: "('w, 'tx) rt_services \<Rightarrow> user_op \<Rightarrow> ('w bstate, user_op) action" where
  "send_user_op R op =
     bind (b_get next_id) (\<lambda>i.
     bind (b_set (\<lambda>b. b\<lparr>next_id := next_id b + 1\<rparr>)) (\<lambda>_.
     bind (store_set R i OpPending) (\<lambda>_.
     return (op\<lparr>uo_id := i\<rparr>))))"

definition channel_send :: "user_op \<Rightarrow> bridge \<Rightarrow> bridge" where
  "channel_send op b = b\<lparr>rx := rx b @ [op]\<rparr>"

definition user_op_status_rpc :: "('w, 'tx) rt_services \<Rightarrow> u64 \<Rightarrow> ('w bstate, user_op_status) action" where
  "user_op_status_rpc R i = bind (store_get R i) (\<lambda>r. lift (ok_or r ''UserOp not found''))"

definition tx_status_by_hash :: "('w, 'tx) rt_services \<Rightarrow> b256 \<Rightarrow> ('w bstate, user_op_status) action" where
  "tx_status_by_hash R hash =
     bind (get_by_hash R hash) (\<lambda>r.
     case r of
       Some st \<Rightarrow> return st
     | None \<Rightarrow>
         bind (map_err ''Transaction not found''
           (b_world (get_transaction_by_hash (l2_provider (base R)) hash))) (\<lambda>tx.
         bind (lift (ok_or (tx_block_number R tx) ''Transaction pending'')) (\<lambda>block_number.
         bind (b_get last_finalized_block_number) (\<lambda>finalized.
         return (if block_number \<le> finalized then OpExecuted else OpProvingBlock block_number)))))"

definition tx_status_rpc ::
  "('w, 'tx) rt_services \<Rightarrow> u64 option \<Rightarrow> b256 option \<Rightarrow> ('w bstate, user_op_status) action" where
  "tx_status_rpc R user_op_id hash =
     (case (user_op_id, hash) of
        (Some i, None) \<Rightarrow> user_op_status_rpc R i
      | (None, Some h) \<Rightarrow> tx_status_by_hash R h
      | _ \<Rightarrow> raise (Anyhow ''Invalid params''))"

definition simulate_return_message ::
  "('w, 'tx) rt_services \<Rightarrow> address \<Rightarrow> address \<Rightarrow> u8 list \<Rightarrow> b256 option \<Rightarrow> ('w, message \<times> b256) action" where
  "simulate_return_message R from_addr to_addr data val =
     bind (map_err ''L2 trace failed'' (trace_tx_for_outbound_message R from_addr to_addr data val)) (\<lambda>r.
     bind (lift (ok_or r ''No outbound Bridge.sendMessage found in trace'')) (\<lambda>outbound.
     bind (map_err ''L1 callback simulation failed'' (simulate_l1_callback_return_signal R outbound)) (\<lambda>r.
     lift (ok_or r ''L1 callback produced no return message''))))"

section \<open>The searches are complete\<close>

text \<open>All frames of a trace, a caller before its callees and these in the order of the calls.\<close>

fun frames_of :: "call_frame \<Rightarrow> call_frame list" where
  "frames_of (CallFrame from_addr to_addr input logs calls) =
     CallFrame from_addr to_addr input logs calls # concat (map frames_of calls)"

lemma frames_of_calls: "frames_of f = f # concat (map frames_of (cf_calls f))"
  by (cases f) simp

definition all_logs :: "call_frame \<Rightarrow> call_log list" where
  "all_logs f = concat (map cf_logs (frames_of f))"

lemma all_logs_calls: "all_logs f = cf_logs f @ concat (map all_logs (cf_calls f))"
proof -
  have "concat (map cf_logs (concat (map frames_of fs))) = concat (map all_logs fs)" for fs
    by (induction fs) (simp_all add: all_logs_def)
  then show ?thesis by (simp add: all_logs_def [of f] frames_of_calls [of f])
qed

lemma mset_concat_last:
  "xs \<noteq> [] \<Longrightarrow> mset (concat (map g xs)) = mset (concat (map g (butlast xs))) + mset (g (last xs))"
  by (induction xs) auto

lemma collect_loop_mset: "mset (collect_loop logs stack) = mset logs + mset (concat (map all_logs stack))"
proof (induction logs stack rule: collect_loop.induct)
  case (1 logs stack)
  show ?case
  proof (cases "stack = []")
    case True
    then show ?thesis by (simp add: collect_loop.simps)
  next
    case False
    from 1 [OF False refl] have "mset (collect_loop (logs @ cf_logs (last stack)) (butlast stack @ cf_calls (last stack))) =
      mset logs + (mset (cf_logs (last stack)) + mset (concat (map all_logs (cf_calls (last stack))))) +
      mset (concat (map all_logs (butlast stack)))" by (simp add: ac_simps)
    also have "\<dots> = mset logs + mset (all_logs (last stack)) + mset (concat (map all_logs (butlast stack)))"
      by (simp add: all_logs_calls [of "last stack"])
    finally show ?thesis using False
      by (simp add: collect_loop.simps [of logs stack] Let_def mset_concat_last [of stack] ac_simps)
  qed
qed

fun first_some :: "('a \<Rightarrow> 'b option) \<Rightarrow> 'a list \<Rightarrow> 'b option" where
  "first_some f [] = None"
| "first_some f (x # xs) = (case f x of Some y \<Rightarrow> Some y | None \<Rightarrow> first_some f xs)"

lemma first_some_append:
  "first_some f (xs @ ys) = (case first_some f xs of Some y \<Rightarrow> Some y | None \<Rightarrow> first_some f ys)"
  by (induction xs) (auto split: option.splits)

lemma find_send_message_first:
  "find_send_message R a f = first_some (send_message_of R a) (frames_of f)"
  "find_send_message_in R a fs = first_some (send_message_of R a) (concat (map frames_of fs))"
  by (induction R a f and R a fs rule: find_send_message_find_send_message_in.induct)
    (auto simp: first_some_append split: option.splits)

text \<open>
  C33: The searches through a call trace are complete. The loop that collects the logs of a trace
  with an explicit stack ends and returns every log of every frame as often as it occurs; the
  recursive search for a call of the bridge returns the first matching call in execution order
  over all nested frames, and nothing exactly if no frame matches.
\<close>
theorem trace_search_complete:
  "mset (collect_all_logs f) = mset (concat (map cf_logs (frames_of f))) \<and>
   find_send_message R a f = first_some (send_message_of R a) (frames_of f) \<and>
   (find_send_message R a f = None \<longleftrightarrow> list_all (\<lambda>g. send_message_of R a g = None) (frames_of f))"
proof -
  have "first_some p xs = None \<longleftrightarrow> list_all (\<lambda>g. p g = None) xs" for p :: "call_frame \<Rightarrow> 'x option" and xs
    by (induction xs) (auto split: option.splits)
  then show ?thesis
    by (simp add: collect_all_logs_def collect_loop_mset all_logs_def find_send_message_first)
qed

section \<open>User operations are conserved\<close>

lemma b_simps [simp]:
  "b_get f (b, w) = (Ok (f b), (b, w))" "b_set g (b, w) = (Ok (), (g b, w))"
  by (simp_all add: b_get_def b_set_def gets_def modify_def)

lemma b_world_keeps: "fst (snd (b_world m (b, w))) = b"
  by (simp add: b_world_def zoom_def split: prod.splits)

text \<open>A write to the store touches neither the channel nor the counter.\<close>

lemma db_update_frame:
  assumes "\<And>b. rx (f b) = rx b" "\<And>b. next_id (f b) = next_id b"
  shows "rx (fst (snd (db_update R f (b, w)))) = rx b" "next_id (fst (snd (db_update R f (b, w)))) = next_id b"
  using assms b_world_keeps [of "db_write R" b w]
  by (auto simp: db_update_def attempt_def b_set_def modify_def return_def split: prod.splits outcome.splits)

lemma send_user_op_Ok:
  assumes "send_user_op R op (b, w) = (Ok op', (b', w'))"
  shows "uo_id op' = next_id b \<and> next_id b' = next_id b + 1 \<and> rx b' = rx b"
proof -
  let ?b = "b\<lparr>next_id := next_id b + 1\<rparr>"
  obtain r b1 w1 where st: "store_set R (next_id b) OpPending (?b, w) = (r, (b1, w1))"
    by (metis surj_pair)
  have "rx b1 = rx b" "next_id b1 = next_id b + 1"
    using db_update_frame [of "\<lambda>b'. b'\<lparr>by_id := (by_id b')(next_id b \<mapsto> OpPending)\<rparr>" R ?b w] st
    by (simp_all add: store_set_def)
  with assms st show ?thesis
    by (cases r) (auto simp: send_user_op_def bind_def return_def)
qed

lemma next_user_op_frame:
  assumes "next_user_op R (b, w) = (r, (b', w'))" "rx b = op # rest"
  shows "rx b' = rest \<and> next_id b' = next_id b"
proof -
  let ?b = "b\<lparr>rx := rest\<rparr>"
  obtain r1 b1 w1 where l: "b_world (l1_find_message_and_signal_slot R op) (?b, w) = (r1, (b1, w1))"
    by (metis surj_pair)
  with b_world_keeps [of "l1_find_message_and_signal_slot R op" ?b w] have b1: "b1 = ?b" by simp
  obtain r2 b2 w2 where st:
    "store_set R (uo_id op) (OpRejected ''L1 UserOp with no bridge message'') (b1, w1) = (r2, (b2, w2))"
    by (metis surj_pair)
  have "rx b2 = rest" "next_id b2 = next_id b"
    using db_update_frame [of "\<lambda>b'. b'\<lparr>by_id := (by_id b')(uo_id op \<mapsto> OpRejected ''L1 UserOp with no bridge message'')\<rparr>" R b1 w1] st
    by (simp_all add: store_set_def b1)
  with assms l st b1 show ?thesis
    by (cases r1; cases r2) (auto simp: next_user_op_def bind_def return_def split: option.splits)
qed

text \<open>
  The runs of the bridge: requests that are accepted and wait for room in the channel, the channel,
  and the operations the node has taken from it. The other tasks may write to the store and change
  the world at any time. The first argument counts the accepted requests.
\<close>

inductive bridge_run ::
  "('w, 'tx) rt_services \<Rightarrow> nat \<Rightarrow> user_op list \<Rightarrow> user_op list \<Rightarrow> 'w bstate \<Rightarrow> bool" for R where
  new: "bridge_run R 0 [] [] (bridge_new n, w)"
| accept: "bridge_run R k waiting taken s \<Longrightarrow> send_user_op R op s = (Ok op', s') \<Longrightarrow>
    bridge_run R (Suc k) (waiting @ [op']) taken s'"
| enqueue: "bridge_run R k (xs @ op # ys) taken (b, w) \<Longrightarrow> length (rx b) < CHANNEL_CAPACITY \<Longrightarrow>
    bridge_run R k (xs @ ys) taken (channel_send op b, w)"
| dequeue: "bridge_run R k waiting taken (b, w) \<Longrightarrow> rx b = op # rest \<Longrightarrow> next_user_op R (b, w) = (r, s') \<Longrightarrow>
    bridge_run R k waiting (taken @ [op]) s'"
| others: "bridge_run R k waiting taken (b, w) \<Longrightarrow>
    bridge_run R k waiting taken (b\<lparr>by_id := m, by_hash := h, last_finalized_block_number := n\<rparr>, w')"

lemma bridge_run_ids:
  assumes "bridge_run R k waiting taken s" "k < 2 ^ 64 - 1"
  shows "next_id (fst s) = of_nat (Suc k) \<and> length (rx (fst s)) \<le> CHANNEL_CAPACITY \<and>
    mset (map uo_id (taken @ rx (fst s) @ waiting)) = mset (map of_nat [1..<Suc k])"
  using assms
proof induction
  case (new n w)
  then show ?case by (simp add: bridge_new_def CHANNEL_CAPACITY_def)
next
  case (accept k waiting taken s op op' s')
  obtain b w b' w' where s: "s = (b, w)" "s' = (b', w')" by (metis surj_pair)
  from send_user_op_Ok [OF accept.hyps(2) [unfolded s]] accept.IH accept.prems
  show ?case by (simp add: s)
next
  case (enqueue k xs op ys taken b w)
  then show ?case by (simp add: channel_send_def)
next
  case (dequeue k waiting taken b w op rest r s')
  obtain b' w' where s: "s' = (b', w')" by (metis surj_pair)
  from next_user_op_frame [OF dequeue.hyps(3) [unfolded s] dequeue.hyps(2)] dequeue.IH dequeue.prems dequeue.hyps(2)
  show ?case by (simp add: s)
next
  case (others k waiting taken b w m h n w')
  then show ?case by simp
qed


section \<open>Services for evaluation\<close>

text \<open>
  A bridge whose traces consist of one frame: on L1 it logs one message with its signal, on L2 it
  calls the bridge. Every service answers and changes nothing.
\<close>

definition demo_message :: message where
  "demo_message =
     \<lparr>msg_id = 0, msg_fee = 0, msg_gas_limit = 100000, msg_from = 1, msg_src_chain_id = 1, msg_src_owner = 1,
      msg_dest_chain_id = 2, msg_dest_owner = 1, msg_to = 2, msg_value = 0, msg_data = []\<rparr>"

definition demo_rt_services :: "(unit, nat) rt_services" where
  "demo_rt_services =
     \<lparr>base = demo_services,
      l1_trace_call = (\<lambda>rq. return (Some (CallFrame 7 (Some 50) [] [\<lparr>log_topics = Some [100], log_data = Some []\<rparr>,
        \<lparr>log_topics = Some [101], log_data = Some []\<rparr>] []))),
      l2_trace_call = (\<lambda>rq. return (Some (CallFrame 7 (Some 51) SEND_MESSAGE_SELECTOR [] []))),
      message_sent_topic = 100, signal_sent_topic = 101,
      decode_message_sent = (\<lambda>ts d. Some demo_message), decode_signal_sent = (\<lambda>ts d. Some 500),
      decode_send_message = (\<lambda>bs. Some demo_message), hash_message = (\<lambda>m. return 600),
      l1_next_message_id = return 3, l2_next_message_id = return 4, keccak256 = (\<lambda>bs. 700),
      l1_chain_id = 1, l2_chain_id = 2, l1_bridge = 50, l2_bridge = 51, l2_signal_service = 52,
      l2_logs = (\<lambda>n a t. return []), signal_proof = (\<lambda>s n. return ([], [])), abi_hop_proof = (\<lambda>h. []),
      l2_call_signer = 8, sign_l2_call = (\<lambda>m fee nonce. return 77), tx_signer = (\<lambda>tx. 9),
      tx_to = (\<lambda>tx. Some 10), tx_value = (\<lambda>tx. 0), tx_hash = (\<lambda>tx. of_nat tx),
      tx_block_number = (\<lambda>tx. Some 5), db_write = return (), db_read = return (),
      sleep_retry = (\<lambda>w. w)\<rparr>"

definition demo_user_op :: user_op where
  "demo_user_op = \<lparr>uo_id = 0, uo_submitter = 60, uo_calldata = [1, 2]\<rparr>"

definition demo_bridge :: bridge where
  "demo_bridge =
     \<lparr>rx = [demo_user_op\<lparr>uo_id := 1\<rparr>], next_id = 2, by_id = [1 \<mapsto> OpPending], by_hash = Map.empty,
      last_finalized_block_number = 0\<rparr>"

lemma demo_bridge_run: "bridge_run demo_rt_services 1 [] [] (demo_bridge, ())"
proof -
  let ?b = "demo_bridge\<lparr>rx := []\<rparr>"
  have "send_user_op demo_rt_services demo_user_op (bridge_new 0, ()) = (Ok (demo_user_op\<lparr>uo_id := 1\<rparr>), (?b, ()))"
    by (simp add: send_user_op_def store_set_def db_update_def attempt_def bind_def return_def
        demo_rt_services_def bridge_new_def demo_bridge_def b_world_def zoom_def)
  with bridge_run.accept [OF bridge_run.new [of demo_rt_services 0 "()"], of demo_user_op]
  have one: "bridge_run demo_rt_services (Suc 0) ([] @ [demo_user_op\<lparr>uo_id := 1\<rparr>]) [] (?b, ())" by simp
  have "bridge_run demo_rt_services (Suc 0) ([] @ []) [] (channel_send (demo_user_op\<lparr>uo_id := 1\<rparr>) ?b, ())"
    by (rule bridge_run.enqueue) (use one in \<open>simp_all add: demo_bridge_def CHANNEL_CAPACITY_def\<close>)
  then show ?thesis by (simp add: channel_send_def demo_bridge_def)
qed


end
