(* ===== verification/Blobs.thy ===== *)
theory Blobs
  imports Extra_Data Slot_Clock
begin

text \<open>
  The bytes of a blob, on both sides:
  \<^item> \<^verbatim>\<open>src/realtime/src/privacy/mod.rs\<close> and \<^verbatim>\<open>aes.rs\<close>: the payload of a proposal is the compressed
    manifest behind a scheme byte, encrypted or not, in a frame of version and size;
  \<^item> \<^verbatim>\<open>src/common/src/blob/blob_parser.rs\<close>: the data of an L1 block is read back from its blobs.

  AES-256-GCM, the source of randomness, the blob coder and the two blob stores are parameters. The
  reader of the payload is the one of the prover, as the tests of the module spell it out.
\<close>

section \<open>Encryption\<close>

definition NONCE_LEN :: nat where "NONCE_LEN = 12"

text \<open>\<open>Aes256Gcm::encrypt\<close> takes key, nonce and message; \<open>None\<close> is its failure.\<close>

type_synonym aead = "u8 list \<Rightarrow> u8 list \<Rightarrow> u8 list \<Rightarrow> u8 list option"

definition encrypt_with_nonce :: "aead \<Rightarrow> u8 list \<Rightarrow> u8 list \<Rightarrow> u8 list \<Rightarrow> u8 list option" where
  "encrypt_with_nonce aes plaintext key nonce =
     (case aes key nonce plaintext of None \<Rightarrow> None | Some ct \<Rightarrow> Some (nonce @ ct))"

definition encrypt_random_nonce ::
  "aead \<Rightarrow> (nat \<Rightarrow> ('w, u8 list) action) \<Rightarrow> u8 list \<Rightarrow> u8 list \<Rightarrow> ('w, u8 list option) action" where
  "encrypt_random_nonce aes fill_bytes plaintext key =
     bind (fill_bytes NONCE_LEN) (\<lambda>nonce. return (encrypt_with_nonce aes plaintext key nonce))"

section \<open>The payload of a proposal\<close>

definition SHASTA_FRAME_LEN :: nat where "SHASTA_FRAME_LEN = 64"

definition SHASTA_PAYLOAD_VERSION :: u8 where "SHASTA_PAYLOAD_VERSION = 1"

definition SCHEME_PLAIN :: u8 where "SCHEME_PLAIN = 0"

definition SCHEME_AES256_GCM :: u8 where "SCHEME_AES256_GCM = 1"

record proposal_cipher =
  symmetric_key :: "u8 list option"

definition cipher_disabled :: proposal_cipher where
  "cipher_disabled = \<lparr>symmetric_key = None\<rparr>"

definition cipher_enabled :: "u8 list \<Rightarrow> proposal_cipher" where
  "cipher_enabled key = \<lparr>symmetric_key = Some key\<rparr>"

definition cipher_is_enabled :: "proposal_cipher \<Rightarrow> bool" where
  "cipher_is_enabled c = (symmetric_key c \<noteq> None)"

text \<open>The choice of the cipher in the constructor of the L1 execution layer.\<close>

definition cipher_of_config :: "bool \<Rightarrow> u8 list option \<Rightarrow> proposal_cipher outcome" where
  "cipher_of_config privacy_mode privacy_symmetric_key =
     (case (privacy_mode, privacy_symmetric_key) of
        (True, Some key) \<Rightarrow> Ok (cipher_enabled key)
      | (True, None) \<Rightarrow>
          Err (Anyhow ''SURGE_PRIVACY_MODE=true but no SURGE_PRIVACY_SYMMETRIC_KEY configured'')
      | (False, _) \<Rightarrow> Ok cipher_disabled)"

definition wrap ::
  "aead \<Rightarrow> (nat \<Rightarrow> ('w, u8 list) action) \<Rightarrow> proposal_cipher \<Rightarrow> u8 list \<Rightarrow> ('w, u8 list) action" where
  "wrap aes fill_bytes c compressed_manifest =
     (case symmetric_key c of
        None \<Rightarrow> return (SCHEME_PLAIN # compressed_manifest)
      | Some key \<Rightarrow>
          bind (encrypt_random_nonce aes fill_bytes compressed_manifest key) (\<lambda>r.
          bind (lift (ok_or r ''AES-GCM encrypt failed'')) (\<lambda>inner.
          return (SCHEME_AES256_GCM # inner))))"

text \<open>\<open>U256::from(len).to_be_bytes()\<close>.\<close>

definition u256_be_bytes :: "nat \<Rightarrow> u8 list" where
  "u256_be_bytes n = map of_nat (digits 32 n)"

definition frame_version :: "u8 list" where
  "frame_version = (replicate 32 0)[31 := SHASTA_PAYLOAD_VERSION]"

definition build_blob_payload ::
  "aead \<Rightarrow> (nat \<Rightarrow> ('w, u8 list) action) \<Rightarrow> u8 list \<Rightarrow> proposal_cipher \<Rightarrow> ('w, u8 list) action" where
  "build_blob_payload aes fill_bytes framed_input c =
     (if length framed_input < SHASTA_FRAME_LEN
      then raise (Anyhow ''encode_and_compress output shorter than Shasta frame'')
      else bind (wrap aes fill_bytes c (drop SHASTA_FRAME_LEN framed_input)) (\<lambda>inner.
           return (frame_version @ u256_be_bytes (length inner) @ inner)))"

text \<open>
  The reader, as \<open>build_blob_payload_passes_raiko_slice_parser\<close> mimics it at offset 0: the version
  must be the expected one, and the size is the last eight bytes of its word.
\<close>

definition raiko_slice :: "u8 list \<Rightarrow> u8 list option" where
  "raiko_slice out =
     (if take 32 out \<noteq> frame_version then None
      else let blob_data_size = unat (from_be_bytes (drop 24 (take 32 (drop 32 out)))) in
           if 64 + blob_data_size \<le> length out then Some (take blob_data_size (drop 64 out)) else None)"

text \<open>The documented inner shape: the manifest after the scheme byte, or nonce and ciphertext.\<close>

definition inner_manifest :: "aead \<Rightarrow> u8 list \<Rightarrow> u8 list \<Rightarrow> u8 list option" where
  "inner_manifest decrypt key inner =
     (case inner of
        [] \<Rightarrow> None
      | scheme # body \<Rightarrow>
          if scheme = SCHEME_PLAIN then Some body
          else if scheme = SCHEME_AES256_GCM then decrypt key (take NONCE_LEN body) (drop NONCE_LEN body)
          else None)"

lemma length_u256_be_bytes [simp]: "length (u256_be_bytes n) = 32"
  by (simp add: u256_be_bytes_def)

lemma length_frame_version [simp]: "length frame_version = 32"
  by (simp add: frame_version_def)

lemma size_field:
  assumes "n < 2 ^ 64"
  shows "unat (from_be_bytes (drop 24 (u256_be_bytes n))) = n"
proof -
  have "digits 32 n = replicate 24 0 @ digits 8 n"
    using digits_zero_prefix [of n 8 24] assms by simp
  then have "drop 24 (u256_be_bytes n) = map of_nat (digits 8 n)"
    by (simp add: u256_be_bytes_def drop_map)
  moreover have "map unat (map of_nat (digits 8 n) :: u8 list) = digits 8 n"
    by (simp add: digits_def unat_of_nat take_bit_eq_mod)
  ultimately have "unat (from_be_bytes (drop 24 (u256_be_bytes n))) = unat (of_nat (horner (digits 8 n)) :: u64)"
    by (simp add: from_be_bytes_horner)
  also have "\<dots> = n" using assms by (simp add: horner_digits unat_of_nat take_bit_eq_mod)
  finally show ?thesis .
qed

lemma raiko_slice_framed:
  assumes "length inner < 2 ^ 64"
  shows "raiko_slice (frame_version @ u256_be_bytes (length inner) @ inner) = Some inner"
  using size_field [OF assms] by (simp add: raiko_slice_def Let_def)

lemma build_blob_payload_Ok_iff:
  "build_blob_payload aes fill framed c w = (Ok out, w') \<longleftrightarrow>
     64 \<le> length framed \<and>
     (\<exists>inner. wrap aes fill c (drop 64 framed) w = (Ok inner, w') \<and>
        out = frame_version @ u256_be_bytes (length inner) @ inner)"
  by (auto simp: build_blob_payload_def SHASTA_FRAME_LEN_def bind_Ok_iff return_def raise_def)

lemma wrap_cases:
  assumes "wrap aes fill c m w = (Ok inner, w')"
  obtains (plain) "symmetric_key c = None" "inner = 0 # m" "w' = w"
  | (sealed) key nonce ct where "symmetric_key c = Some key" "fill 12 w = (Ok nonce, w')"
      "aes key nonce m = Some ct" "inner = 1 # nonce @ ct"
proof (cases "symmetric_key c")
  case None
  with assms show ?thesis by (auto simp: wrap_def return_def SCHEME_PLAIN_def intro: plain)
next
  case (Some key)
  with assms show ?thesis
    by (auto simp: wrap_def bind_Ok_iff return_def lift_def encrypt_random_nonce_def NONCE_LEN_def
        encrypt_with_nonce_def SCHEME_AES256_GCM_def split: option.splits intro!: sealed)
qed

text \<open>
  C23: A blob payload can be read back. If the payload of a framed manifest is built, the prover's
  parser finds in it exactly the inner payload, and the inner payload opens to the compressed
  manifest - in the clear when privacy is off, and under the key of the node when it is on, for
  every randomness, if decryption inverts encryption.
\<close>
theorem blob_payload_roundtrip:
  fixes fill :: "nat \<Rightarrow> ('w, u8 list) action"
  assumes "build_blob_payload aes fill framed c w = (Ok out, w')"
    and "symmetric_key c = None \<or> symmetric_key c = Some key"
    and decrypts: "\<And>nonce m ct. aes key nonce m = Some ct \<Longrightarrow> decrypt key nonce ct = Some m"
    and nonces: "\<And>n v bs v'. fill n v = (Ok bs, v') \<Longrightarrow> length bs = n"
    and fits: "length out < 2 ^ 64"
  shows "\<exists>inner. raiko_slice out = Some inner \<and> out = take 64 out @ inner \<and>
    inner_manifest decrypt key inner = Some (drop 64 framed)"
proof -
  from assms(1) obtain inner where w: "wrap aes fill c (drop 64 framed) w = (Ok inner, w')"
    and out: "out = frame_version @ u256_be_bytes (length inner) @ inner"
    by (auto simp: build_blob_payload_Ok_iff)
  from fits out have "length inner < 2 ^ 64" by simp
  then have "raiko_slice out = Some inner" unfolding out by (rule raiko_slice_framed)
  moreover have "out = take 64 out @ inner" by (simp add: out)
  moreover have "inner_manifest decrypt key inner = Some (drop 64 framed)"
    using w
  proof (cases rule: wrap_cases)
    case plain
    then show ?thesis by (simp add: inner_manifest_def SCHEME_PLAIN_def)
  next
    case (sealed k nonce ct)
    moreover from this assms(2) have "k = key" by auto
    ultimately show ?thesis
      using nonces decrypts
      by (simp add: inner_manifest_def SCHEME_PLAIN_def SCHEME_AES256_GCM_def NONCE_LEN_def)
  qed
  ultimately show ?thesis by blast
qed

text \<open>Concrete data: a stream cipher that adds the key byte, with a four-byte tag of zeros.\<close>

definition demo_aes :: aead where
  "demo_aes key nonce m = Some (map (\<lambda>b. b + hd key) m @ [0, 0, 0, 0])"

definition demo_open :: aead where
  "demo_open key nonce ct = Some (map (\<lambda>b. b - hd key) (take (length ct - 4) ct))"

definition demo_fill :: "nat \<Rightarrow> (unit, u8 list) action" where
  "demo_fill n = return (replicate n 9)"

definition demo_payload :: "u8 list" where
  "demo_payload = frame_version @ u256_be_bytes 19 @ (1 # replicate 12 9 @ [8, 9, 0, 0, 0, 0])"

lemma demo_build_payload:
  "build_blob_payload demo_aes demo_fill (replicate 64 0 @ [3, 4]) (cipher_enabled [5]) () = (Ok demo_payload, ())"
  by (simp add: build_blob_payload_def SHASTA_FRAME_LEN_def wrap_def cipher_enabled_def
      encrypt_random_nonce_def encrypt_with_nonce_def demo_aes_def demo_fill_def demo_payload_def
      NONCE_LEN_def SCHEME_AES256_GCM_def bind_def return_def lift_def)

theorem blob_payload_roundtrip_witness:
  "\<exists>inner. raiko_slice demo_payload = Some inner \<and> demo_payload = take 64 demo_payload @ inner \<and>
     inner_manifest demo_open [5] inner = Some [3, 4]"
proof -
  have "\<exists>inner. raiko_slice demo_payload = Some inner \<and> demo_payload = take 64 demo_payload @ inner \<and>
     inner_manifest demo_open [5] inner = Some (drop 64 (replicate 64 0 @ [3, 4]))"
  proof (rule blob_payload_roundtrip [OF demo_build_payload])
    show "demo_open [5] nonce ct = Some m" if "demo_aes [5] nonce m = Some ct" for nonce m ct
      using that by (auto simp: demo_aes_def demo_open_def comp_def)
    show "length bs = n" if "demo_fill n v = (Ok bs, v')" for n v bs v'
      using that by (auto simp: demo_fill_def return_def)
  qed (simp_all add: cipher_enabled_def demo_payload_def)
  then show ?thesis by simp
qed

text \<open>
  Privacy mode is never silently off: with privacy configured the node either refuses to
  start, for lack of a key, or every payload it builds carries the scheme byte of AES-256-GCM, a
  nonce of twelve bytes and the ciphertext; a short input is refused in every mode.
\<close>
lemma privacy_mode_encrypts:
  assumes "cipher_of_config True key = Ok c"
    and nonces: "\<And>n v bs v'. fill n v = (Ok bs, v') \<Longrightarrow> length bs = n"
  shows "key \<noteq> None \<and>
    (\<forall>out w'. build_blob_payload aes fill framed c w = (Ok out, w') \<longrightarrow>
      64 \<le> length framed \<and> out ! 64 = SCHEME_AES256_GCM \<and>
      (\<exists>nonce ct. aes (the key) nonce (drop 64 framed) = Some ct \<and> length nonce = 12 \<and>
        drop 65 out = nonce @ ct))"
proof -
  from assms(1) obtain k where key: "key = Some k" "c = cipher_enabled k"
    by (auto simp: cipher_of_config_def split: option.splits)
  have "64 \<le> length framed \<and> out ! 64 = SCHEME_AES256_GCM \<and>
      (\<exists>nonce ct. aes (the key) nonce (drop 64 framed) = Some ct \<and> length nonce = 12 \<and> drop 65 out = nonce @ ct)"
    if "build_blob_payload aes fill framed c w = (Ok out, w')" for out w'
  proof -
    from that obtain inner where len: "64 \<le> length framed"
      and w: "wrap aes fill c (drop 64 framed) w = (Ok inner, w')"
      and out: "out = frame_version @ u256_be_bytes (length inner) @ inner"
      by (auto simp: build_blob_payload_Ok_iff)
    from w show ?thesis
    proof (cases rule: wrap_cases)
      case plain
      with key show ?thesis by (simp add: cipher_enabled_def)
    next
      case (sealed k' nonce ct)
      with key have "k' = k" by (simp add: cipher_enabled_def)
      with sealed key have "aes (the key) nonce (drop 64 framed) = Some ct" by simp
      moreover have "length nonce = 12" using sealed(2) by (rule nonces)
      ultimately show ?thesis using len sealed(4) out
        by (intro conjI exI [of _ nonce] exI [of _ ct]) (simp_all add: SCHEME_AES256_GCM_def nth_append)
    qed
  qed
  with key show ?thesis by blast
qed

section \<open>Reading blobs\<close>

record ('w, 'blob) blob_sources =
  blob_indexer :: "(b256 \<Rightarrow> ('w, 'blob) action) option"
  consensus_blobs :: "u64 \<Rightarrow> b256 list \<Rightarrow> ('w, 'blob list) action"
  block_timestamp_of :: "u64 \<Rightarrow> ('w, u64) action"
  make_sidecar :: "'blob list \<Rightarrow> (b256 \<times> 'blob) list option"
  decode_blob :: "'blob \<Rightarrow> u8 list option"
  blob_clock :: slot_clock

definition append_blob :: "('w, 'blob) blob_sources \<Rightarrow> u8 list \<Rightarrow> 'blob \<Rightarrow> ('w, u8 list) action" where
  "append_blob B result blob =
     bind (lift (ok_or (decode_blob B blob) ''Failed to decode blob'')) (\<lambda>data. return (result @ data))"

definition get_data_from_consensus_layer ::
  "('w, 'blob) blob_sources \<Rightarrow> u64 \<Rightarrow> b256 list \<Rightarrow> ('w, u8 list) action" where
  "get_data_from_consensus_layer B block_timestamp blob_hashes =
     bind (lift (slot_of (blob_clock B) (from_secs block_timestamp))) (\<lambda>slot.
     bind (consensus_blobs B slot blob_hashes) (\<lambda>blobs.
     bind (lift (ok_or (make_sidecar B blobs) ''Failed to create BlobTransactionSidecar'')) (\<lambda>blob_sidecar.
     for_each (\<lambda>result hash.
       bind (lift (ok_or (map_of blob_sidecar hash) ''Blob not found in consensus layer'')) (append_blob B result))
       [] blob_hashes)))"

definition get_data_from_block_indexer ::
  "('w, 'blob) blob_sources \<Rightarrow> b256 list \<Rightarrow> ('w, u8 list) action" where
  "get_data_from_block_indexer B blob_hashes =
     bind (lift (ok_or (blob_indexer B) ''Blob Indexer is not configured'')) (\<lambda>get_blob.
     for_each (\<lambda>result hash. bind (get_blob hash) (append_blob B result)) [] blob_hashes)"

definition get_bytes_from_blobs ::
  "('w, 'blob) blob_sources \<Rightarrow> u64 \<Rightarrow> b256 list \<Rightarrow> ('w, u8 list) action" where
  "get_bytes_from_blobs B block_timestamp blob_hashes =
     (if blob_indexer B \<noteq> None then get_data_from_block_indexer B blob_hashes
      else get_data_from_consensus_layer B block_timestamp blob_hashes)"

text \<open>\<open>usize\<close> has 64 bits on the supported targets, so the sum of two 32-bit values does not overflow.\<close>

definition blob_to_vec ::
  "('w, 'blob) blob_sources \<Rightarrow> u64 \<Rightarrow> b256 list \<Rightarrow> u32 \<Rightarrow> u32 \<Rightarrow> ('w, u8 list) action" where
  "blob_to_vec B block blob_hashes tx_list_offset tx_list_size =
     bind (block_timestamp_of B block) (\<lambda>block_timestamp.
     bind (get_bytes_from_blobs B block_timestamp blob_hashes) (\<lambda>result.
     let tx_list_left = unat tx_list_offset; tx_list_right = tx_list_left + unat tx_list_size in
     if length result < tx_list_right then raise (Anyhow ''Invalid tx list offset or size'')
     else return (take (tx_list_right - tx_list_left) (drop tx_list_left result))))"

definition extract_transactions_from_blob ::
  "('w, 'blob) blob_sources \<Rightarrow> (u8 list \<Rightarrow> 'tx list outcome) \<Rightarrow> u64 \<Rightarrow> b256 list \<Rightarrow> u32 \<Rightarrow> u32 \<Rightarrow>
   ('w, 'tx list) action" where
  "extract_transactions_from_blob B uncompress_and_decode block blob_hashes tx_list_offset tx_list_size =
     bind (blob_to_vec B block blob_hashes tx_list_offset tx_list_size) (\<lambda>v.
     lift (uncompress_and_decode v))"

text \<open>The data of a list of hashes, given which blob a hash stands for.\<close>

fun blob_data :: "('blob \<Rightarrow> u8 list option) \<Rightarrow> (b256 \<Rightarrow> 'blob option) \<Rightarrow> b256 list \<Rightarrow> u8 list option" where
  "blob_data dec get [] = Some []"
| "blob_data dec get (h # hs) =
     Option.bind (get h) (\<lambda>blob. Option.bind (dec blob) (\<lambda>d.
       map_option (\<lambda>rest. d @ rest) (blob_data dec get hs)))"

lemma lift_Ok_iff: "lift r s = (Ok a, t) \<longleftrightarrow> r = Ok a \<and> t = s"
  by (auto simp: lift_def)

lemma append_blob_Ok_iff:
  "append_blob B acc blob w = (Ok bs, w') \<longleftrightarrow> (\<exists>d. decode_blob B blob = Some d \<and> bs = acc @ d \<and> w' = w)"
  by (auto simp: append_blob_def bind_Ok_iff lift_Ok_iff return_def)

lemma for_each_consensus:
  "for_each (\<lambda>result hash.
       bind (lift (ok_or (get hash) msg)) (append_blob B result)) acc hs w = (Ok bs, w') \<longleftrightarrow>
   w' = w \<and> (\<exists>rest. blob_data (decode_blob B) get hs = Some rest \<and> bs = acc @ rest)"
proof (induction hs arbitrary: acc)
  case (Cons h hs)
  show ?case
    by (cases "get h"; cases "decode_blob B (the (get h))"; cases "blob_data (decode_blob B) get hs")
      (auto simp: bind_Ok_iff append_blob_Ok_iff lift_Ok_iff Cons.IH)
qed (auto simp: return_def)

lemma for_each_indexer:
  assumes "\<And>h v. get_blob h v = (case store h of None \<Rightarrow> (Err (Anyhow msg), v) | Some b \<Rightarrow> (Ok b, v))"
  shows "for_each (\<lambda>result hash. bind (get_blob hash) (append_blob B result)) acc hs w = (Ok bs, w') \<longleftrightarrow>
    w' = w \<and> (\<exists>rest. blob_data (decode_blob B) store hs = Some rest \<and> bs = acc @ rest)"
proof (induction hs arbitrary: acc)
  case (Cons h hs)
  have get: "get_blob h v = (Ok b, v') \<longleftrightarrow> store h = Some b \<and> v' = v" for v b v'
    by (auto simp: assms split: option.splits)
  show ?case
    by (cases "store h"; cases "decode_blob B (the (store h))"; cases "blob_data (decode_blob B) store hs")
      (auto simp: bind_Ok_iff append_blob_Ok_iff get Cons.IH)
qed (auto simp: return_def)

text \<open>
  Both blob sources give the same bytes. If the indexer and the consensus client, which may
  return the blobs of a slot in any order and more of them, know the same blob for every requested
  hash, then reading through the indexer succeeds exactly if reading through the consensus client
  does, with the same result: the data of the blobs in the order of the hashes.
\<close>
lemma blob_sources_agree:
  fixes B :: "('w, 'blob) blob_sources"
  assumes "slot_of (blob_clock B) (from_secs ts) = Ok slot"
    and "consensus_blobs B slot hs w = (Ok blobs, w)" "make_sidecar B blobs = Some sidecar"
    and "blob_indexer B = Some get_blob"
    and "\<And>h v. get_blob h v =
      (case map_of sidecar h of None \<Rightarrow> (Err (Anyhow msg), v) | Some b \<Rightarrow> (Ok b, v))"
  shows "(get_bytes_from_blobs B ts hs w = (Ok bs, w') \<longleftrightarrow>
      get_bytes_from_blobs (B\<lparr>blob_indexer := None\<rparr>) ts hs w = (Ok bs, w')) \<and>
    (get_bytes_from_blobs B ts hs w = (Ok bs, w') \<longleftrightarrow>
      w' = w \<and> blob_data (decode_blob B) (map_of sidecar) hs = Some bs)"
proof -
  have dec: "append_blob (B\<lparr>blob_indexer := None\<rparr>) = append_blob B"
    by (simp add: append_blob_def fun_eq_iff)
  have "get_bytes_from_blobs (B\<lparr>blob_indexer := None\<rparr>) ts hs w = (Ok bs, w') \<longleftrightarrow>
      w' = w \<and> blob_data (decode_blob B) (map_of sidecar) hs = Some bs"
    using assms(1-3)
    by (auto simp: get_bytes_from_blobs_def get_data_from_consensus_layer_def bind_Ok_iff lift_def
        for_each_consensus dec)
  moreover have "get_bytes_from_blobs B ts hs w = (Ok bs, w') \<longleftrightarrow>
      w' = w \<and> blob_data (decode_blob B) (map_of sidecar) hs = Some bs"
    using assms(4) for_each_indexer [OF assms(5), where B = B and acc = "[]"]
    by (auto simp: get_bytes_from_blobs_def get_data_from_block_indexer_def bind_Ok_iff lift_def)
  ultimately show ?thesis by blast
qed

text \<open>Concrete data: two blobs, of one byte each, which the consensus client returns in reverse.\<close>

definition demo_blob_sources :: "(unit, nat) blob_sources" where
  "demo_blob_sources =
     \<lparr>blob_indexer = Some (\<lambda>h v. case map_of [(12, 2), (11, 1 :: nat)] h of
        None \<Rightarrow> (Err (Anyhow ''no blob''), v) | Some b \<Rightarrow> (Ok b, v)),
      consensus_blobs = (\<lambda>slot hs. return [2, 1]), block_timestamp_of = (\<lambda>n. return 1606824023),
      make_sidecar = (\<lambda>blobs. Some (map (\<lambda>b. (of_nat (10 + b), b)) blobs)),
      decode_blob = (\<lambda>b. Some [of_nat b]), blob_clock = mainnet_clock\<rparr>"

end
