(* ===== verification/Proposal_Tx.thy ===== *)
theory Proposal_Tx
  imports Bridge Blobs Tx_Monitor
begin

text \<open>
  The transactions that carry a proposal to L1:
  \<^item> \<^verbatim>\<open>src/common/src/l1/fees_per_gas.rs\<close>: the fees of a transaction;
  \<^item> \<^verbatim>\<open>src/shasta/src/l1/proposal_tx_builder.rs\<close>: the blob transaction of the Shasta node;
  \<^item> \<^verbatim>\<open>src/realtime/src/l1/proposal_tx_builder.rs\<close> and \<open>send_batch_to_l1\<close> of
    \<^verbatim>\<open>src/realtime/src/l1/execution_layer.rs\<close>: the multicall of the real-time node, which puts the
    user operations, the inbox calls and the bridge calls in an order in which each finds the
    signals it needs.

  The ABI encoders, the sidecar builder and the gas estimation are parameters. A transaction of type
  \<open>propose_tx\<close> is the body of the \<open>tx_request\<close> that the transaction monitor sends.
\<close>

section \<open>Transactions\<close>

record propose_tx =
  pt_from :: address
  pt_to :: address
  pt_input :: "u8 list"
  pt_sidecar :: "u8 list list"
  pt_gas_limit :: "u64 option"

type_synonym propose_request = "propose_tx tx_request"

definition propose_request_of :: "propose_tx \<Rightarrow> propose_request" where
  "propose_request_of body =
     \<lparr>tx_nonce = None, tx_chain_id = None, tx_max_fee_per_gas = None, tx_max_priority_fee_per_gas = None,
      tx_max_fee_per_blob_gas = None, tx_body = body\<rparr>"

datatype gas_answer = GasEstimate u64 | GasError rpc_error

record 'w gas_services =
  estimate_gas :: "propose_request \<Rightarrow> ('w, gas_answer) action"
  fee_history :: "('w, u128 list \<times> u128 list) action"
  estimate_eip1559_fees :: "('w, u128 \<times> u128) action"
  extra_gas_percentage :: u64

section \<open>Fees\<close>

record fees_per_gas =
  base_fee_per_gas :: u128
  base_fee_per_blob_gas :: u128
  max_fee_per_gas :: u128
  max_priority_fee_per_gas :: u128

definition update_eip1559 :: "fees_per_gas \<Rightarrow> propose_request \<Rightarrow> u64 \<Rightarrow> propose_request" where
  "update_eip1559 f tx gas_limit =
     tx\<lparr>tx_body := (tx_body tx)\<lparr>pt_gas_limit := Some gas_limit\<rparr>, tx_max_fee_per_gas := Some (max_fee_per_gas f),
        tx_max_priority_fee_per_gas := Some (max_priority_fee_per_gas f)\<rparr>"

definition update_eip4844 :: "fees_per_gas \<Rightarrow> propose_request \<Rightarrow> u64 \<Rightarrow> propose_request" where
  "update_eip4844 f tx gas_limit =
     tx\<lparr>tx_body := (tx_body tx)\<lparr>pt_gas_limit := Some gas_limit\<rparr>, tx_max_fee_per_gas := Some (max_fee_per_gas f),
        tx_max_priority_fee_per_gas := Some (max_priority_fee_per_gas f),
        tx_max_fee_per_blob_gas := Some (base_fee_per_blob_gas f)\<rparr>"

definition get_eip1559_cost :: "fees_per_gas \<Rightarrow> u64 \<Rightarrow> u128 outcome" where
  "get_eip1559_cost f gas_used =
     and_then (add (base_fee_per_gas f) (max_priority_fee_per_gas f)) (\<lambda>fee. mul fee (ucast gas_used))"

text \<open>The constant \<open>DATA_GAS_PER_BLOB\<close> of EIP-4844.\<close>

definition DATA_GAS_PER_BLOB :: u64 where "DATA_GAS_PER_BLOB = 131072"

definition get_eip4844_cost :: "fees_per_gas \<Rightarrow> u64 \<Rightarrow> u64 \<Rightarrow> u128 outcome" where
  "get_eip4844_cost f blob_count gas_used =
     and_then (mul DATA_GAS_PER_BLOB blob_count) (\<lambda>blob_gas_used.
     and_then (add (base_fee_per_gas f) (max_priority_fee_per_gas f)) (\<lambda>fee.
     and_then (mul (ucast gas_used) fee) (\<lambda>execution_gas_cost.
     and_then (mul (ucast blob_gas_used) (base_fee_per_blob_gas f)) (\<lambda>blob_gas_cost.
     add execution_gas_cost blob_gas_cost))))"

definition last_of :: "'a list \<Rightarrow> 'a option" where
  "last_of xs = (if xs = [] then None else Some (last xs))"

definition get_fees_per_gas :: "'w gas_services \<Rightarrow> ('w, fees_per_gas) action" where
  "get_fees_per_gas G =
     bind (fee_history G) (\<lambda>(base_fees, blob_fees).
     bind (lift (ok_or (last_of base_fees) ''Failed to get base_fee_per_gas from fee history'')) (\<lambda>base_fee.
     bind (lift (ok_or (last_of blob_fees) ''Failed to get base_fee_per_blob_gas from fee history'')) (\<lambda>blob_fee.
     bind (estimate_eip1559_fees G) (\<lambda>(fee, priority).
     bind (lift (add base_fee priority)) (\<lambda>_.
     return \<lparr>base_fee_per_gas = base_fee, base_fee_per_blob_gas = blob_fee, max_fee_per_gas = fee,
             max_priority_fee_per_gas = priority\<rparr>)))))"

text \<open>
  What both builders do with the finished blob transaction. A refused estimation is an error the
  node can act on; with any other failure the transaction goes out as it is.
\<close>

definition estimate_and_price :: "'w gas_services \<Rightarrow> propose_request \<Rightarrow> ('w, propose_request) action" where
  "estimate_and_price G tx_blob =
     bind (estimate_gas G tx_blob) (\<lambda>answer.
     case answer of
       GasError (ErrorResp err) \<Rightarrow>
         raise (TxError (case convert_error_payload err of Some e \<Rightarrow> e | None \<Rightarrow> EstimationFailed))
     | GasError OtherRpcError \<Rightarrow> return tx_blob
     | GasEstimate gas \<Rightarrow>
         bind (lift (and_then (mul gas (extra_gas_percentage G)) (\<lambda>p.
                     and_then (div_chk p 100) (\<lambda>extra. add gas extra)))) (\<lambda>tx_blob_gas.
         attempt (get_fees_per_gas G)
           (\<lambda>fees. return (update_eip4844 fees tx_blob tx_blob_gas))
           (\<lambda>_. return tx_blob)))"

section \<open>The Shasta builder\<close>

record blob_reference =
  blob_start_index :: u16
  num_blobs :: u16
  blob_offset :: "24 word"

text \<open>The input of \<open>Inbox.propose\<close>, which the inbox encodes itself.\<close>

record shasta_propose_input =
  spi_deadline :: u48
  spi_blob_reference :: blob_reference
  spi_num_forced_inclusions :: u16

record ('w, 'tx) shasta_tx_services =
  st_services :: "('w, 'tx) services"
  st_gas :: "'w gas_services"
  st_build_sidecar :: "u8 list \<Rightarrow> u8 list list outcome"
  st_encode_propose_input :: "shasta_propose_input \<Rightarrow> ('w, u8 list) action"
  st_propose_call :: "u8 list \<Rightarrow> u8 list"

record 'tx shasta_tx_builder =
  sb_l2_blocks :: "'tx l2_block_v2 list"
  sb_from :: address
  sb_to :: address
  sb_num_forced_inclusion :: u16
  sb_slot_duration_sec :: u64

definition build_sidecar_from_l2_blocks ::
  "('w, 'tx) shasta_tx_services \<Rightarrow> 'tx l2_block_v2 list \<Rightarrow> u8 list list outcome" where
  "build_sidecar_from_l2_blocks T l2_blocks =
     and_then (ok_or (compress_manifest (st_services T) (map block_manifest_of l2_blocks))
                ''Can't encode and compress manifest'') (\<lambda>manifest_data.
     case st_build_sidecar T manifest_data of
       Err _ \<Rightarrow> Err (Anyhow ''sidecar builder build_7594 failed'')
     | r \<Rightarrow> r)"

definition get_latest_block_timestamp :: "('w, 'tx) shasta_tx_services \<Rightarrow> ('w, u64) action" where
  "get_latest_block_timestamp T =
     bind (get_block (l1_provider (st_services T)) Latest False) (\<lambda>r.
     bind (lift (ok_or r ''Latest block not found'')) (\<lambda>b. return (rb_timestamp b)))"

definition shasta_build_propose_blob ::
  "('w, 'tx) shasta_tx_services \<Rightarrow> 'tx shasta_tx_builder \<Rightarrow> ('w, propose_request) action" where
  "shasta_build_propose_blob T B =
     bind (lift (build_sidecar_from_l2_blocks T (sb_l2_blocks B))) (\<lambda>sidecar.
     bind (lift (case try_from (length sidecar) of Err _ \<Rightarrow> Err (Anyhow ''blobs len try_into'') | r \<Rightarrow> r)) (\<lambda>n.
     bind (map_err ''inbox encodeProposeInput failed''
       (st_encode_propose_input T \<lparr>spi_deadline = 0,
          spi_blob_reference = \<lparr>blob_start_index = 0, num_blobs = n, blob_offset = 0\<rparr>,
          spi_num_forced_inclusions = sb_num_forced_inclusion B\<rparr>)) (\<lambda>data.
     return (propose_request_of \<lparr>pt_from = sb_from B, pt_to = sb_to B, pt_input = st_propose_call T data,
        pt_sidecar = sidecar, pt_gas_limit = None\<rparr>))))"

definition last_l2_timestamp :: "'tx l2_block_v2 list \<Rightarrow> u64" where
  "last_l2_timestamp bs = (if bs = [] then 0 else b_timestamp_sec (last bs))"

definition shasta_build_propose_tx ::
  "('w, 'tx) shasta_tx_services \<Rightarrow> 'tx shasta_tx_builder \<Rightarrow> ('w, propose_request) action" where
  "shasta_build_propose_tx T B =
     bind (get_latest_block_timestamp T) (\<lambda>latest_block_timestamp.
     bind (lift (add latest_block_timestamp (sb_slot_duration_sec B))) (\<lambda>next_block_timestamp.
     if next_block_timestamp < last_l2_timestamp (sb_l2_blocks B)
     then raise (TxError EstimationTooEarly)
     else bind (map_err ''build_propose_blob failed'' (shasta_build_propose_blob T B))
            (estimate_and_price (st_gas T))))"

text \<open>\<open>TransactionRequestBuilder::build\<close>: every error that is not a transaction error is \<open>BuildFailed\<close>.\<close>

definition shasta_build ::
  "('w, 'tx) shasta_tx_services \<Rightarrow> 'tx shasta_tx_builder \<Rightarrow> ('w, transaction_error + propose_request) action" where
  "shasta_build T B =
     attempt (shasta_build_propose_tx T B) (\<lambda>tx. return (Inr tx))
       (\<lambda>e. return (Inl (case e of TxError t \<Rightarrow> t | _ \<Rightarrow> BuildFailed)))"

section \<open>The real-time builder\<close>

datatype proof_type = Risc0 | Sp1 | Zisk

definition proof_bit_flag :: "proof_type \<Rightarrow> u8" where
  "proof_bit_flag t = (case t of Risc0 \<Rightarrow> push_bit 1 1 | Sp1 \<Rightarrow> push_bit 2 1 | Zisk \<Rightarrow> push_bit 3 1)"

definition MOCK_ECDSA_BIT_FLAG :: u8 where "MOCK_ECDSA_BIT_FLAG = 1"

record propose_input =
  pi_blob_reference :: blob_reference
  pi_num_forced_inclusions :: u16
  pi_signal_slots :: "b256 list"
  pi_max_anchor_block_number :: u48

record propose_input_v2 =
  pi2_blob_reference :: blob_reference
  pi2_num_forced_inclusions :: u16
  pi2_existing_signals :: "b256 list"
  pi2_required_return_signals :: "b256 list"
  pi2_max_anchor_block_number :: u48

datatype contract_call =
    Propose propose_input checkpoint "u8 list"
  | TentativePropose propose_input_v2 checkpoint "u8 list"
  | FinalizePropose "b256 list"
  | ProcessMessage message "u8 list"

record multicall_call =
  mc_target :: address
  mc_value :: b256
  mc_data :: "u8 list"

record ('w, 'tx) propose_services =
  rt :: "('w, 'tx) rt_services"
  gas :: "'w gas_services"
  realtime_inbox :: address
  proposer_multicall :: address
  abi_call :: "contract_call \<Rightarrow> u8 list"
  abi_multicall :: "multicall_call list \<Rightarrow> u8 list"
  abi_sub_proofs :: "(u8 \<times> u8 list) list \<Rightarrow> u8 list"
  build_7594 :: "u8 list \<Rightarrow> u8 list list outcome"
  versioned_hashes :: "u8 list list \<Rightarrow> b256 list"
  aes_gcm :: aead
  os_rng :: "nat \<Rightarrow> ('w, u8 list) action"
  fi_state :: "('w, u48 \<times> u48) action"
  monitor_tx :: "propose_request \<Rightarrow> u64 \<Rightarrow> ('w, unit) action"
  rt_proof_type :: proof_type
  mock_mode :: bool
  node_cipher :: proposal_cipher
  fi_max_per_proposal :: u16

definition build_user_op_call :: "user_op \<Rightarrow> multicall_call" where
  "build_user_op_call op = \<lparr>mc_target = uo_submitter op, mc_value = 0, mc_data = uo_calldata op\<rparr>"

definition build_l1_call_call :: "('w, 'tx) propose_services \<Rightarrow> l1_call \<Rightarrow> multicall_call" where
  "build_l1_call_call P c =
     \<lparr>mc_target = l1_bridge (rt P), mc_value = 0,
      mc_data = abi_call P (ProcessMessage (message_from_l2 c) (signal_slot_proof c))\<rparr>"

definition inbox_call :: "('w, 'tx) propose_services \<Rightarrow> contract_call \<Rightarrow> multicall_call" where
  "inbox_call P c = \<lparr>mc_target = realtime_inbox P, mc_value = 0, mc_data = abi_call P c\<rparr>"

text \<open>The manifest of a batch, encoded and compressed.\<close>

definition rt_manifest_data :: "('w, 'tx) propose_services \<Rightarrow> 'tx rt_proposal \<Rightarrow> u8 list option" where
  "rt_manifest_data P batch = compress_manifest (base (rt P)) (map block_manifest_of (rp_l2_blocks batch))"

definition blob_payload_of :: "('w, 'tx) propose_services \<Rightarrow> 'tx rt_proposal \<Rightarrow> ('w, u8 list) action" where
  "blob_payload_of P batch =
     (case rp_blob_payload batch of
        Some payload \<Rightarrow> return payload
      | None \<Rightarrow>
          bind (lift (ok_or (rt_manifest_data P batch) ''Can't encode and compress manifest'')) (\<lambda>manifest_data.
          build_blob_payload (aes_gcm P) (os_rng P) manifest_data (node_cipher P)))"

text \<open>\<open>U48::from\<close> panics on a value that does not fit.\<close>

definition build_inbox_calls ::
  "('w, 'tx) propose_services \<Rightarrow> 'tx rt_proposal \<Rightarrow> bool \<Rightarrow> b256 list \<Rightarrow> u16 \<Rightarrow>
   ('w, contract_call list \<times> u8 list list) action" where
  "build_inbox_calls P batch use_deferred required num_forced_inclusions =
     bind (blob_payload_of P batch) (\<lambda>blob_payload.
     bind (lift (build_7594 P blob_payload)) (\<lambda>sidecar.
     bind (lift (ok_or (rp_zk_proof batch) ''ZK proof not set on proposal'')) (\<lambda>raw_proof.
     let bit_flag = (if mock_mode P then MOCK_ECDSA_BIT_FLAG else proof_bit_flag (rt_proof_type P));
         proof = abi_sub_proofs P [(bit_flag, raw_proof)] in
     bind (lift (try_from (length sidecar))) (\<lambda>n.
     let blob_reference = \<lparr>blob_start_index = 0, num_blobs = n, blob_offset = 0\<rparr> in
     bind (lift (u48_from (rp_max_anchor_block_number batch))) (\<lambda>max_anchor.
     if \<not> use_deferred
     then return ([Propose \<lparr>pi_blob_reference = blob_reference,
                     pi_num_forced_inclusions = num_forced_inclusions,
                     pi_signal_slots = rp_signal_slots batch, pi_max_anchor_block_number = max_anchor\<rparr>
                     (rp_checkpoint batch) proof], sidecar)
     else
       let existing_signals = filter (\<lambda>s. s \<notin> set required) (rp_signal_slots batch) in
       return ([TentativePropose \<lparr>pi2_blob_reference = blob_reference,
                  pi2_num_forced_inclusions = num_forced_inclusions,
                  pi2_existing_signals = existing_signals, pi2_required_return_signals = required,
                  pi2_max_anchor_block_number = max_anchor\<rparr> (rp_checkpoint batch) proof,
                FinalizePropose required], sidecar))))))"

definition required_return_signals :: "'tx rt_proposal \<Rightarrow> b256 list" where
  "required_return_signals batch = List.map_filter required_return_signal (rp_l1_calls batch)"

text \<open>The calls of the multicall in order; with two inbox calls the second one comes last.\<close>

definition multicall_of ::
  "('w, 'tx) propose_services \<Rightarrow> 'tx rt_proposal \<Rightarrow> bool \<Rightarrow> contract_call list \<Rightarrow> multicall_call list" where
  "multicall_of P batch use_deferred inbox_calls =
     (if use_deferred
      then map build_user_op_call (rp_user_ops batch) @ [inbox_call P (inbox_calls ! 0)] @
           map (build_l1_call_call P) (rp_l1_calls batch) @ [inbox_call P (inbox_calls ! 1)]
      else map build_user_op_call (rp_user_ops batch) @ [inbox_call P (inbox_calls ! 0)] @
           map (build_l1_call_call P) (rp_l1_calls batch))"

definition rt_build_propose_blob ::
  "('w, 'tx) propose_services \<Rightarrow> 'tx rt_proposal \<Rightarrow> address \<Rightarrow> u16 \<Rightarrow> ('w, propose_request) action" where
  "rt_build_propose_blob P batch from_addr num_forced_inclusions =
     (let required = required_return_signals batch; use_deferred = (required \<noteq> []) in
      bind (build_inbox_calls P batch use_deferred required num_forced_inclusions) (\<lambda>(inbox_calls, sidecar).
      if rp_user_ops batch = [] \<and> rp_l1_calls batch = [] \<and> length inbox_calls = 1
      then return (propose_request_of \<lparr>pt_from = from_addr, pt_to = realtime_inbox P,
             pt_input = abi_call P (inbox_calls ! 0), pt_sidecar = sidecar, pt_gas_limit = None\<rparr>)
      else return (propose_request_of \<lparr>pt_from = from_addr, pt_to = proposer_multicall P,
             pt_input = abi_multicall P (multicall_of P batch use_deferred inbox_calls),
             pt_sidecar = sidecar, pt_gas_limit = None\<rparr>)))"

definition rt_build_propose_tx ::
  "('w, 'tx) propose_services \<Rightarrow> 'tx rt_proposal \<Rightarrow> address \<Rightarrow> u16 \<Rightarrow> ('w, propose_request) action" where
  "rt_build_propose_tx P batch from_addr num_forced_inclusions =
     bind (rt_build_propose_blob P batch from_addr num_forced_inclusions) (estimate_and_price (gas P))"

definition get_forced_inclusion_state :: "('w, 'tx) propose_services \<Rightarrow> ('w, u64 \<times> u64) action" where
  "get_forced_inclusion_state P =
     bind (map_err ''getForcedInclusionState failed'' (fi_state P)) (\<lambda>(head, tail).
     return (ucast head, ucast tail))"

definition forced_inclusion_count :: "u16 \<Rightarrow> u64 \<Rightarrow> u64 \<Rightarrow> u16" where
  "forced_inclusion_count fi_max head tail =
     (let pending = saturating_sub tail head in
      case try_from (unat (min pending (ucast fi_max))) of Ok n \<Rightarrow> n | _ \<Rightarrow> fi_max)"

definition send_batch_to_l1 :: "('w, 'tx) propose_services \<Rightarrow> 'tx rt_proposal \<Rightarrow> ('w, unit) action" where
  "send_batch_to_l1 P batch =
     bind (map_err ''FI-state RPC failed; skipping propose for this slot'' (get_forced_inclusion_state P)) (\<lambda>(head, tail).
     bind (rt_build_propose_tx P batch (preconfer_address (base (rt P)))
             (forced_inclusion_count (fi_max_per_proposal P) head tail)) (\<lambda>tx.
     bind (get_account_nonce (l1_provider (base (rt P))) (preconfer_address (base (rt P))) block_tag.Pending) (\<lambda>pending_nonce.
     map_err ''Sending batch to L1 failed'' (monitor_tx P tx pending_nonce))))"

section \<open>No proposal ahead of L1\<close>

lemma attempt_Ok_iff:
  "attempt m f h s = (Ok b, t) \<longleftrightarrow>
     (\<exists>a s'. m s = (Ok a, s') \<and> f a s' = (Ok b, t)) \<or> (\<exists>e s'. m s = (Err e, s') \<and> h e s' = (Ok b, t))"
  by (auto simp: attempt_def split: prod.splits outcome.splits)

text \<open>
  C34: The Shasta node does not propose blocks from the future. If the last L2 block lies behind
  the next L1 block, that is the timestamp of the latest L1 block plus one slot, building the
  transaction ends with \<open>EstimationTooEarly\<close> before anything else is asked of the chain; a
  transaction that is built has its last block no later than the next L1 block.
\<close>
theorem shasta_proposal_not_ahead_of_l1:
  assumes "get_latest_block_timestamp T w = (Ok ts, w1)"
    and "unat ts + unat (sb_slot_duration_sec B) < 2 ^ 64"
  shows "(unat ts + unat (sb_slot_duration_sec B) < unat (last_l2_timestamp (sb_l2_blocks B)) \<longrightarrow>
      shasta_build T B w = (Ok (Inl EstimationTooEarly), w1)) \<and>
    (\<forall>tx w'. shasta_build T B w = (Ok (Inr tx), w') \<longrightarrow>
      unat (last_l2_timestamp (sb_l2_blocks B)) \<le> unat ts + unat (sb_slot_duration_sec B))"
proof -
  have "\<exists>lim :: u64. unat lim = unat ts + unat (sb_slot_duration_sec B)"
    using assms(2) by (simp add: ex_unat_iff)
  then obtain lim where lim: "add ts (sb_slot_duration_sec B) = Ok lim"
    "unat lim = unat ts + unat (sb_slot_duration_sec B)"
    by auto
  have step: "shasta_build_propose_tx T B w =
    (if lim < last_l2_timestamp (sb_l2_blocks B) then (Err (TxError EstimationTooEarly), w1)
     else bind (map_err ''build_propose_blob failed'' (shasta_build_propose_blob T B))
            (estimate_and_price (st_gas T)) w1)"
    using assms(1) lim(1) by (simp add: shasta_build_propose_tx_def bind_def lift_def raise_def del: add_Ok_iff)
  show ?thesis
  proof (cases "lim < last_l2_timestamp (sb_l2_blocks B)")
    case True
    then have "shasta_build T B w = (Ok (Inl EstimationTooEarly), w1)"
      using step by (simp add: shasta_build_def attempt_def return_def)
    then show ?thesis by simp
  next
    case False
    then show ?thesis using lim(2) by (simp add: word_less_nat_alt not_less)
  qed
qed

section \<open>The order of the multicall\<close>

lemma build_inbox_calls_deferred:
  assumes "build_inbox_calls P batch True required n w = (Ok (calls, sidecar), w')"
  obtains input zk where
    "calls = [TentativePropose input (rp_checkpoint batch) zk, FinalizePropose required]"
    "pi2_existing_signals input = filter (\<lambda>s. s \<notin> set required) (rp_signal_slots batch)"
    "pi2_required_return_signals input = required" "pi2_num_forced_inclusions input = n"
  using assms
  by (auto simp: build_inbox_calls_def bind_Ok_iff Let_def return_def lift_def intro!: that)

lemma build_inbox_calls_classic:
  assumes "build_inbox_calls P batch False required n w = (Ok (calls, sidecar), w')"
  obtains input zk where
    "calls = [Propose input (rp_checkpoint batch) zk]"
    "pi_signal_slots input = rp_signal_slots batch" "pi_num_forced_inclusions input = n"
  using assms
  by (auto simp: build_inbox_calls_def bind_Ok_iff Let_def return_def lift_def intro!: that)

text \<open>
  C14: The multicall puts every signal before the call that checks it. If the batch expects
  return signals, the transaction runs the user operations, which emit the existing signals, then
  the tentative proposal, which checks exactly those signal slots of the batch that are not
  return signals, then the bridge calls, whose callbacks emit the return signals, and last the
  final proposal, which checks exactly the return signals; both checks together cover every
  signal slot of the batch once the return signals are among them. Otherwise the single proposal
  checks all slots, after the user operations and before the bridge calls.
\<close>
theorem multicall_orders_signals:
  assumes "rt_build_propose_blob P batch from_addr n w = (Ok tx, w')"
    and "rp_user_ops batch \<noteq> [] \<or> rp_l1_calls batch \<noteq> []"
    and "set (required_return_signals batch) \<subseteq> set (rp_signal_slots batch)"
  shows "\<exists>first zk later.
    pt_input (tx_body tx) = abi_multicall P
      (map build_user_op_call (rp_user_ops batch) @ [inbox_call P first] @
       map (build_l1_call_call P) (rp_l1_calls batch) @ map (inbox_call P) later) \<and>
    (if required_return_signals batch = []
     then later = [] \<and> (\<exists>input. first = Propose input (rp_checkpoint batch) zk \<and>
       pi_signal_slots input = rp_signal_slots batch)
     else later = [FinalizePropose (required_return_signals batch)] \<and>
       (\<exists>input. first = TentativePropose input (rp_checkpoint batch) zk \<and>
         set (pi2_existing_signals input) \<inter> set (required_return_signals batch) = {} \<and>
         set (pi2_existing_signals input) \<union> set (required_return_signals batch) = set (rp_signal_slots batch)))"
proof -
  let ?req = "required_return_signals batch"
  from assms(1,2) obtain calls sidecar where
    calls: "build_inbox_calls P batch (?req \<noteq> []) ?req n w = (Ok (calls, sidecar), w')"
    and tx: "tx = propose_request_of \<lparr>pt_from = from_addr, pt_to = proposer_multicall P,
      pt_input = abi_multicall P (multicall_of P batch (?req \<noteq> []) calls), pt_sidecar = sidecar,
      pt_gas_limit = None\<rparr>"
    by (auto simp: rt_build_propose_blob_def Let_def bind_Ok_iff return_def split: if_splits)
  show ?thesis
  proof (cases "?req = []")
    case True
    with calls obtain input zk where "calls = [Propose input (rp_checkpoint batch) zk]"
      "pi_signal_slots input = rp_signal_slots batch" by (auto elim: build_inbox_calls_classic)
    with True tx show ?thesis
      by (intro exI [of _ "Propose input (rp_checkpoint batch) zk"] exI [of _ zk] exI [of _ "[]"])
        (simp add: propose_request_of_def multicall_of_def)
  next
    case False
    with calls obtain input zk where
      c: "calls = [TentativePropose input (rp_checkpoint batch) zk, FinalizePropose ?req]"
      and ex: "pi2_existing_signals input = filter (\<lambda>s. s \<notin> set ?req) (rp_signal_slots batch)"
      by (auto elim: build_inbox_calls_deferred)
    have "set (pi2_existing_signals input) \<inter> set ?req = {}"
      "set (pi2_existing_signals input) \<union> set ?req = set (rp_signal_slots batch)"
      using assms(3) unfolding ex by auto
    with False c tx show ?thesis
      by (intro exI [of _ "TentativePropose input (rp_checkpoint batch) zk"] exI [of _ zk]
          exI [of _ "[FinalizePropose ?req]"]) (simp add: propose_request_of_def multicall_of_def)
  qed
qed

section \<open>Forced inclusions\<close>

text \<open>
  A real-time proposal consumes as many forced inclusions as are pending in the queue of the
  inbox, at most the configured number, and none if the head has overtaken the tail.
\<close>
lemma forced_inclusion_count_exact:
  "unat (forced_inclusion_count fi_max head tail) = min (unat tail - unat head) (unat fi_max)"
proof -
  have "min (saturating_sub tail head) (ucast fi_max) \<le> (ucast fi_max :: u64)" by simp
  then have "unat (min (saturating_sub tail head) (ucast fi_max)) \<le> unat (ucast fi_max :: u64)"
    by (simp add: word_le_nat_alt)
  also have max: "unat (ucast fi_max :: u64) = unat fi_max"
    using unat_u16_lt [of fi_max] by (simp add: unsigned_ucast_eq take_bit_nat_eq_self)
  finally have lt: "unat (min (saturating_sub tail head) (ucast fi_max)) < 2 ^ LENGTH(16)"
    using unat_lt_len [of fi_max] by (rule le_less_trans)
  have "unat (min (saturating_sub tail head) (ucast fi_max)) = min (unat tail - unat head) (unat fi_max)"
    using max by (simp add: min_def word_le_nat_alt)
  with lt show ?thesis by (simp add: forced_inclusion_count_def Let_def try_from_def unat_of_nat_lt)
qed

section \<open>Concrete transactions\<close>

definition demo_gas :: "unit gas_services" where
  "demo_gas =
     \<lparr>estimate_gas = (\<lambda>tx. return (GasEstimate 100)), fee_history = return ([7], [3]),
      estimate_eip1559_fees = return (20, 2), extra_gas_percentage = 10\<rparr>"

definition demo_shasta_tx :: "(unit, nat) shasta_tx_services" where
  "demo_shasta_tx =
     \<lparr>st_services = demo_services, st_gas = demo_gas, st_build_sidecar = (\<lambda>bs. Ok [bs]),
      st_encode_propose_input = (\<lambda>i. return [1]), st_propose_call = (\<lambda>bs. bs)\<rparr>"

definition demo_early_builder :: "nat shasta_tx_builder" where
  "demo_early_builder =
     \<lparr>sb_l2_blocks = [l2_block_new_empty 1033 7 5 0], sb_from = 7, sb_to = 8, sb_num_forced_inclusion = 0,
      sb_slot_duration_sec = 12\<rparr>"

theorem shasta_proposal_not_ahead_of_l1_witness:
  "get_latest_block_timestamp demo_shasta_tx () = (Ok 1020, ()) \<and>
   shasta_build demo_shasta_tx demo_early_builder () = (Ok (Inl EstimationTooEarly), ())"
proof -
  have ts: "get_latest_block_timestamp demo_shasta_tx () = (Ok 1020, ())"
    by (simp add: get_latest_block_timestamp_def demo_shasta_tx_def demo_services_def demo_provider_def
        demo_block_def bind_def return_def lift_def)
  have "unat (1020 :: u64) + unat (sb_slot_duration_sec demo_early_builder) < 2 ^ 64"
    by (simp add: demo_early_builder_def)
  from shasta_proposal_not_ahead_of_l1 [OF ts this] ts show ?thesis
    by (simp add: demo_early_builder_def last_l2_timestamp_def l2_block_new_empty_def)
qed

definition demo_propose :: "(unit, nat) propose_services" where
  "demo_propose =
     \<lparr>rt = demo_rt_services, gas = demo_gas, realtime_inbox = 40, proposer_multicall = 41,
      abi_call = (\<lambda>c. case c of Propose _ _ _ \<Rightarrow> [1] | TentativePropose _ _ _ \<Rightarrow> [2] | FinalizePropose _ \<Rightarrow> [3]
         | ProcessMessage _ _ \<Rightarrow> [4]),
      abi_multicall = (\<lambda>cs. concat (map mc_data cs)), abi_sub_proofs = (\<lambda>ps. concat (map snd ps)),
      build_7594 = (\<lambda>bs. Ok [bs]), versioned_hashes = (\<lambda>bs. map (\<lambda>_. 0) bs), aes_gcm = demo_aes,
      os_rng = demo_fill, fi_state = return (3, 9), monitor_tx = (\<lambda>tx nonce. return ()),
      rt_proof_type = Sp1, mock_mode = False, node_cipher = cipher_disabled, fi_max_per_proposal = 4\<rparr>"

definition demo_bridge_batch :: "nat rt_proposal" where
  "demo_bridge_batch =
     (fresh_batch demo_anchor 7 0)\<lparr>rp_user_ops := [demo_user_op\<lparr>uo_id := 1\<rparr>],
        rp_signal_slots := [500, 700], rp_zk_proof := Some [9], rp_blob_payload := Some [5],
        rp_l1_calls := [\<lparr>message_from_l2 = demo_message, signal_slot_proof = [], required_return_signal = Some 700\<rparr>]\<rparr>"

lemma demo_required: "required_return_signals demo_bridge_batch = [700]"
  by (simp add: required_return_signals_def demo_bridge_batch_def List.map_filter_simps)

theorem multicall_orders_signals_witness:
  "\<exists>tx. rt_build_propose_blob demo_propose demo_bridge_batch 7 4 () = (Ok tx, ()) \<and>
     (\<exists>first later. pt_input (tx_body tx) = abi_multicall demo_propose
        (map build_user_op_call (rp_user_ops demo_bridge_batch) @ [inbox_call demo_propose first] @
         map (build_l1_call_call demo_propose) (rp_l1_calls demo_bridge_batch) @ map (inbox_call demo_propose) later) \<and>
       later = [FinalizePropose [700]])"
proof -
  obtain tx where tx: "rt_build_propose_blob demo_propose demo_bridge_batch 7 4 () = (Ok tx, ())"
    by (simp add: rt_build_propose_blob_def required_return_signals_def List.map_filter_simps Let_def build_inbox_calls_def blob_payload_of_def
        u48_from_def eval_arith bind_def return_def lift_def demo_propose_def demo_bridge_batch_def
        fresh_batch_def demo_anchor_def del: try_from_Ok_iff)
  have "rp_user_ops demo_bridge_batch \<noteq> [] \<or> rp_l1_calls demo_bridge_batch \<noteq> []"
    "set (required_return_signals demo_bridge_batch) \<subseteq> set (rp_signal_slots demo_bridge_batch)"
    by (simp_all add: demo_required) (simp_all add: demo_bridge_batch_def)
  from multicall_orders_signals [OF tx this] tx show ?thesis
    unfolding demo_required by auto
qed

end
