(* ===== verification/Async_Submitter.thy ===== *)
theory Async_Submitter
  imports Proposal_Tx
begin

text \<open>
  \<^verbatim>\<open>src/realtime/src/raiko/mod.rs\<close> and \<^verbatim>\<open>src/realtime/src/node/proposal_manager/async_submitter.rs\<close>: a
  background task asks the prover for the proof of a batch, hands the transaction to the monitor
  and keeps the status of the user operations up to date; the node polls for its result.

  The task is an action on the bridge and the world. Hashes, proofs and blobs in the request to
  the prover are the values whose hex strings the code formats. The tracker of a sent
  transaction is a task of its own; what its two channels deliver is an argument.
\<close>

section \<open>The prover\<close>

record raiko_request =
  rr_l2_block_numbers :: "u64 list"
  rr_proof_type :: proof_type
  rr_max_anchor_block_number :: u64
  rr_last_finalized_block_hash :: b256
  rr_basefee_sharing_pctg :: u8
  rr_signal_slots :: "b256 list"
  rr_blob_hashes :: "b256 list"
  rr_blobs :: "u8 list list"
  rr_checkpoint :: checkpoint

datatype raiko_data = RaikoProof "string option" | RaikoStatus string

record raiko_response =
  resp_status :: string
  resp_data :: "raiko_data option"

record ('w, 'tx) submit_services =
  propose :: "('w, 'tx) propose_services"
  raiko_post :: "raiko_request \<Rightarrow> ('w, raiko_response) action"
  raiko_sleep :: "'w \<Rightarrow> 'w"
  raiko_max_retries :: u32
  hex_decode :: "string \<Rightarrow> u8 list option"
  dump_request :: "raiko_request \<Rightarrow> ('w, unit) action"
  basefee_sharing :: u8
  proof_request_bypass :: bool

text \<open>\<open>trim_start_matches("0x")\<close> removes every leading occurrence.\<close>

fun trim_0x :: "string \<Rightarrow> string" where
  "trim_0x (a # b # s) = (if a = CHR ''0'' \<and> b = CHR ''x'' then trim_0x s else a # b # s)"
| "trim_0x s = s"

fun raiko_loop :: "('w, 'tx) submit_services \<Rightarrow> raiko_request \<Rightarrow> nat \<Rightarrow> ('w, u8 list) action" where
  "raiko_loop Q request 0 = raise (Anyhow ''Raiko: proof not ready'')"
| "raiko_loop Q request (Suc retries) =
     bind (raiko_post Q request) (\<lambda>body.
     if resp_status body = ''error'' then raise (Anyhow ''Raiko proof failed'')
     else
       (case resp_data body of
          Some (RaikoProof proof_obj) \<Rightarrow>
            bind (lift (ok_or proof_obj ''Raiko returned proof object with null proof field'')) (\<lambda>proof_hex.
            lift (ok_or (hex_decode Q (trim_0x proof_hex)) ''invalid hex''))
        | Some (RaikoStatus st) \<Rightarrow>
            if st = ''ZKAnyNotDrawn'' then raise (Anyhow ''ZK prover not drawn'')
            else bind (modify (raiko_sleep Q)) (\<lambda>_. raiko_loop Q request retries)
        | None \<Rightarrow> raise (Anyhow ''Raiko: unexpected empty response'')))"

definition get_proof :: "('w, 'tx) submit_services \<Rightarrow> raiko_request \<Rightarrow> ('w, u8 list) action" where
  "get_proof Q request = raiko_loop Q request (unat (raiko_max_retries Q))"

section \<open>The submission task\<close>

record submission_result =
  new_last_finalized_block_hash :: b256
  new_last_finalized_block_number :: u64

definition submission_result_of :: "'tx rt_proposal \<Rightarrow> submission_result" where
  "submission_result_of p =
     \<lparr>new_last_finalized_block_hash = cp_block_hash (rp_checkpoint p),
      new_last_finalized_block_number = ucast (cp_block_number (rp_checkpoint p))\<rparr>"

definition user_op_ids :: "'tx rt_proposal \<Rightarrow> u64 list" where
  "user_op_ids p = map uo_id (rp_user_ops p) @ rp_l2_user_op_ids p"

definition set_ids ::
  "('w, 'tx) rt_services \<Rightarrow> u64 list \<Rightarrow> user_op_status \<Rightarrow> ('w bstate, unit) action" where
  "set_ids R ids st = for_each (\<lambda>_ i. store_set R i st) () ids"

definition set_hashes ::
  "('w, 'tx) rt_services \<Rightarrow> b256 list \<Rightarrow> user_op_status \<Rightarrow> ('w bstate, unit) action" where
  "set_hashes R hashes st = for_each (\<lambda>_ h. set_by_hash R h st) () hashes"

definition set_all_statuses ::
  "('w, 'tx) rt_services \<Rightarrow> 'tx rt_proposal \<Rightarrow> user_op_status \<Rightarrow> ('w bstate, unit) action" where
  "set_all_statuses R p st =
     bind (set_ids R (user_op_ids p) st) (\<lambda>_. set_hashes R (rp_l2_mempool_tx_hashes p) st)"

definition when_tracked :: "bool \<Rightarrow> ('w bstate, unit) action \<Rightarrow> ('w bstate, unit) action" where
  "when_tracked tracked m = (if tracked then m else return ())"

text \<open>The numbers \<open>checkpoint - len + 1 ..= checkpoint\<close> of the blocks of a batch.\<close>

definition l2_block_numbers :: "'tx rt_proposal \<Rightarrow> u64 list outcome" where
  "l2_block_numbers p =
     (let last_number = (ucast (cp_block_number (rp_checkpoint p)) :: u64) in
      and_then (try_from (length (rp_l2_blocks p))) (\<lambda>n.
      and_then (sub last_number n) (\<lambda>before_first.
      and_then (add before_first 1) (\<lambda>first.
      Ok (range_incl first last_number)))))"

definition raiko_request_of ::
  "('w, 'tx) submit_services \<Rightarrow> 'tx rt_proposal \<Rightarrow> u64 list \<Rightarrow> u8 list list \<Rightarrow> raiko_request" where
  "raiko_request_of Q p numbers sidecar =
     \<lparr>rr_l2_block_numbers = numbers, rr_proof_type = rt_proof_type (propose Q),
      rr_max_anchor_block_number = rp_max_anchor_block_number p,
      rr_last_finalized_block_hash = rp_last_finalized_block_hash p,
      rr_basefee_sharing_pctg = basefee_sharing Q, rr_signal_slots = rp_signal_slots p,
      rr_blob_hashes = versioned_hashes (propose Q) sidecar, rr_blobs = sidecar,
      rr_checkpoint = rp_checkpoint p\<rparr>"

text \<open>Step 1 up to the request: the payload, which the proposal keeps, and the request.\<close>

definition prepare_request ::
  "('w, 'tx) submit_services \<Rightarrow> 'tx rt_proposal \<Rightarrow> ('w, 'tx rt_proposal \<times> raiko_request) action" where
  "prepare_request Q p =
     bind (lift (l2_block_numbers p)) (\<lambda>numbers.
     bind (lift (ok_or (rt_manifest_data (propose Q) p) ''encode_and_compress'')) (\<lambda>manifest_data.
     bind (build_blob_payload (aes_gcm (propose Q)) (os_rng (propose Q)) manifest_data (node_cipher (propose Q)))
       (\<lambda>blob_payload.
     let p = p\<lparr>rp_blob_payload := Some blob_payload\<rparr> in
     bind (lift (build_7594 (propose Q) blob_payload)) (\<lambda>sidecar.
     return (p, raiko_request_of Q p numbers sidecar)))))"

text \<open>Step 1: the proof, or the dump of the request in bypass mode, after which the task is done.\<close>

definition obtain_proof ::
  "('w, 'tx) submit_services \<Rightarrow> bool \<Rightarrow> 'tx rt_proposal \<Rightarrow> ('w bstate, 'tx rt_proposal option) action" where
  "obtain_proof Q tracked p =
     bind (b_world (prepare_request Q p)) (\<lambda>(p, request).
     if proof_request_bypass Q
     then bind (b_world (dump_request Q request)) (\<lambda>_. return None)
     else
       bind (when_tracked tracked (set_all_statuses (rt (propose Q)) p
               (OpProvingBlock (ucast (cp_block_number (rp_checkpoint p)))))) (\<lambda>_.
       attempt (b_world (get_proof Q request))
         (\<lambda>zk. return (Some (p\<lparr>rp_zk_proof := Some zk\<rparr>)))
         (\<lambda>e. bind (when_tracked tracked (set_all_statuses (rt (propose Q)) p
                     (OpRejected ''Proof generation failed''))) (\<lambda>_. raise e))))"

text \<open>Step 2 and the result.\<close>

definition send_proposal ::
  "('w, 'tx) submit_services \<Rightarrow> bool \<Rightarrow> 'tx rt_proposal \<Rightarrow> ('w bstate, submission_result) action" where
  "send_proposal Q tracked p =
     attempt (b_world (send_batch_to_l1 (propose Q) p))
       (\<lambda>_. return (submission_result_of p))
       (\<lambda>e. bind (when_tracked tracked (set_all_statuses (rt (propose Q)) p
                   (OpRejected ''L1 multicall failed''))) (\<lambda>_. raise e))"

definition submission_task ::
  "('w, 'tx) submit_services \<Rightarrow> bool \<Rightarrow> 'tx rt_proposal \<Rightarrow> ('w bstate, submission_result) action" where
  "submission_task Q tracked p =
     (if rp_zk_proof p = None
      then bind (obtain_proof Q tracked p) (\<lambda>r.
           case r of None \<Rightarrow> return (submission_result_of p) | Some p' \<Rightarrow> send_proposal Q tracked p')
      else send_proposal Q tracked p)"

text \<open>
  The spawned closure: the task, and the catch-all that marks the user operations rejected. The
  result is what the channel delivers; a panic closes the channel.
\<close>

definition submission_wrapper ::
  "('w, 'tx) submit_services \<Rightarrow> bool \<Rightarrow> 'tx rt_proposal \<Rightarrow> ('w bstate, error + submission_result) action" where
  "submission_wrapper Q tracked p =
     attempt (submission_task Q tracked p)
       (\<lambda>r. return (Inr r))
       (\<lambda>e. bind (when_tracked tracked (set_ids (rt (propose Q)) (user_op_ids p)
                   (OpRejected ''Submission failed''))) (\<lambda>_. return (Inl e)))"

text \<open>
  The tracker: \<open>hash_answer\<close> and \<open>result_answer\<close> are what the two channels of the monitor deliver,
  \<open>None\<close> if the sender is dropped.
\<close>

definition set_tracked ::
  "('w, 'tx) rt_services \<Rightarrow> u64 list \<Rightarrow> b256 list \<Rightarrow> user_op_status \<Rightarrow> ('w bstate, unit) action" where
  "set_tracked R ids hashes st = bind (set_ids R ids st) (\<lambda>_. set_hashes R hashes st)"

definition track_user_ops ::
  "('w, 'tx) rt_services \<Rightarrow> u64 list \<Rightarrow> b256 list \<Rightarrow> b256 option \<Rightarrow> bool option \<Rightarrow> ('w bstate, unit) action" where
  "track_user_ops R ids hashes hash_answer result_answer =
     (case hash_answer of
        Some h \<Rightarrow>
          bind (set_tracked R ids hashes (OpProcessing h)) (\<lambda>_.
          set_tracked R ids hashes
            (case result_answer of
               Some True \<Rightarrow> OpExecuted
             | Some False \<Rightarrow> OpRejected ''L1 multicall reverted''
             | None \<Rightarrow> OpRejected ''Transaction monitor dropped''))
      | None \<Rightarrow> set_tracked R ids hashes (OpRejected ''Transaction failed to send''))"

definition cleanup_statuses ::
  "('w, 'tx) rt_services \<Rightarrow> u64 list \<Rightarrow> b256 list \<Rightarrow> ('w bstate, unit) action" where
  "cleanup_statuses R ids hashes =
     bind (for_each (\<lambda>_ i. store_remove R i) () ids) (\<lambda>_. for_each (\<lambda>_ h. remove_by_hash R h) () hashes)"

section \<open>The submitter\<close>

datatype 'tx flight =
    Running "'tx rt_proposal"
  | Delivered "error + submission_result"
  | Closed

record 'tx submitter =
  in_flight :: "'tx flight option"

definition submitter_new :: "'tx submitter" where
  "submitter_new = \<lparr>in_flight = None\<rparr>"

definition is_busy :: "'tx submitter \<Rightarrow> bool" where
  "is_busy a = (in_flight a \<noteq> None)"

definition try_recv_result :: "'tx submitter \<Rightarrow> (error + submission_result) option \<times> 'tx submitter" where
  "try_recv_result a =
     (case in_flight a of
        None \<Rightarrow> (None, a)
      | Some (Running _) \<Rightarrow> (None, a)
      | Some (Delivered result) \<Rightarrow> (Some result, a\<lparr>in_flight := None\<rparr>)
      | Some Closed \<Rightarrow> (Some (Inl (Anyhow ''Submission task panicked or was dropped'')), a\<lparr>in_flight := None\<rparr>))"

definition submit :: "'tx rt_proposal \<Rightarrow> ('tx submitter, unit) action" where
  "submit p a =
     (if is_busy a then (Err (Anyhow ''Cannot submit while another submission is in flight''), a)
      else (Ok (), a\<lparr>in_flight := Some (Running p)\<rparr>))"

definition abort_submission :: "'tx submitter \<Rightarrow> 'tx submitter" where
  "abort_submission a = a\<lparr>in_flight := None\<rparr>"

text \<open>The background task runs: it takes the running submission to its end.\<close>

definition run_task :: "('w, 'tx) submit_services \<Rightarrow> ('tx submitter \<times> 'w bstate) \<Rightarrow> ('tx submitter \<times> 'w bstate)" where
  "run_task Q = (\<lambda>(a, s).
     case in_flight a of
       Some (Running p) \<Rightarrow>
         (case submission_wrapper Q True p s of
            (Ok r, s') \<Rightarrow> (a\<lparr>in_flight := Some (Delivered r)\<rparr>, s')
          | (Err e, s') \<Rightarrow> (a\<lparr>in_flight := Some Closed\<rparr>, s')
          | (Panic, s') \<Rightarrow> (a\<lparr>in_flight := Some Closed\<rparr>, s'))
     | _ \<Rightarrow> (a, s))"

section \<open>What the proof is about\<close>

text \<open>
  C29: The prover is asked for exactly the blocks of the batch: with a checkpoint at block \<open>c\<close> and
  \<open>n\<close> blocks in the batch the request lists the numbers from \<open>c - n + 1\<close> to \<open>c\<close> in order, one
  for each block; the task panics if the batch has more blocks than the chain has numbers.
\<close>
theorem proof_covers_the_blocks:
  assumes "length (rp_l2_blocks p) < 2 ^ 64"
  shows "l2_block_numbers p =
    (let c = unat (cp_block_number (rp_checkpoint p)); n = length (rp_l2_blocks p) in
     if n \<le> c then Ok (map of_nat [c - n + 1..<c + 1]) else Panic)"
proof -
  let ?c = "ucast (cp_block_number (rp_checkpoint p)) :: u64" and ?n = "length (rp_l2_blocks p)"
  have c: "unat ?c = unat (cp_block_number (rp_checkpoint p))" and "unat ?c < 2 ^ 48"
    using unat_lt_len [of "cp_block_number (rp_checkpoint p)"]
    by (simp_all add: unsigned_ucast_eq take_bit_nat_eq_self)
  have n: "try_from ?n = Ok (of_nat ?n :: u64)" "unat (of_nat ?n :: u64) = ?n"
    using assms by (simp_all add: try_from_def unat_of_nat_lt del: try_from_Ok_iff)
  show ?thesis
  proof (cases "?n \<le> unat ?c")
    case True
    have lt: "unat ?c - ?n + 1 < 2 ^ LENGTH(64)" using \<open>unat ?c < 2 ^ 48\<close> by simp
    then obtain e :: u64 where e: "unat e = unat ?c - ?n + 1"
      using ex_unat_iff [where 'a = 64, THEN iffD2] by blast
    from lt have "unat ?c - ?n < 2 ^ LENGTH(64)" by simp
    then obtain d :: u64 where d: "unat d = unat ?c - ?n"
      using ex_unat_iff [where 'a = 64, THEN iffD2] by blast
    have "sub ?c (of_nat ?n) = Ok d" "add d 1 = Ok e" using True d e n(2) by simp_all
    then have "l2_block_numbers p = Ok (range_incl e ?c)"
      using n(1) by (simp add: l2_block_numbers_def Let_def del: sub_Ok_iff add_Ok_iff try_from_Ok_iff)
    with True c show ?thesis by (simp add: range_incl_def e Let_def)
  next
    case False
    then have "sub ?c (of_nat ?n) = Panic" using n(2) by simp
    with False c n(1) show ?thesis
      by (simp add: l2_block_numbers_def Let_def del: try_from_Ok_iff sub_Panic_iff)
  qed
qed

lemma prepare_request_Ok:
  assumes "prepare_request Q p w = (Ok (p', request), w')"
  obtains payload numbers sidecar where "p' = p\<lparr>rp_blob_payload := Some payload\<rparr>"
    "build_7594 (propose Q) payload = Ok sidecar" "l2_block_numbers p = Ok numbers"
    "request = raiko_request_of Q p' numbers sidecar"
  using assms by (auto simp: prepare_request_def bind_Ok_iff lift_def Let_def return_def intro!: that)

lemma build_inbox_calls_sidecar:
  assumes "build_inbox_calls P batch d required n w = (Ok (calls, sidecar), w')"
    "rp_blob_payload batch = Some payload"
  shows "build_7594 P payload = Ok sidecar"
  using assms
  by (cases d) (auto simp: build_inbox_calls_def blob_payload_of_def bind_Ok_iff Let_def return_def lift_def)

text \<open>
  C5: What is proved is what is posted. The blobs in the L1 transaction of a batch are the blobs
  that were sent to the prover, and the prover saw their hashes - also in privacy mode, where
  encrypting again would give different bytes, and however much later and in whatever state of
  the world the transaction is built; the request carries the checkpoint, the signal slots, the
  anchor and the last finalized block of the same batch.
\<close>
theorem proved_blobs_are_posted:
  assumes "prepare_request Q p w = (Ok (p', request), w1)"
    and "rt_build_propose_blob (propose Q) (p'\<lparr>rp_zk_proof := Some zk\<rparr>) from_addr n w2 = (Ok tx, w3)"
  shows "pt_sidecar (tx_body tx) = rr_blobs request \<and>
    rr_blob_hashes request = versioned_hashes (propose Q) (pt_sidecar (tx_body tx)) \<and>
    rr_checkpoint request = rp_checkpoint p \<and> rr_signal_slots request = rp_signal_slots p \<and>
    rr_max_anchor_block_number request = rp_max_anchor_block_number p \<and>
    rr_last_finalized_block_hash request = rp_last_finalized_block_hash p"
proof -
  from assms(1) obtain payload numbers sidecar where
    p': "p' = p\<lparr>rp_blob_payload := Some payload\<rparr>" and side: "build_7594 (propose Q) payload = Ok sidecar"
    and rq: "request = raiko_request_of Q p' numbers sidecar" by (rule prepare_request_Ok)
  from assms(2) obtain calls sidecar' d required w' where
    calls: "build_inbox_calls (propose Q) (p'\<lparr>rp_zk_proof := Some zk\<rparr>) d required n w2 = (Ok (calls, sidecar'), w')"
    and tx: "pt_sidecar (tx_body tx) = sidecar'"
    by (auto simp: rt_build_propose_blob_def Let_def bind_Ok_iff return_def propose_request_of_def split: if_splits)
  from calls have "build_7594 (propose Q) payload = Ok sidecar'"
    by (rule build_inbox_calls_sidecar) (simp add: p')
  with side tx rq p' show ?thesis by (simp add: raiko_request_of_def)
qed

section \<open>The status of user operations\<close>

definition db_accepts :: "('w, 'tx) rt_services \<Rightarrow> bool" where
  "db_accepts R \<longleftrightarrow> (\<forall>w. fst (db_write R w) = Ok ())"

lemma db_update_Ok:
  assumes "db_accepts R"
  shows "\<exists>w'. db_update R f (b, w) = (Ok (), (f b, w'))"
  using assms
  by (cases "db_write R w")
    (force simp: db_accepts_def db_update_def attempt_def b_world_def zoom_def dest: spec [of _ w])

lemma set_ids_Ok:
  assumes "db_accepts R"
  shows "\<exists>w'. set_ids R ids st (b, w) =
    (Ok (), (b\<lparr>by_id := (\<lambda>i. if i \<in> set ids then Some st else by_id b i)\<rparr>, w'))"
  unfolding set_ids_def
proof (induction ids arbitrary: b w)
  case (Cons i ids)
  let ?b = "b\<lparr>by_id := (by_id b)(i \<mapsto> st)\<rparr>"
  obtain w1 where "store_set R i st (b, w) = (Ok (), (?b, w1))"
    using db_update_Ok [OF assms] unfolding store_set_def by blast
  moreover obtain w2 where "for_each (\<lambda>_ i. store_set R i st) () ids (?b, w1) =
      (Ok (), (?b\<lparr>by_id := (\<lambda>j. if j \<in> set ids then Some st else by_id ?b j)\<rparr>, w2))"
    using Cons.IH by blast
  ultimately show ?case by (auto simp: bind_def fun_eq_iff intro!: exI [of _ w2])
qed (auto simp: return_def)

lemma set_hashes_Ok:
  assumes "db_accepts R"
  shows "\<exists>w'. set_hashes R hs st (b, w) =
    (Ok (), (b\<lparr>by_hash := (\<lambda>i. if i \<in> set hs then Some st else by_hash b i)\<rparr>, w'))"
  unfolding set_hashes_def
proof (induction hs arbitrary: b w)
  case (Cons i hs)
  let ?b = "b\<lparr>by_hash := (by_hash b)(i \<mapsto> st)\<rparr>"
  obtain w1 where "set_by_hash R i st (b, w) = (Ok (), (?b, w1))"
    using db_update_Ok [OF assms] unfolding set_by_hash_def by blast
  moreover obtain w2 where "for_each (\<lambda>_ i. set_by_hash R i st) () hs (?b, w1) =
      (Ok (), (?b\<lparr>by_hash := (\<lambda>j. if j \<in> set hs then Some st else by_hash ?b j)\<rparr>, w2))"
    using Cons.IH by blast
  ultimately show ?case by (auto simp: bind_def fun_eq_iff intro!: exI [of _ w2])
qed (auto simp: return_def)

lemma set_tracked_Ok:
  assumes "db_accepts R"
  shows "\<exists>w'. set_tracked R ids hs st (b, w) =
    (Ok (), (b\<lparr>by_id := (\<lambda>i. if i \<in> set ids then Some st else by_id b i),
               by_hash := (\<lambda>h. if h \<in> set hs then Some st else by_hash b h)\<rparr>, w'))"
proof -
  obtain w1 where "set_ids R ids st (b, w) =
      (Ok (), (b\<lparr>by_id := (\<lambda>i. if i \<in> set ids then Some st else by_id b i)\<rparr>, w1))"
    using set_ids_Ok [OF assms] by blast
  moreover obtain w2 where "set_hashes R hs st (b\<lparr>by_id := (\<lambda>i. if i \<in> set ids then Some st else by_id b i)\<rparr>, w1) =
      (Ok (), (b\<lparr>by_id := (\<lambda>i. if i \<in> set ids then Some st else by_id b i),
        by_hash := (\<lambda>h. if h \<in> set hs then Some st else by_hash b h)\<rparr>, w2))"
    using set_hashes_Ok [OF assms, of hs st "b\<lparr>by_id := (\<lambda>i. if i \<in> set ids then Some st else by_id b i)\<rparr>" w1]
    by (auto cong: if_cong)
  ultimately show ?thesis by (simp add: set_tracked_def bind_def)
qed

lemma set_all_statuses_tracked: "set_all_statuses R p st = set_tracked R (user_op_ids p) (rp_l2_mempool_tx_hashes p) st"
  by (simp add: set_all_statuses_def set_tracked_def)



text \<open>
  The catch-all does not cover the transactions that are tracked by hash: if the submission
  fails before the proof is requested, because the manifest cannot be encoded, encrypted or packed,
  their status is left as it was, so a transaction that is \<open>Pending\<close> stays \<open>Pending\<close>.
\<close>
lemma early_failure_forgets_mempool_txs:
  fixes Q :: "('w, 'tx) submit_services"
  assumes "rp_zk_proof p = None" "prepare_request Q p w = (Err e, w1)"
    and "submission_wrapper Q True p (b, w) = (r, (b', w'))"
  shows "by_hash b' = by_hash b"
proof -
  have frame: "by_hash (fst (snd (set_ids R ids st (c, v)))) = by_hash c" for R :: "('w, 'tx) rt_services" and ids st c v
    unfolding set_ids_def
  proof (induction ids arbitrary: c v)
    case (Cons i ids)
    obtain x c1 v1 where st: "store_set R i st (c, v) = (x, (c1, v1))" by (metis surj_pair)
    then have "by_hash c1 = by_hash c"
      using b_world_keeps [of "db_write R" c v]
      by (auto simp: store_set_def db_update_def attempt_def b_set_def modify_def return_def
          split: prod.splits outcome.splits)
    with Cons.IH [of c1 v1] st show ?case by (cases x) (simp_all add: bind_def)
  qed (simp add: return_def)
  have "obtain_proof Q True p (b, w) = (Err e, (b, w1))"
    using assms(2) by (simp add: obtain_proof_def bind_def b_world_def zoom_def)
  then have "submission_task Q True p (b, w) = (Err e, (b, w1))"
    using assms(1) by (simp add: submission_task_def bind_def)
  then have "submission_wrapper Q True p (b, w) =
      bind (set_ids (rt (propose Q)) (user_op_ids p) (OpRejected ''Submission failed'')) (\<lambda>_. return (Inl e)) (b, w1)"
    by (simp add: submission_wrapper_def attempt_def when_tracked_def)
  with assms(3) frame [of "rt (propose Q)" "user_op_ids p" "OpRejected ''Submission failed''" b w1]
  show ?thesis by (auto simp: bind_def return_def split: prod.splits outcome.splits)
qed

section \<open>When the prover answers\<close>

definition still_proving :: "raiko_response \<Rightarrow> bool" where
  "still_proving body \<longleftrightarrow> resp_status body \<noteq> ''error'' \<and>
     (case resp_data body of Some (RaikoStatus st) \<Rightarrow> st \<noteq> ''ZKAnyNotDrawn'' | _ \<Rightarrow> False)"

definition proof_in :: "('w, 'tx) submit_services \<Rightarrow> raiko_response \<Rightarrow> u8 list option" where
  "proof_in Q body =
     (if resp_status body = ''error'' then None
      else case resp_data body of
             Some (RaikoProof (Some hex)) \<Rightarrow> hex_decode Q (trim_0x hex)
           | _ \<Rightarrow> None)"

text \<open>The world after \<open>k\<close> rounds in which the prover asked for patience.\<close>

primrec proving_rounds :: "('w, 'tx) submit_services \<Rightarrow> raiko_request \<Rightarrow> nat \<Rightarrow> 'w \<Rightarrow> 'w option" where
  "proving_rounds Q request 0 w = Some w"
| "proving_rounds Q request (Suc k) w =
     (case raiko_post Q request w of
        (Ok body, w') \<Rightarrow> if still_proving body then proving_rounds Q request k (raiko_sleep Q w') else None
      | _ \<Rightarrow> None)"

lemma raiko_loop_Ok_iff:
  "raiko_loop Q request n w = (Ok zk, w') \<longleftrightarrow>
     (\<exists>k v body. k < n \<and> proving_rounds Q request k w = Some v \<and>
        raiko_post Q request v = (Ok body, w') \<and> proof_in Q body = Some zk)"
proof (induction n arbitrary: w)
  case 0
  then show ?case by (simp add: raise_def)
next
  case (Suc n)
  have split: "(\<exists>k. k < Suc n \<and> P k) \<longleftrightarrow> P 0 \<or> (\<exists>k. k < n \<and> P (Suc k))" for P
    by (metis Suc_less_eq less_Suc_eq_0_disj zero_less_Suc)
  show ?case
  proof (cases "raiko_post Q request w")
    case (Pair x w1)
    show ?thesis
    proof (cases x)
      case (Ok body)
      show ?thesis
      proof (cases "still_proving body")
        case True
        then have "raiko_loop Q request (Suc n) w = raiko_loop Q request n (raiko_sleep Q w1)"
          "proof_in Q body = None"
          using Pair Ok
          by (auto simp: bind_def still_proving_def proof_in_def modify_def split: option.splits raiko_data.splits)
        then show ?thesis using Pair Ok True by (simp add: Suc.IH split del: if_split add: split)
      next
        case False
        then have "raiko_loop Q request (Suc n) w = (Ok zk, w') \<longleftrightarrow> proof_in Q body = Some zk \<and> w' = w1"
          using Pair Ok
          by (auto simp: bind_def still_proving_def proof_in_def lift_def raise_def
              split: option.splits raiko_data.splits if_splits)
        then show ?thesis using Pair Ok False by (auto simp: split)
      qed
    qed (use Pair in \<open>simp_all add: bind_def split\<close>)
  qed
qed

text \<open>
  C28: The prover client returns a proof exactly if the prover, asked again after every answer that
  asks for patience, delivers one within the configured number of requests; the proof is the
  decoded string of that answer, and no further request is made. Any other answer, a failed
  request or too many rounds end with an error.
\<close>
theorem proof_iff_delivered_in_time:
  "get_proof Q request w = (Ok zk, w') \<longleftrightarrow>
     (\<exists>k v body. k < unat (raiko_max_retries Q) \<and> proving_rounds Q request k w = Some v \<and>
        raiko_post Q request v = (Ok body, w') \<and> proof_in Q body = Some zk)"
  by (simp add: get_proof_def raiko_loop_Ok_iff)

section \<open>A concrete submission\<close>

definition demo_submit :: "(unit, nat) submit_services" where
  "demo_submit =
     \<lparr>propose = demo_propose,
      raiko_post = (\<lambda>rq. return \<lparr>resp_status = ''ok'', resp_data = Some (RaikoProof (Some ''0xab''))\<rparr>),
      raiko_sleep = (\<lambda>w. w), raiko_max_retries = 3, hex_decode = (\<lambda>s. Some (map of_char s)),
      dump_request = (\<lambda>rq. return ()), basefee_sharing = 30, proof_request_bypass = False\<rparr>"

text \<open>A batch of one block, number 11, whose frame is long enough; and services that pack it.\<close>

definition demo_proved_batch :: "nat rt_proposal" where
  "demo_proved_batch =
     demo_bridge_batch\<lparr>rp_l2_blocks := [demo_rt_block], rp_zk_proof := None, rp_blob_payload := None,
        rp_l2_mempool_tx_hashes := [900],
        rp_checkpoint := \<lparr>cp_block_number = 11, cp_block_hash = 111, cp_state_root = 1\<rparr>\<rparr>"

definition demo_long_frames :: "(unit, nat) submit_services \<Rightarrow> (unit, nat) submit_services" where
  "demo_long_frames Q = Q\<lparr>propose := (propose Q)\<lparr>rt := (rt (propose Q))\<lparr>base :=
     (base (rt (propose Q)))\<lparr>compress_manifest := (\<lambda>ms. Some (replicate 64 0 @ [3, 4]))\<rparr>\<rparr>\<rparr>\<rparr>"

lemma demo_l2_block_numbers: "l2_block_numbers demo_proved_batch = Ok [11]"
  by (simp add: l2_block_numbers_def demo_proved_batch_def Let_def eval_arith range_incl_def
      del: try_from_Ok_iff sub_Ok_iff add_Ok_iff and_then_Ok_iff)

theorem proof_covers_the_blocks_witness:
  "length (rp_l2_blocks demo_proved_batch) < 2 ^ 64 \<and> l2_block_numbers demo_proved_batch = Ok (map of_nat [11])"
proof -
  have len: "length (rp_l2_blocks demo_proved_batch) < 2 ^ 64" by (simp add: demo_proved_batch_def)
  show ?thesis using len proof_covers_the_blocks [OF len]
    by (simp add: demo_proved_batch_def Let_def upt_rec)
qed

lemmas demo_submit_defs = demo_submit_def demo_long_frames_def demo_propose_def demo_rt_services_def
  demo_services_def

definition demo_good :: "(unit, nat) submit_services" where
  "demo_good = demo_long_frames demo_submit"

definition demo_plain_payload :: "u8 list" where
  "demo_plain_payload = frame_version @ u256_be_bytes 3 @ [0, 3, 4]"

lemma demo_plain_payload_built:
  "build_blob_payload demo_aes demo_fill (replicate 64 0 @ [3, 4]) cipher_disabled () = (Ok demo_plain_payload, ())"
  by (simp add: build_blob_payload_def SHASTA_FRAME_LEN_def wrap_def cipher_disabled_def SCHEME_PLAIN_def
      demo_plain_payload_def bind_def return_def numeral_3_eq_3)

lemma demo_prepared:
  "prepare_request demo_good demo_proved_batch () =
     (Ok (demo_proved_batch\<lparr>rp_blob_payload := Some demo_plain_payload\<rparr>,
          raiko_request_of demo_good (demo_proved_batch\<lparr>rp_blob_payload := Some demo_plain_payload\<rparr>) [11]
            [demo_plain_payload]), ())"
  using demo_plain_payload_built
  by (simp add: prepare_request_def demo_l2_block_numbers demo_good_def rt_manifest_data_def bind_def return_def
      lift_def Let_def demo_submit_defs)

theorem proved_blobs_are_posted_witness:
  "\<exists>tx. rt_build_propose_blob demo_propose
      (demo_proved_batch\<lparr>rp_blob_payload := Some demo_plain_payload, rp_zk_proof := Some [9]\<rparr>) 7 4 () = (Ok tx, ()) \<and>
     pt_sidecar (tx_body tx) = [demo_plain_payload]"
proof -
  let ?p = "demo_proved_batch\<lparr>rp_blob_payload := Some demo_plain_payload\<rparr>"
  obtain tx where tx: "rt_build_propose_blob (propose demo_good) (?p\<lparr>rp_zk_proof := Some [9]\<rparr>) 7 4 () = (Ok tx, ())"
    and same: "rt_build_propose_blob demo_propose (?p\<lparr>rp_zk_proof := Some [9]\<rparr>) 7 4 () = (Ok tx, ())"
    by (simp add: rt_build_propose_blob_def required_return_signals_def List.map_filter_simps Let_def
        build_inbox_calls_def blob_payload_of_def u48_from_def eval_arith bind_def return_def lift_def
        demo_good_def demo_submit_defs multicall_of_def inbox_call_def build_l1_call_call_def
        demo_proved_batch_def demo_bridge_batch_def fresh_batch_def demo_anchor_def del: try_from_Ok_iff)
  from proved_blobs_are_posted [OF demo_prepared tx] same show ?thesis
    by (simp add: raiko_request_of_def)
qed

lemma demo_db_accepts: "db_accepts demo_rt_services"
  by (simp add: db_accepts_def demo_rt_services_def return_def)


lemma demo_short_frame:
  "\<exists>e. prepare_request demo_submit demo_proved_batch () = (Err e, ())"
  by (simp add: prepare_request_def demo_l2_block_numbers rt_manifest_data_def bind_def return_def raise_def
      lift_def Let_def demo_submit_defs build_blob_payload_def SHASTA_FRAME_LEN_def)
    (simp add: demo_proved_batch_def)

lemma demo_failed_submission:
  "\<exists>e b'. submission_wrapper demo_submit True demo_proved_batch (demo_bridge, ()) = (Ok (Inl e), (b', ()))"
proof -
  obtain e where e: "prepare_request demo_submit demo_proved_batch () = (Err e, ())"
    using demo_short_frame by blast
  have none: "rp_zk_proof demo_proved_batch = None" by (simp add: demo_proved_batch_def)
  have "rt (propose demo_submit) = demo_rt_services" by (simp add: demo_submit_def demo_propose_def)
  then obtain b' where "set_ids (rt (propose demo_submit)) (user_op_ids demo_proved_batch) (OpRejected ''Submission failed'')
      (demo_bridge, ()) = (Ok (), (b', ()))"
    using set_ids_Ok [OF demo_db_accepts] by fastforce
  with e none show ?thesis
    by (simp add: submission_wrapper_def submission_task_def obtain_proof_def attempt_def bind_def b_world_def
        zoom_def when_tracked_def return_def)
qed


end
