(* ===== verification/Realtime_Manager.thy ===== *)
theory Realtime_Manager
  imports Async_Submitter
begin

text \<open>
  \<^verbatim>\<open>src/realtime/src/node/proposal_manager/mod.rs\<close> and the calls it makes in \<^verbatim>\<open>src/realtime/src/l2/taiko.rs\<close>,
  \<^verbatim>\<open>src/realtime/src/l2/execution_layer.rs\<close> and \<^verbatim>\<open>src/realtime/src/l1/execution_layer.rs\<close>: the batch
  manager of the real-time node. It builds L2 blocks, with the bridge transactions of user
  operations and the return signals of outbound messages in them, starts and polls submissions,
  and takes the chain back to the last proposed block after a failure.

  The state is the record \<open>rt_manager\<close> with the bridge and the world. The number of the last
  finalized block, an atomic shared with the RPC server, is a field of the bridge.
\<close>

section \<open>State and services\<close>

record ('w, 'tx) node_services =
  submission :: "('w, 'tx) submit_services"
  inbox_last_finalized_block_hash :: "('w, b256) action"
  driver_reorg_stale_block :: "u64 \<Rightarrow> ('w, b256 \<times> u64) action"
  sign_anchor_with_slots :: "u64 \<Rightarrow> u64 \<Rightarrow> checkpoint \<Rightarrow> b256 list \<Rightarrow> 'tx outcome"
  abi_anchor_with_slots :: "u8 list \<Rightarrow> checkpoint option"

abbreviation rts :: "('w, 'tx) node_services \<Rightarrow> ('w, 'tx) rt_services" where
  "rts N \<equiv> rt (propose (submission N))"

abbreviation svc :: "('w, 'tx) node_services \<Rightarrow> ('w, 'tx) services" where
  "svc N \<equiv> base (rts N)"

record 'tx rt_manager =
  rm_builder :: "'tx rt_builder"
  rm_submitter :: "'tx submitter"
  rm_l1_height_lag :: u64
  rm_last_finalized_block_hash :: b256
  pending_return_signal :: "b256 option"
  pending_mempool_tx_hash :: "b256 option"

type_synonym ('w, 'tx) rmstate = "'tx rt_manager \<times> 'w bstate"

definition MIN_ANCHOR_OFFSET :: u64 where "MIN_ANCHOR_OFFSET = 2"

definition rt_manager_new :: "u64 \<Rightarrow> batch_builder_config \<Rightarrow> slot_clock \<Rightarrow> b256 \<Rightarrow> 'tx rt_manager" where
  "rt_manager_new lag c clk last_finalized =
     \<lparr>rm_builder = rt_builder_new c clk, rm_submitter = submitter_new, rm_l1_height_lag = lag,
      rm_last_finalized_block_hash = last_finalized, pending_return_signal = None,
      pending_mempool_tx_hash = None\<rparr>"

definition rm_b :: "('tx rt_builder, 'a) action \<Rightarrow> (('w, 'tx) rmstate, 'a) action" where
  "rm_b = zoom (\<lambda>(m, _). rm_builder m) (\<lambda>b (m, s). (m\<lparr>rm_builder := b\<rparr>, s))"

definition rm_bridge :: "('w bstate, 'a) action \<Rightarrow> (('w, 'tx) rmstate, 'a) action" where
  "rm_bridge = zoom snd (\<lambda>s (m, _). (m, s))"

definition rm_world :: "('w, 'a) action \<Rightarrow> (('w, 'tx) rmstate, 'a) action" where
  "rm_world a = rm_bridge (b_world a)"

definition rm_get :: "('tx rt_manager \<Rightarrow> 'a) \<Rightarrow> (('w, 'tx) rmstate, 'a) action" where
  "rm_get f = gets (\<lambda>(m, _). f m)"

definition rm_set :: "('tx rt_manager \<Rightarrow> 'tx rt_manager) \<Rightarrow> (('w, 'tx) rmstate, unit) action" where
  "rm_set f = modify (\<lambda>(m, s). (f m, s))"

section \<open>The two chains\<close>

definition rt_get_l2_slot_info_by_parent_block ::
  "('w, 'tx) services \<Rightarrow> block_tag \<Rightarrow> ('w, l2_slot_info) action" where
  "rt_get_l2_slot_info_by_parent_block S parent =
     bind (system_now S) (\<lambda>now.
     bind (lift (get_l2_slot_begin_timestamp (slot_clock_of S) now)) (\<lambda>l2_slot_timestamp.
     bind (get_block_header (l2_provider S) parent) (\<lambda>parent_block.
     bind (if rb_number parent_block \<noteq> 0
           then lift (ok_or (checked_sub (rb_gas_limit parent_block) (anchor_gas_limit S))
                        ''parent_gas_limit is less than ANCHOR_V3_V4_GAS_LIMIT'')
           else return (rb_gas_limit parent_block)) (\<lambda>gas.
     bind (get_base_fee S parent_block) (\<lambda>fee.
     return \<lparr>base_fee = fee, slot_timestamp = l2_slot_timestamp, parent_id = rb_number parent_block,
             parent_hash = rb_hash parent_block, parent_gas_limit_without_anchor = gas,
             parent_timestamp = rb_timestamp parent_block\<rparr>)))))"

definition rt_get_l2_slot_info :: "('w, 'tx) services \<Rightarrow> ('w, l2_slot_info) action" where
  "rt_get_l2_slot_info S = rt_get_l2_slot_info_by_parent_block S Latest"

definition rt_construct_anchor_tx ::
  "('w, 'tx) node_services \<Rightarrow> l2_slot_info \<Rightarrow> checkpoint \<Rightarrow> b256 list \<Rightarrow> ('w, 'tx) action" where
  "rt_construct_anchor_tx N info cp slots =
     bind (map_err ''Failed to get transaction count''
             (get_transaction_count_at (l2_provider (svc N)) (golden_touch_address (svc N)) (parent_hash info))) (\<lambda>nonce.
     lift (sign_anchor_with_slots N nonce (base_fee info) cp slots))"

text \<open>The extra data is the sharing percentage followed by six zero bytes.\<close>

definition rt_advance_head ::
  "('w, 'tx) node_services \<Rightarrow> 'tx rt_payload \<Rightarrow> l2_slot_context \<Rightarrow> b256 list \<Rightarrow> operation_type \<Rightarrow>
   ('w, build_preconf_block_response) action" where
  "rt_advance_head N payload ctx anchor_signal_slots op =
     bind (lift (try_from (unat (rpl_anchor_block_id payload)))) (\<lambda>number.
     bind (map_err ''advance_head_to_new_l2_block: Failed to construct anchor tx''
             (rt_construct_anchor_tx N (slot_info ctx)
                \<lparr>cp_block_number = number, cp_block_hash = rpl_anchor_block_hash payload,
                 cp_state_root = rpl_anchor_state_root payload\<rparr> anchor_signal_slots)) (\<lambda>anchor_tx.
     bind (lift (compress_tx_list (svc N) (anchor_tx # rpl_tx_list payload))) (\<lambda>tx_list_bytes.
     bind (lift (add (parent_id (slot_info ctx)) 1)) (\<lambda>block_number.
     bind (lift (add (rpl_gas_limit_without_anchor payload) (anchor_gas_limit (svc N)))) (\<lambda>gas_limit.
     preconf_blocks (svc N)
       \<lparr>rq_executable_data =
          \<lparr>ed_base_fee_per_gas = base_fee (slot_info ctx), ed_block_number = block_number,
           ed_extra_data = [basefee_sharing (submission N), 0, 0, 0, 0, 0, 0],
           ed_fee_recipient = rpl_coinbase payload, ed_gas_limit = gas_limit,
           ed_parent_hash = parent_hash (slot_info ctx), ed_timestamp = rpl_timestamp_sec payload,
           ed_transactions = tx_list_bytes\<rparr>,
        rq_end_of_sequencing = end_of_sequencing ctx, rq_is_forced_inclusion = False\<rparr> op)))))"

definition rt_get_last_synced_anchor_block_id :: "('w, 'tx) node_services \<Rightarrow> ('w, u64) action" where
  "rt_get_last_synced_anchor_block_id N =
     bind (map_err ''get_last_synced_anchor_block_id_from_geth'' (get_anchor_transaction_input (svc N) Latest)) (\<lambda>input.
     lift (case abi_anchor_with_slots N input of
             Some cp \<Rightarrow> Ok (ucast (cp_block_number cp))
           | None \<Rightarrow> Err (Anyhow ''Failed to decode anchor id from tx data'')))"

text \<open>The loop \<open>for n in (0..=head).rev()\<close>.\<close>

fun scan_back :: "('w, 'tx) services \<Rightarrow> b256 \<Rightarrow> u64 list \<Rightarrow> ('w, u64 option) action" where
  "scan_back S block_hash [] = return None"
| "scan_back S block_hash (n # ns) =
     bind (get_l2_block_hash S n) (\<lambda>hash.
     if hash = block_hash then return (Some n) else scan_back S block_hash ns)"

definition find_l2_block_number_by_hash :: "('w, 'tx) services \<Rightarrow> b256 \<Rightarrow> ('w, u64) action" where
  "find_l2_block_number_by_hash S block_hash =
     bind (get_latest_l2_block_id S) (\<lambda>head.
     bind (scan_back S block_hash (rev (range_incl 0 head))) (\<lambda>r.
     case r of
       Some n \<Rightarrow> return n
     | None \<Rightarrow> bind (lift (add head 1)) (\<lambda>_. raise (Anyhow ''L2 block with hash not found on Geth''))))"

definition get_last_finalized_block_hash :: "('w, 'tx) node_services \<Rightarrow> ('w, b256) action" where
  "get_last_finalized_block_hash N =
     map_err ''Failed to call getLastFinalizedBlockHash'' (inbox_last_finalized_block_hash N)"

section \<open>Submissions\<close>

definition poll_submission_result :: "(('w, 'tx) rmstate, (error + unit) option) action" where
  "poll_submission_result = (\<lambda>(m, b, w).
     case try_recv_result (rm_submitter m) of
       (Some (Inr result), a) \<Rightarrow>
         (Ok (Some (Inr ())),
          (m\<lparr>rm_submitter := a, rm_last_finalized_block_hash := new_last_finalized_block_hash result\<rparr>,
           b\<lparr>last_finalized_block_number := new_last_finalized_block_number result\<rparr>, w))
     | (Some (Inl e), a) \<Rightarrow> (Ok (Some (Inl e)), (m\<lparr>rm_submitter := a\<rparr>, b, w))
     | (None, a) \<Rightarrow> (Ok None, (m\<lparr>rm_submitter := a\<rparr>, b, w)))"

definition rm_pop :: "(('w, 'tx) rmstate, 'tx rt_proposal option) action" where
  "rm_pop = (\<lambda>(m, s).
     case pop_oldest_batch (rm_last_finalized_block_hash m) (rm_builder m) of
       (r, b) \<Rightarrow> (Ok r, (m\<lparr>rm_builder := b\<rparr>, s)))"

definition rm_submit :: "'tx rt_proposal \<Rightarrow> (('w, 'tx) rmstate, unit) action" where
  "rm_submit batch = zoom (\<lambda>(m, _). rm_submitter m) (\<lambda>a (m, s). (m\<lparr>rm_submitter := a\<rparr>, s)) (submit batch)"

definition try_start_submission ::
  "('w, 'tx) node_services \<Rightarrow> bool \<Rightarrow> (('w, 'tx) rmstate, unit) action" where
  "try_start_submission N submit_only_full_batches =
     bind (rm_get (\<lambda>m. is_busy (rm_submitter m))) (\<lambda>busy.
     if busy then return ()
     else
       bind (rm_b (finalize_if_needed submit_only_full_batches)) (\<lambda>_.
       bind rm_pop (\<lambda>r.
       case r of
         None \<Rightarrow> return ()
       | Some batch \<Rightarrow>
           bind (rm_world (transaction_in_progress (svc N))) (\<lambda>in_progress.
           if in_progress then rm_b (modify (push_front_batch batch))
           else rm_submit batch))))"

definition is_submission_in_progress :: "'tx rt_manager \<Rightarrow> bool" where
  "is_submission_in_progress m = is_busy (rm_submitter m)"

text \<open>\<open>while let Some(batch) = pop_oldest_batch(..)\<close>: pop until nothing is left.\<close>

function pop_all :: "b256 \<Rightarrow> 'tx rt_builder \<Rightarrow> 'tx rt_builder" where
  "pop_all last_finalized b =
     (case pop_oldest_batch last_finalized b of
        (Some batch, b') \<Rightarrow> pop_all last_finalized b'
      | (None, b') \<Rightarrow> b')"
  by pat_completeness auto
termination
  by (relation "measure (\<lambda>(_, b). length (proposals_to_send b))") (auto dest!: sym [of "(Some _, _)"] elim!: pop_oldest_batch_Some)

declare pop_all.simps [simp del]

definition drain_finalized_batches :: "(('w, 'tx) rmstate, unit) action" where
  "drain_finalized_batches =
     bind (rm_b (finalize_if_needed False)) (\<lambda>_.
     bind (rm_get rm_last_finalized_block_hash) (\<lambda>last_finalized.
     rm_b (modify (pop_all last_finalized))))"

section \<open>Building blocks\<close>

definition rm_should_new_block_be_created ::
  "'tx pre_built_tx_list option \<Rightarrow> l2_slot_context \<Rightarrow> (('w, 'tx) rmstate, bool) action" where
  "rm_should_new_block_be_created pending ctx =
     bind (rm_get (\<lambda>m. rt_should_new_block_be_created (rm_builder m) pending
             (slot_timestamp (slot_info ctx)) (end_of_sequencing ctx))) lift"

definition rm_create_new_batch :: "('w, 'tx) node_services \<Rightarrow> (('w, 'tx) rmstate, u64) action" where
  "rm_create_new_batch N =
     bind (or_value (rm_world (rt_get_last_synced_anchor_block_id N)) 0) (\<lambda>last_anchor_id.
     bind (rm_get rm_l1_height_lag) (\<lambda>lag.
     bind (rm_world (anchor_from_chain_state (svc N) lag last_anchor_id MIN_ANCHOR_OFFSET)) (\<lambda>anchor_block_info.
     bind (rm_b (modify (create_new_batch anchor_block_info 0))) (\<lambda>_.
     return (ab_id anchor_block_info)))))"

text \<open>
  \<open>add_pending_user_ops_to_draft_block\<close>: the draft with the bridge call of the next user operation,
  and the operation with its signal slot.
\<close>

definition add_pending_user_ops_to_draft_block ::
  "('w, 'tx) node_services \<Rightarrow> 'tx l2_block_draft \<Rightarrow> u64 \<Rightarrow>
   (('w, 'tx) rmstate, 'tx l2_block_draft \<times> (user_op \<times> b256) option) action" where
  "add_pending_user_ops_to_draft_block N d fee =
     bind (rm_bridge (next_user_op (rts N))) (\<lambda>routed.
     case routed of
       None \<Rightarrow> return (d, None)
     | Some (op, message_from_l1, signal_slot_on_l2) \<Rightarrow>
         bind (rm_world (construct_l2_call_tx (rts N) message_from_l1 fee)) (\<lambda>tx.
         return (d\<lparr>d_prebuilt_tx_list := push_tx (rlp_encode (svc N)) (d_prebuilt_tx_list d) tx\<rparr>,
                 Some (op, signal_slot_on_l2))))"

fun scan_mempool :: "('w, 'tx) node_services \<Rightarrow> 'tx list \<Rightarrow> (('w, 'tx) rmstate, unit) action" where
  "scan_mempool N [] = return ()"
| "scan_mempool N (tx # txs) =
     (case tx_to (rts N) tx of
        None \<Rightarrow> scan_mempool N txs
      | Some to_addr \<Rightarrow>
          bind (try_run (rm_world (trace_tx_for_outbound_message (rts N) (tx_signer (rts N) tx) to_addr
                  (tx_input (svc N) tx) (Some (tx_value (rts N) tx))))) (\<lambda>traced.
          case traced of
            Inl _ \<Rightarrow> scan_mempool N txs
          | Inr None \<Rightarrow> scan_mempool N txs
          | Inr (Some outbound) \<Rightarrow>
              bind (try_run (rm_world (simulate_l1_callback_return_signal (rts N) outbound))) (\<lambda>simulated.
              case simulated of
                Inr (Some (_, return_slot)) \<Rightarrow>
                  rm_set (\<lambda>m. m\<lparr>pending_return_signal := Some return_slot,
                                pending_mempool_tx_hash := Some (tx_hash (rts N) tx)\<rparr>)
              | _ \<Rightarrow> scan_mempool N txs)))"

text \<open>What is committed to the batch once the block is built.\<close>

definition commit_block ::
  "('w, 'tx) node_services \<Rightarrow> (user_op \<times> b256) option \<Rightarrow> b256 option \<Rightarrow> build_preconf_block_response \<Rightarrow>
   (('w, 'tx) rmstate, build_preconf_block_response) action" where
  "commit_block N pending_user_op hint preconfed_block =
     bind (case pending_user_op of
             Some (op, sl) \<Rightarrow> bind (rm_b (add_user_op op)) (\<lambda>_. rm_b (add_signal_slot sl))
           | None \<Rightarrow> return ()) (\<lambda>_.
     bind (rm_get pending_return_signal) (\<lambda>return_signal.
     bind (rm_set (\<lambda>m. m\<lparr>pending_return_signal := None\<rparr>)) (\<lambda>_.
     bind (case return_signal of Some sl \<Rightarrow> rm_b (add_signal_slot sl) | None \<Rightarrow> return ()) (\<lambda>_.
     bind (rm_get pending_mempool_tx_hash) (\<lambda>mempool_tx.
     bind (rm_set (\<lambda>m. m\<lparr>pending_mempool_tx_hash := None\<rparr>)) (\<lambda>_.
     bind (case mempool_tx of
             Some h \<Rightarrow> bind (rm_b (add_l2_mempool_tx_hash h)) (\<lambda>_. rm_bridge (set_by_hash (rts N) h OpPending))
           | None \<Rightarrow> return ()) (\<lambda>_.
     bind (lift (u48_from (resp_number preconfed_block))) (\<lambda>number.
     bind (rm_b (set_proposal_checkpoint \<lparr>cp_block_number = number, cp_block_hash = resp_hash preconfed_block,
             cp_state_root = resp_state_root preconfed_block\<rparr>)) (\<lambda>_.
     bind (rm_world (find_l1_call (rts N) (resp_number preconfed_block) (resp_state_root preconfed_block) hint)) (\<lambda>call.
     bind (case call of Some c \<Rightarrow> rm_b (add_l1_call c) | None \<Rightarrow> return ()) (\<lambda>_.
     return preconfed_block)))))))))))"

definition rm_add_draft_block_to_proposal ::
  "('w, 'tx) node_services \<Rightarrow> 'tx l2_block_draft \<Rightarrow> l2_slot_context \<Rightarrow> operation_type \<Rightarrow>
   (('w, 'tx) rmstate, build_preconf_block_response) action" where
  "rm_add_draft_block_to_proposal N d ctx op =
     bind (add_pending_user_ops_to_draft_block N d (base_fee (slot_info ctx))) (\<lambda>(d, pending_user_op).
     bind (scan_mempool N (tx_list (d_prebuilt_tx_list d))) (\<lambda>_.
     bind (rm_get pending_return_signal) (\<lambda>hint.
     let anchor_signal_slots = (case pending_user_op of Some (_, sl) \<Rightarrow> [sl] | None \<Rightarrow> []) @
           (case hint of Some sl \<Rightarrow> [sl] | None \<Rightarrow> []) in
     bind (rm_b (rt_add_l2_draft_block d)) (\<lambda>payload.
     attempt (rm_world (rt_advance_head N payload ctx anchor_signal_slots op))
       (commit_block N pending_user_op hint)
       (\<lambda>err. bind (rm_b rt_remove_last_l2_block) (\<lambda>_.
               raise (Anyhow ''Failed to advance head to new L2 block'')))))))"

definition rm_add_new_l2_block ::
  "('w, 'tx) node_services \<Rightarrow> 'tx pre_built_tx_list \<Rightarrow> l2_slot_context \<Rightarrow> operation_type \<Rightarrow>
   (('w, 'tx) rmstate, build_preconf_block_response) action" where
  "rm_add_new_l2_block N txs ctx op =
     (let ts = slot_timestamp (slot_info ctx) in
      bind (rm_get (\<lambda>m. rt_last_timestamp (rm_builder m))) (\<lambda>last_block_timestamp.
      if last_block_timestamp = Some ts
      then raise (Anyhow ''Cannot add another block with the same timestamp as the last block'')
      else
        bind (lift (add (parent_id (slot_info ctx)) 1)) (\<lambda>_.
        let d = \<lparr>d_prebuilt_tx_list = txs, d_timestamp_sec = ts,
                 d_gas_limit_without_anchor = parent_gas_limit_without_anchor (slot_info ctx)\<rparr> in
        bind (rm_b (rt_can_consume_l2_block (compress_manifest (svc N)) d)) (\<lambda>fits.
        bind (if fits then return () else bind (rm_create_new_batch N) (\<lambda>_. return ())) (\<lambda>_.
        rm_add_draft_block_to_proposal N d ctx op)))))"

definition rm_preconfirm_block ::
  "('w, 'tx) node_services \<Rightarrow> 'tx pre_built_tx_list option \<Rightarrow> l2_slot_context \<Rightarrow>
   (('w, 'tx) rmstate, build_preconf_block_response) action" where
  "rm_preconfirm_block N pending ctx =
     bind (rm_add_new_l2_block N (case pending of Some l \<Rightarrow> l | None \<Rightarrow> pre_built_empty) ctx Preconfirm) (\<lambda>result.
     bind (rm_get (\<lambda>m. rt_current (rm_builder m) \<noteq> None)) (\<lambda>open_batch.
     bind (if open_batch then rm_world (system_now (svc N)) else return 0) (\<lambda>now.
     bind (rm_get (\<lambda>m. rt_is_greater_than_max_anchor_height_offset now (rm_builder m))) (\<lambda>r.
     bind (lift r) (\<lambda>exceeded.
     bind (if exceeded then rm_b (modify finalize_current_batch) else return ()) (\<lambda>_.
     return result))))))"

section \<open>Reset and recovery\<close>

definition rm_reset_builder :: "(('w, 'tx) rmstate, unit) action" where
  "rm_reset_builder =
     rm_set (\<lambda>m. m\<lparr>rm_submitter := abort_submission (rm_submitter m),
       rm_builder := rt_builder_new (rt_config (rm_builder m)) (rt_clock (rm_builder m))\<rparr>)"

definition has_batches :: "'tx rt_manager \<Rightarrow> bool" where
  "has_batches m = (\<not> rt_is_empty (rm_builder m))"

definition reorg_unproposed_blocks :: "('w, 'tx) node_services \<Rightarrow> (('w, 'tx) rmstate, unit) action" where
  "reorg_unproposed_blocks N =
     bind (rm_world (get_last_finalized_block_hash N)) (\<lambda>last_finalized_hash.
     if last_finalized_hash = 0 then return ()
     else
       bind (or_value (rm_world (find_l2_block_number_by_hash (svc N) last_finalized_hash)) 0) (\<lambda>last_proposed_block_number.
       bind (rm_world (get_latest_l2_block_id (svc N))) (\<lambda>l2_head.
       bind (rm_bridge (b_set (\<lambda>b. b\<lparr>last_finalized_block_number := last_proposed_block_number\<rparr>))) (\<lambda>_.
       if l2_head \<le> last_proposed_block_number then return ()
       else
         bind (lift (sub l2_head last_proposed_block_number)) (\<lambda>gap.
         bind (lift (add last_proposed_block_number 1)) (\<lambda>_.
         bind (rm_world (driver_reorg_stale_block N last_proposed_block_number)) (\<lambda>_.
         rm_set (\<lambda>m. m\<lparr>rm_last_finalized_block_hash := last_finalized_hash\<rparr>))))))))"

section \<open>The invariant of the batches\<close>

text \<open>
  A batch in order: it is typed, it is within the block limit (a first block always fits), and the
  return signals that its L1 calls require are among its signal slots.
\<close>

definition signals_covered :: "'tx rt_proposal \<Rightarrow> bool" where
  "signals_covered p \<longleftrightarrow>
     (\<forall>c \<in> set (rp_l1_calls p). set_option (required_return_signal c) \<subseteq> set (rp_signal_slots p))"

definition block_bound :: "batch_builder_config \<Rightarrow> nat" where
  "block_bound c = max 1 (unat (max_blocks_per_batch c))"

definition batch_ok :: "batch_builder_config \<Rightarrow> 'tx rt_proposal \<Rightarrow> bool" where
  "batch_ok c p \<longleftrightarrow> batch_typed c p \<and> signals_covered p \<and> length (rp_l2_blocks p) \<le> block_bound c"

definition rb_ok :: "batch_builder_config \<Rightarrow> 'tx rt_builder \<Rightarrow> bool" where
  "rb_ok c b \<longleftrightarrow> rt_config b = c \<and>
     (\<forall>p \<in> set (proposals_to_send b). batch_ok c p \<and> rp_l2_blocks p \<noteq> []) \<and>
     (\<forall>p. rt_current b = Some p \<longrightarrow> batch_ok c p)"

text \<open>
  The submission in flight: its batch is in order, not empty, and extends the block that the
  manager holds for the last finalized one.
\<close>

definition flight_ok :: "batch_builder_config \<Rightarrow> bool \<Rightarrow> b256 \<Rightarrow> 'tx submitter \<Rightarrow> bool" where
  "flight_ok c linked h a \<longleftrightarrow> (\<forall>p. in_flight a = Some (Running p) \<longrightarrow>
     batch_ok c p \<and> rp_l2_blocks p \<noteq> [] \<and> (linked \<longrightarrow> rp_last_finalized_block_hash p = h))"

definition rm_ok :: "bool \<Rightarrow> batch_builder_config \<Rightarrow> 'tx rt_manager \<Rightarrow> bool" where
  "rm_ok linked c m \<longleftrightarrow> rb_ok c (rm_builder m) \<and>
     flight_ok c linked (rm_last_finalized_block_hash m) (rm_submitter m)"

lemma rm_ok_new: "rm_ok linked c (rt_manager_new lag c clk h)"
  by (simp add: rm_ok_def rt_manager_new_def rb_ok_def rt_builder_new_def flight_ok_def submitter_new_def)

abbreviation on_rm :: "('tx rt_manager \<Rightarrow> bool) \<Rightarrow> ('w, 'tx) rmstate \<Rightarrow> bool" where
  "on_rm Q \<equiv> (\<lambda>(m, _). Q m)"

text \<open>Room for one more block.\<close>

definition has_room :: "batch_builder_config \<Rightarrow> 'tx rt_builder \<Rightarrow> bool" where
  "has_room c b \<longleftrightarrow> (\<forall>p. rt_current b = Some p \<longrightarrow> length (rp_l2_blocks p) < block_bound c)"

lemma keeps_rm_bridge [keeps_rules]: "keeps (on_rm Q) (rm_bridge m)"
  by (auto simp: rm_bridge_def triple_def zoom_def split: prod.splits)

lemma keeps_rm_world [keeps_rules]: "keeps (on_rm Q) (rm_world m)"
  unfolding rm_world_def by (rule keeps_rm_bridge)

lemma keeps_rm_get [keeps_rules]: "keeps (on_rm Q) (rm_get f)"
  unfolding rm_get_def by (rule keeps_gets)

lemma keeps_rm_set: "(\<And>m. Q m \<Longrightarrow> Q (f m)) \<Longrightarrow> keeps (on_rm Q) (rm_set f)"
  unfolding rm_set_def by (rule keeps_modify) auto

lemma triple_rm_b:
  assumes "triple (\<lambda>b. rb_ok c b \<and> P b) m (\<lambda>r b. rb_ok c b \<and> R r b)"
  shows "triple (on_rm (\<lambda>m. rm_ok linked c m \<and> P (rm_builder m))) (rm_b m)
    (\<lambda>r. on_rm (\<lambda>m. rm_ok linked c m \<and> R r (rm_builder m)))"
  unfolding rm_b_def
  by (rule tripleI) (use assms in \<open>auto simp: zoom_def rm_ok_def split: prod.splits dest: tripleD\<close>)

lemma keeps_rm_b:
  assumes "keeps (rb_ok c) m"
  shows "keeps (on_rm (rm_ok linked c)) (rm_b m)"
  using triple_rm_b [of c "\<lambda>_. True" m "\<lambda>_ _. True" linked] assms by simp

section \<open>The operations of the builder keep the batches in order\<close>

lemma rt_on_current_Ok:
  assumes "rt_on_current f msg b = (r, b')"
  obtains "b' = b" | a p p' where "r = Ok a" "rt_current b = Some p" "f p = Ok (a, p')"
    "b' = b\<lparr>rt_current := Some p'\<rparr>"
  using assms by (auto simp: rt_on_current_def split: option.splits outcome.splits)

lemma triple_on_current:
  assumes "\<And>p a p'. P p \<Longrightarrow> batch_ok c p \<Longrightarrow> f p = Ok (a, p') \<Longrightarrow> batch_ok c p' \<and> R p'"
  shows "triple (\<lambda>b. rb_ok c b \<and> (\<forall>p. rt_current b = Some p \<longrightarrow> P p)) (rt_on_current f msg)
    (\<lambda>r b. rb_ok c b \<and> (is_ok r \<longrightarrow> (\<forall>p. rt_current b = Some p \<longrightarrow> R p)))"
proof (rule tripleI)
  fix b r b'
  assume pre: "rb_ok c b \<and> (\<forall>p. rt_current b = Some p \<longrightarrow> P p)" and run: "rt_on_current f msg b = (r, b')"
  then show "rb_ok c b' \<and> (is_ok r \<longrightarrow> (\<forall>p. rt_current b' = Some p \<longrightarrow> R p))"
  proof (cases "rt_current b")
    case None
    with run pre show ?thesis by (auto simp: rt_on_current_def)
  next
    case (Some p)
    with pre have "P p" "batch_ok c p" by (auto simp: rb_ok_def)
    with assms [of p] Some run pre show ?thesis
      by (cases "f p") (auto simp: rt_on_current_def rb_ok_def)
  qed
qed

lemma keeps_on_current:
  assumes "\<And>p a p'. batch_ok c p \<Longrightarrow> f p = Ok (a, p') \<Longrightarrow> batch_ok c p'"
  shows "keeps (rb_ok c) (rt_on_current f msg)"
  using triple_on_current [of "\<lambda>_. True" c f "\<lambda>_. True" msg] assms by simp

lemma signals_covered_mono:
  "signals_covered p \<Longrightarrow> rp_l1_calls q = rp_l1_calls p \<Longrightarrow> set (rp_signal_slots p) \<subseteq> set (rp_signal_slots q) \<Longrightarrow>
   signals_covered q"
  unfolding signals_covered_def by fastforce

lemma batch_ok_update:
  assumes "batch_ok c p" "rp_coinbase q = rp_coinbase p" "rp_l2_blocks q = rp_l2_blocks p"
    "rp_max_anchor_block_number q = rp_max_anchor_block_number p" "rp_l1_calls q = rp_l1_calls p"
    "set (rp_signal_slots p) \<subseteq> set (rp_signal_slots q)"
  shows "batch_ok c q"
  using assms signals_covered_mono [of p q] by (simp add: batch_ok_def batch_typed_def)

lemma keeps_annotations:
  "keeps (rb_ok c) (add_user_op op)" "keeps (rb_ok c) (add_l2_mempool_tx_hash h)"
  "keeps (rb_ok c) (add_signal_slot sl)" "keeps (rb_ok c) (set_proposal_checkpoint cp)"
  unfolding add_user_op_def add_l2_mempool_tx_hash_def add_signal_slot_def set_proposal_checkpoint_def
  by (rule keeps_on_current, erule batch_ok_update; auto)+

lemma batch_ok_compress: "batch_ok c p \<Longrightarrow> batch_ok c (rt_compress enc p)"
  by (erule batch_ok_update) simp_all

lemma rt_can_consume_state:
  assumes "rt_can_consume_l2_block enc d b = (r, b')"
  shows "b' = b \<or> (\<exists>p. rt_current b = Some p \<and> b' = b\<lparr>rt_current := Some (rt_compress enc p)\<rparr>)"
  using assms
  by (auto simp: rt_can_consume_l2_block_def dest!: rt_consume_check_batch
      split: option.splits outcome.splits)

lemma rt_consume_check_True:
  assumes "rt_consume_check enc c d expired p = Ok (True, p')"
  shows "length (rp_l2_blocks p) < unat (max_blocks_per_batch c) \<and> rp_l2_blocks p' = rp_l2_blocks p"
proof -
  have limit: "length (rp_l2_blocks p) < unat (max_blocks_per_batch c)"
    if "try_from (Suc (length (rp_l2_blocks p))) = Ok n" "is_within_block_limit c n" for n :: u16
    using that by (auto simp: is_within_block_limit_def word_le_nat_alt)
  from rt_consume_check_batch [OF assms] assms show ?thesis
    by (auto simp: rt_consume_check_def Let_def simp del: try_from_Ok_iff
        split: outcome.splits if_splits dest!: limit)
qed

lemma triple_rm_can_consume:
  "triple (rb_ok c) (rt_can_consume_l2_block enc d)
     (\<lambda>r b. rb_ok c b \<and> (r = Ok True \<longrightarrow> has_room c b))"
proof (rule tripleI)
  fix b r b'
  assume ok: "rb_ok c b" and run: "rt_can_consume_l2_block enc d b = (r, b')"
  from rt_can_consume_state [OF run] ok have "rb_ok c b'"
    by (auto simp: rb_ok_def batch_ok_compress)
  moreover have "has_room c b'" if "r = Ok True"
    using run ok that
    by (auto simp: rt_can_consume_l2_block_def has_room_def block_bound_def rb_ok_def
        split: option.splits outcome.splits dest!: rt_consume_check_True)
  ultimately show "rb_ok c b' \<and> (r = Ok True \<longrightarrow> has_room c b')" by blast
qed

lemma rb_ok_finalize: "rb_ok c b \<Longrightarrow> rb_ok c (finalize_current_batch b)"
  by (auto simp: rb_ok_def finalize_current_batch_def split: option.splits)

lemma rb_ok_create: "rb_ok c b \<Longrightarrow> rb_ok c (create_new_batch anchor h b) \<and> has_room c (create_new_batch anchor h b)"
  using rb_ok_finalize [of c b]
  by (auto simp: rb_ok_def create_new_batch_def fresh_batch_def batch_ok_def batch_typed_def
      signals_covered_def has_room_def block_bound_def)

lemma triple_add_draft:
  "triple (\<lambda>b. rb_ok c b \<and> has_room c b) (rt_add_l2_draft_block d) (\<lambda>_ b. rb_ok c b)"
proof -
  have "batch_ok c p'" if "length (rp_l2_blocks p) < block_bound c" "batch_ok c p" "rt_add_draft p d = Ok (a, p')"
    for p a p'
    using that signals_covered_mono [of p p']
    by (auto simp: rt_add_draft_def rt_add_l2_block_Ok_iff batch_ok_def batch_typed_def)
  then have "triple (\<lambda>b. rb_ok c b \<and> (\<forall>p. rt_current b = Some p \<longrightarrow> length (rp_l2_blocks p) < block_bound c))
      (rt_add_l2_draft_block d) (\<lambda>r b. rb_ok c b \<and> (is_ok r \<longrightarrow> (\<forall>p. rt_current b = Some p \<longrightarrow> True)))"
    unfolding rt_add_l2_draft_block_def by (intro triple_on_current) blast
  then show ?thesis by (simp add: has_room_def)
qed

lemma keeps_remove_last: "keeps (rb_ok c) rt_remove_last_l2_block"
  by (rule tripleI)
    (auto simp: rt_remove_last_l2_block_def rb_ok_def Let_def batch_ok_def batch_typed_def signals_covered_def
      split: option.splits outcome.splits if_splits dest: in_set_butlastD)

lemma finalize_if_needed_state:
  "finalize_if_needed full b = (r, b') \<Longrightarrow> b' = b \<or> b' = finalize_current_batch b"
proof -
  assume run: "finalize_if_needed full b = (r, b')"
  have choice: "b' = b \<or> b' = finalize_current_batch b"
    if "(case x of Ok m \<Rightarrow> (Ok (), if P m then finalize_current_batch b else b)
         | Err e \<Rightarrow> (Err e, b) | Panic \<Rightarrow> (Panic, b)) = (r, b')" for x :: "u16 outcome" and P
    using that by (cases x) (auto split: if_splits)
  from run show ?thesis
    by (cases "rt_current b"; cases full)
      (auto simp: finalize_if_needed_def Let_def simp del: add_Ok_iff dest!: choice)
qed

lemma keeps_finalize_if_needed: "keeps (rb_ok c) (finalize_if_needed full)"
  by (rule tripleI) (auto dest!: finalize_if_needed_state intro: rb_ok_finalize)

section \<open>The operations of the manager keep the batches in order\<close>

lemma keeps_rm_pending:
  "keeps (on_rm (rm_ok linked c)) (rm_set (\<lambda>m. m\<lparr>pending_return_signal := x\<rparr>))"
  "keeps (on_rm (rm_ok linked c)) (rm_set (\<lambda>m. m\<lparr>pending_mempool_tx_hash := y\<rparr>))"
  "keeps (on_rm (rm_ok linked c)) (rm_set (\<lambda>m. m\<lparr>pending_return_signal := x, pending_mempool_tx_hash := y\<rparr>))"
  by (rule keeps_rm_set; simp add: rm_ok_def)+

text \<open>The current batch has the slot that the L1 call of the block may require.\<close>

definition slot_in :: "b256 option \<Rightarrow> 'tx rt_manager \<Rightarrow> bool" where
  "slot_in hint m \<longleftrightarrow>
     (\<forall>p. rt_current (rm_builder m) = Some p \<longrightarrow> set_option hint \<subseteq> set (rp_signal_slots p))"

lemma keeps_slot_in:
  assumes "\<And>p a p'. f p = Ok (a, p') \<Longrightarrow> set (rp_signal_slots p) \<subseteq> set (rp_signal_slots p')"
    and "\<And>p a p'. batch_ok c p \<Longrightarrow> f p = Ok (a, p') \<Longrightarrow> batch_ok c p'"
  shows "keeps (on_rm (\<lambda>m. rm_ok linked c m \<and> slot_in hint m)) (rm_b (rt_on_current f msg))"
proof (rule tripleI, clarify)
  fix m s r m' s'
  assume pre: "rm_ok linked c m" "slot_in hint m" and run: "rm_b (rt_on_current f msg) (m, s) = (r, (m', s'))"
  from tripleD [OF keeps_rm_b [OF keeps_on_current [OF assms(2)]] _ run] pre
  have "rm_ok linked c m'" by auto
  moreover from run obtain b' where b': "rt_on_current f msg (rm_builder m) = (r, b')" "m' = m\<lparr>rm_builder := b'\<rparr>"
    by (auto simp: rm_b_def zoom_def split: prod.splits)
  from b'(1) have "slot_in hint m'"
    by (rule rt_on_current_Ok) (use pre(2) b'(2) assms(1) in \<open>fastforce simp: slot_in_def\<close>)+
  ultimately show "rm_ok linked c m' \<and> slot_in hint m'" by blast
qed

lemma triple_return_slot:
  "triple (on_rm (rm_ok linked c) :: ('w, 'tx) rmstate \<Rightarrow> bool)
     (case hint of Some sl \<Rightarrow> rm_b (add_signal_slot sl) | None \<Rightarrow> return ())
     (\<lambda>r. on_rm (\<lambda>m. rm_ok linked c m \<and> (is_ok r \<longrightarrow> slot_in hint m)))"
proof (cases hint)
  case None
  then show ?thesis by (auto simp: triple_def return_def slot_in_def)
next
  case (Some sl)
  have keep: "keeps (on_rm (rm_ok linked c)) (rm_b (add_signal_slot sl))"
    by (rule keeps_rm_b) (rule keeps_annotations)
  show ?thesis unfolding Some option.simps
  proof (rule tripleI, clarify)
    fix m :: "'tx rt_manager" and s :: "'w bstate" and r m' s'
    assume "rm_ok linked c m" and run: "rm_b (add_signal_slot sl) (m, s) = (r, (m', s'))"
    with tripleD [OF keep _ run] have "rm_ok linked c m'" by simp
    moreover have "slot_in (Some sl) m'" if "is_ok r"
      using run that
      by (auto simp: rm_b_def zoom_def slot_in_def add_signal_slot_def rt_on_current_def
          split: prod.splits option.splits outcome.splits)
    ultimately show "rm_ok linked c m' \<and> (is_ok r \<longrightarrow> slot_in (Some sl) m')" by blast
  qed
qed

lemma triple_add_l1_call:
  assumes "required_return_signal call = hint"
  shows "triple (on_rm (\<lambda>m. rm_ok linked c m \<and> slot_in hint m)) (rm_b (add_l1_call call))
    (\<lambda>_. on_rm (rm_ok linked c))"
proof (rule tripleI, clarify)
  fix m s r m' s'
  assume pre: "rm_ok linked c m" "slot_in hint m" and run: "rm_b (add_l1_call call) (m, s) = (r, (m', s'))"
  from run obtain b' where "rt_on_current (\<lambda>p. Ok ((), p\<lparr>rp_l1_calls := rp_l1_calls p @ [call]\<rparr>))
      ''No current batch'' (rm_builder m) = (r, b')" and m': "m' = m\<lparr>rm_builder := b'\<rparr>"
    by (auto simp: rm_b_def zoom_def add_l1_call_def split: prod.splits)
  then show "rm_ok linked c m'"
  proof (cases rule: rt_on_current_Ok [case_names same changed])
    case same
    then show ?thesis using pre m' by (simp add: rm_ok_def)
  next
    case (changed a p p')
    with pre assms have "batch_ok c p" "set_option (required_return_signal call) \<subseteq> set (rp_signal_slots p)"
      by (auto simp: rm_ok_def rb_ok_def slot_in_def)
    then have "batch_ok c (p\<lparr>rp_l1_calls := rp_l1_calls p @ [call]\<rparr>)"
      unfolding batch_ok_def batch_typed_def signals_covered_def by simp
    with changed pre m' show ?thesis by (simp add: rm_ok_def rb_ok_def)
  qed
qed

lemma find_l1_call_required:
  "find_l1_call R n root hint w = (Ok (Some call), w') \<Longrightarrow> required_return_signal call = hint"
  by (auto simp: find_l1_call_def bind_Ok_iff return_def split: option.splits)

lemma triple_bind_rm_world:
  assumes "\<And>w a w'. x w = (Ok a, w') \<Longrightarrow> triple (on_rm P) (f a) Q"
    and "\<And>m s e. P m \<Longrightarrow> Q (Err e) (m, s)" "\<And>m s. P m \<Longrightarrow> Q Panic (m, s)"
  shows "triple (on_rm P) (bind (rm_world x) f) Q"
proof (rule tripleI, clarify)
  fix m b w r m' b' w'
  assume P: "P m" and run: "bind (rm_world x) f (m, b, w) = (r, (m', b', w'))"
  obtain y v where x: "x w = (y, v)" by fastforce
  then have "rm_world x (m, b, w) = (y, (m, b, v))"
    by (simp add: rm_world_def rm_bridge_def b_world_def zoom_def)
  with run have cases: "(case y of Ok a \<Rightarrow> f a (m, b, v) | Err e \<Rightarrow> (Err e, (m, b, v)) | Panic \<Rightarrow> (Panic, (m, b, v))) =
      (r, (m', b', w'))"
    by (simp add: bind_def split: outcome.splits)
  show "Q r (m', b', w')"
  proof (cases y)
    case (Ok a)
    with x have "triple (on_rm P) (f a) Q" by (intro assms(1)) simp
    then show ?thesis using P cases Ok by (auto dest!: tripleD)
  qed (use cases P assms(2,3) in auto)
qed

lemma triple_then_return: "triple P m (\<lambda>_. Q) \<Longrightarrow> triple P (bind m (\<lambda>_. return x)) (\<lambda>_. Q)"
  by (fastforce simp: triple_def bind_def return_def split: prod.splits outcome.splits)

lemma triple_commit_call:
  "triple (on_rm (\<lambda>m. rm_ok linked c m \<and> slot_in hint m))
     (bind (rm_world (find_l1_call R n root hint)) (\<lambda>call.
      bind (case call of Some x \<Rightarrow> rm_b (add_l1_call x) | None \<Rightarrow> return ()) (\<lambda>_. return blk)))
     (\<lambda>_. on_rm (rm_ok linked c))"
proof (rule triple_bind_rm_world)
  fix w call w'
  assume found: "find_l1_call R n root hint w = (Ok call, w')"
  have "triple (on_rm (\<lambda>m. rm_ok linked c m \<and> slot_in hint m))
      (case call of Some x \<Rightarrow> rm_b (add_l1_call x) | None \<Rightarrow> return ()) (\<lambda>_. on_rm (rm_ok linked c))"
  proof (cases call)
    case None
    then show ?thesis by (auto simp: triple_def return_def)
  next
    case (Some x)
    with found have "required_return_signal x = hint" by (auto dest: find_l1_call_required)
    then show ?thesis unfolding Some option.simps by (rule triple_add_l1_call)
  qed
  then show "triple (on_rm (\<lambda>m. rm_ok linked c m \<and> slot_in hint m))
      (bind (case call of Some x \<Rightarrow> rm_b (add_l1_call x) | None \<Rightarrow> return ()) (\<lambda>_. return blk))
      (\<lambda>_. on_rm (rm_ok linked c))"
    by (rule triple_then_return)
qed auto

lemma triple_commit_tail:
  fixes N :: "('w, 'tx) node_services"
  shows "triple (on_rm (\<lambda>m. rm_ok linked c m \<and> slot_in hint m) :: ('w, 'tx) rmstate \<Rightarrow> bool)
     (bind (rm_get pending_mempool_tx_hash) (\<lambda>mempool_tx.
     bind (rm_set (\<lambda>m. m\<lparr>pending_mempool_tx_hash := None\<rparr>)) (\<lambda>_.
     bind (case mempool_tx of
             Some h \<Rightarrow> bind (rm_b (add_l2_mempool_tx_hash h)) (\<lambda>_. rm_bridge (set_by_hash (rts N) h OpPending))
           | None \<Rightarrow> return ()) (\<lambda>_.
     bind (lift (u48_from (resp_number blk))) (\<lambda>number.
     bind (rm_b (set_proposal_checkpoint \<lparr>cp_block_number = number, cp_block_hash = resp_hash blk,
             cp_state_root = resp_state_root blk\<rparr>)) (\<lambda>_.
     bind (rm_world (find_l1_call (rts N) (resp_number blk) (resp_state_root blk) hint)) (\<lambda>call.
     bind (case call of Some x \<Rightarrow> rm_b (add_l1_call x) | None \<Rightarrow> return ()) (\<lambda>_.
     return blk))))))))
     (\<lambda>_. on_rm (rm_ok linked c))"
proof -
  let ?J = "on_rm (\<lambda>m. rm_ok linked c m \<and> slot_in hint m) :: ('w, 'tx) rmstate \<Rightarrow> bool"
  have set: "keeps ?J (rm_set (\<lambda>m. m\<lparr>pending_mempool_tx_hash := y\<rparr>))" for y
    by (rule keeps_rm_set) (simp add: rm_ok_def slot_in_def)
  have ann: "keeps ?J (rm_b (add_l2_mempool_tx_hash h))" "keeps ?J (rm_b (set_proposal_checkpoint cp))" for h cp
    unfolding add_l2_mempool_tx_hash_def set_proposal_checkpoint_def
    by (rule keeps_slot_in; auto elim!: batch_ok_update)+
  show ?thesis
    by (rule triple_bind_keeps, rule keeps_rm_get, rule triple_bind_keeps, rule set,
        rule triple_bind_keeps, (intro keeps_rules ann)[1], rule triple_bind_keeps, rule keeps_lift,
        rule triple_bind_keeps, rule ann(2), rule triple_commit_call) auto
qed

lemma triple_commit_block:
  fixes N :: "('w, 'tx) node_services"
  shows "triple (on_rm (\<lambda>m. rm_ok linked c m \<and> pending_return_signal m = hint)) (commit_block N op hint blk)
     (\<lambda>_. on_rm (rm_ok linked c))"
proof -
  let ?I = "on_rm (rm_ok linked c) :: ('w, 'tx) rmstate \<Rightarrow> bool"
  let ?K = "on_rm (\<lambda>m. rm_ok linked c m \<and> pending_return_signal m = hint) :: ('w, 'tx) rmstate \<Rightarrow> bool"
  have b: "keeps ?K (rm_b x)" if "keeps (rb_ok c) x" for x :: "('tx rt_builder, 'a) action"
    using that by (auto simp: triple_def rm_b_def zoom_def rm_ok_def split: prod.splits)
  have first: "keeps ?K (case op of
             Some (x, sl) \<Rightarrow> bind (rm_b (add_user_op x)) (\<lambda>_. rm_b (add_signal_slot sl))
           | None \<Rightarrow> return ())"
    by (intro keeps_rules b keeps_annotations)
  have slot: "triple ?I (bind (case hint of Some sl \<Rightarrow> rm_b (add_signal_slot sl) | None \<Rightarrow> return ()) f) (\<lambda>_. ?I)"
    if "\<And>u. triple (on_rm (\<lambda>m. rm_ok linked c m \<and> slot_in hint m)) (f u) (\<lambda>_. ?I)" for f
    by (rule triple_bind [where R = "\<lambda>_. on_rm (\<lambda>m. rm_ok linked c m \<and> slot_in hint m)"])
      (rule triple_conseq [OF triple_return_slot], auto split: outcome.splits intro: that)
  have take: "triple ?K (bind (rm_get pending_return_signal) f) (\<lambda>_. ?I)"
    if "triple ?I (f hint) (\<lambda>_. ?I)" for f
    using that by (auto simp: triple_def rm_get_def)
  show ?thesis
    unfolding commit_block_def
    by (rule triple_bind_keeps [OF first], rule take, rule keeps_bind [OF keeps_rm_pending(1)], rule slot,
        rule triple_commit_tail) auto
qed

lemma triple_rm_b_hint:
  assumes "triple (\<lambda>b. rb_ok c b \<and> P b) x (\<lambda>_ b. rb_ok c b)"
  shows "triple (on_rm (\<lambda>m. (rm_ok linked c m \<and> P (rm_builder m)) \<and> pending_return_signal m = h)) (rm_b x)
    (\<lambda>_. on_rm (\<lambda>m. rm_ok linked c m \<and> pending_return_signal m = h))"
  unfolding rm_b_def
  by (rule tripleI) (use assms in \<open>auto simp: zoom_def rm_ok_def split: prod.splits dest: tripleD\<close>)

lemma keeps_scan_mempool:
  fixes N :: "('w, 'tx) node_services"
  assumes "\<And>m x y. Q m \<Longrightarrow> Q (m\<lparr>pending_return_signal := x, pending_mempool_tx_hash := y\<rparr>)"
  shows "keeps (on_rm Q) (scan_mempool N txs)"
proof (induction txs)
  case (Cons tx txs)
  show ?case
    unfolding scan_mempool.simps
    by (intro keeps_rules Cons.IH keeps_rm_set assms)
qed (simp add: keeps_return)

lemma keeps_add_pending_user_ops:
  fixes N :: "('w, 'tx) node_services"
  shows "keeps (on_rm Q) (add_pending_user_ops_to_draft_block N d fee)"
  unfolding add_pending_user_ops_to_draft_block_def by (intro keeps_rules)

lemma triple_add_draft_block:
  fixes N :: "('w, 'tx) node_services"
  shows "triple (on_rm (\<lambda>m. rm_ok linked c m \<and> has_room c (rm_builder m))) (rm_add_draft_block_to_proposal N d ctx op)
    (\<lambda>_. on_rm (rm_ok linked c))"
proof -
  let ?I = "on_rm (rm_ok linked c) :: ('w, 'tx) rmstate \<Rightarrow> bool"
  let ?P = "\<lambda>m. rm_ok linked c m \<and> has_room c (rm_builder m)"
  let ?K = "\<lambda>h. on_rm (\<lambda>m. rm_ok linked c m \<and> pending_return_signal m = h) :: ('w, 'tx) rmstate \<Rightarrow> bool"
  have advance: "triple (?K h)
      (attempt (rm_world (rt_advance_head N payload ctx slots op)) (commit_block N pending h)
        (\<lambda>err. bind (rm_b rt_remove_last_l2_block) (\<lambda>_. raise (Anyhow msg)))) (\<lambda>_. ?I)" for h payload slots pending msg
    by (intro triple_attempt_keeps keeps_rm_world triple_commit_block)
      (auto intro!: triple_pre [OF keeps_bind [OF keeps_rm_b [OF keeps_remove_last] keeps_raise]])
  have add: "triple (on_rm (\<lambda>m. ?P m \<and> pending_return_signal m = h))
      (bind (rm_b (rt_add_l2_draft_block d')) (\<lambda>payload.
       attempt (rm_world (rt_advance_head N payload ctx slots op)) (commit_block N pending h)
         (\<lambda>err. bind (rm_b rt_remove_last_l2_block) (\<lambda>_. raise (Anyhow msg))))) (\<lambda>_. ?I)" for h d' slots pending msg
    by (rule triple_bind [where R = "\<lambda>_. ?K h", OF triple_conseq [OF triple_rm_b_hint [OF triple_add_draft]] advance])
      (auto split: outcome.splits)
  have hint: "triple (on_rm ?P) (bind (rm_get pending_return_signal) f) (\<lambda>_. ?I)"
    if "\<And>h. triple (on_rm (\<lambda>m. ?P m \<and> pending_return_signal m = h)) (f h) (\<lambda>_. ?I)"
    for f :: "b256 option \<Rightarrow> (('w, 'tx) rmstate, build_preconf_block_response) action"
    using that by (auto simp: triple_def rm_get_def)
  have cont: "triple (on_rm ?P) (bind (scan_mempool N (tx_list (d_prebuilt_tx_list d'))) (\<lambda>_.
     bind (rm_get pending_return_signal) (\<lambda>hint.
     let anchor_signal_slots = (case pending of Some (_, sl) \<Rightarrow> [sl] | None \<Rightarrow> []) @
           (case hint of Some sl \<Rightarrow> [sl] | None \<Rightarrow> []) in
     bind (rm_b (rt_add_l2_draft_block d')) (\<lambda>payload.
     attempt (rm_world (rt_advance_head N payload ctx anchor_signal_slots op))
       (commit_block N pending hint)
       (\<lambda>err. bind (rm_b rt_remove_last_l2_block) (\<lambda>_.
               raise (Anyhow ''Failed to advance head to new L2 block''))))))) (\<lambda>_. ?I)"
    for d' and pending :: "(user_op \<times> b256) option"
    unfolding Let_def
    by (rule triple_bind_keeps, rule keeps_scan_mempool, simp add: rm_ok_def, rule hint, rule add) auto
  show ?thesis
    unfolding rm_add_draft_block_to_proposal_def
    by (rule triple_bind_keeps [OF keeps_add_pending_user_ops]) (use cont in \<open>auto split: prod.splits\<close>)
qed

lemma triple_create_new_batch:
  fixes N :: "('w, 'tx) node_services"
  shows "triple (on_rm (rm_ok linked c)) (rm_create_new_batch N)
    (\<lambda>r. on_rm (\<lambda>m. rm_ok linked c m \<and> (is_ok r \<longrightarrow> has_room c (rm_builder m))))"
proof -
  have last: "triple (on_rm (rm_ok linked c) :: ('w, 'tx) rmstate \<Rightarrow> bool)
      (bind (rm_b (modify (create_new_batch info 0))) (\<lambda>_. return (ab_id info)))
      (\<lambda>r. on_rm (\<lambda>m. rm_ok linked c m \<and> (is_ok r \<longrightarrow> has_room c (rm_builder m))))" for info
    by (auto simp: triple_def rm_b_def zoom_def modify_def bind_def return_def rm_ok_def rb_ok_create)
  show ?thesis
    unfolding rm_create_new_batch_def
    by (rule triple_bind_keeps, (intro keeps_rules)[1], rule triple_bind_keeps, rule keeps_rm_get,
        rule triple_bind_keeps, rule keeps_rm_world, rule last) auto
qed

lemma keeps_rm_add_new_l2_block:
  fixes N :: "('w, 'tx) node_services"
  shows "keeps (on_rm (rm_ok linked c)) (rm_add_new_l2_block N txs ctx op)"
proof -
  let ?I = "on_rm (rm_ok linked c) :: ('w, 'tx) rmstate \<Rightarrow> bool"
  let ?P = "\<lambda>fits. on_rm (\<lambda>m. rm_ok linked c m \<and> (fits \<longrightarrow> has_room c (rm_builder m))) :: ('w, 'tx) rmstate \<Rightarrow> bool"
  have room: "triple (?P fits)
      (if fits then return () else bind (rm_create_new_batch N) (\<lambda>_. return ()))
      (\<lambda>r s. case r of Ok _ \<Rightarrow> ?P True s | _ \<Rightarrow> ?I s)" for fits
  proof (cases fits)
    case False
    have "triple ?I (bind (rm_create_new_batch N) (\<lambda>_. return ())) (\<lambda>r s. case r of Ok _ \<Rightarrow> ?P True s | _ \<Rightarrow> ?I s)"
      by (rule triple_bind [where R = "\<lambda>_. ?P True", OF triple_conseq [OF triple_create_new_batch]])
        (auto split: outcome.splits intro: triple_return)
    with False show ?thesis by simp
  qed (auto simp: triple_def return_def)
  have consume: "triple ?I (rm_b (rt_can_consume_l2_block enc d))
      (\<lambda>r s. case r of Ok fits \<Rightarrow> ?P fits s | _ \<Rightarrow> ?I s)" for enc d
    using triple_rm_b [of c "\<lambda>_. True" "rt_can_consume_l2_block enc d" "\<lambda>r b. r = Ok True \<longrightarrow> has_room c b" linked]
      triple_rm_can_consume [of c enc d]
    by (auto elim!: triple_conseq split: outcome.splits)
  have step: "triple ?I (bind (rm_b (rt_can_consume_l2_block enc d)) (\<lambda>fits.
        bind (if fits then return () else bind (rm_create_new_batch N) (\<lambda>_. return ())) (\<lambda>_.
        rm_add_draft_block_to_proposal N d ctx op))) (\<lambda>_. ?I)" for enc d
    by (rule triple_bind [where R = ?P, OF consume], rule triple_bind [where R = "\<lambda>_. ?P True", OF room])
      (use triple_add_draft_block in auto)
  show ?thesis
    unfolding rm_add_new_l2_block_def Let_def
    by (rule keeps_bind, rule keeps_rm_get, rule keeps_if, rule keeps_raise, rule keeps_bind,
        rule keeps_lift, rule step)
qed

lemma keeps_rm_preconfirm:
  fixes N :: "('w, 'tx) node_services"
  shows "keeps (on_rm (rm_ok linked c)) (rm_preconfirm_block N pending ctx)"
  unfolding rm_preconfirm_block_def
  by (intro keeps_rules keeps_rm_add_new_l2_block keeps_rm_b keeps_modify rb_ok_finalize)

text \<open>Building a block leaves the submitter alone.\<close>

lemma keeps_submitter_preconfirm:
  fixes N :: "('w, 'tx) node_services"
  shows "keeps (on_rm (\<lambda>m. in_flight (rm_submitter m) = x)) (rm_preconfirm_block N pending ctx)"
proof -
  let ?I = "on_rm (\<lambda>m. in_flight (rm_submitter m) = x) :: ('w, 'tx) rmstate \<Rightarrow> bool"
  have b: "keeps ?I (rm_b a)" for a :: "('tx rt_builder, 'c) action"
    by (auto simp: triple_def rm_b_def zoom_def split: prod.splits)
  have commit: "keeps ?I (commit_block N op hint block)" for op hint block
    unfolding commit_block_def by (intro keeps_rules b keeps_rm_set) auto
  have draft: "keeps ?I (rm_add_draft_block_to_proposal N d ctx op)" for d op
    unfolding rm_add_draft_block_to_proposal_def Let_def
    by (intro keeps_rules keeps_add_pending_user_ops keeps_scan_mempool b commit) auto
  have "keeps ?I (rm_add_new_l2_block N txs ctx op)" for txs op
    unfolding rm_add_new_l2_block_def rm_create_new_batch_def Let_def by (intro keeps_rules b draft)
  then show ?thesis
    unfolding rm_preconfirm_block_def by (intro keeps_rules b)
qed

lemma keeps_poll: "keeps (on_rm (rm_ok linked c)) poll_submission_result"
  by (rule tripleI)
    (auto simp: poll_submission_result_def try_recv_result_def rm_ok_def flight_ok_def
      split: option.splits flight.splits sum.splits)

lemma keeps_try_start:
  fixes N :: "('w, 'tx) node_services"
  shows "keeps (on_rm (rm_ok linked c)) (try_start_submission N full)"
proof -
  let ?I = "on_rm (rm_ok linked c) :: ('w, 'tx) rmstate \<Rightarrow> bool"
  define sendable where "sendable p m \<longleftrightarrow> batch_ok c p \<and> rp_l2_blocks p \<noteq> [] \<and>
    rp_last_finalized_block_hash p = rm_last_finalized_block_hash m" for p :: "'tx rt_proposal" and m :: "'tx rt_manager"
  let ?S = "\<lambda>p. on_rm (\<lambda>m. rm_ok linked c m \<and> sendable p m) :: ('w, 'tx) rmstate \<Rightarrow> bool"
  have pop: "triple ?I rm_pop (\<lambda>r s. case r of Ok x \<Rightarrow> ?I s \<and> (\<forall>p. x = Some p \<longrightarrow> ?S p s) | _ \<Rightarrow> ?I s)"
  proof (rule tripleI)
    fix s0 r s1
    assume "?I s0" and "rm_pop s0 = (r, s1)"
    then obtain m s m' s' where ok: "rm_ok linked c m" and run: "rm_pop (m, s) = (r, (m', s'))"
      and s1: "s1 = (m', s')"
      by (cases s0; cases s1) auto
    obtain x b where b: "pop_oldest_batch (rm_last_finalized_block_hash m) (rm_builder m) = (x, b)" by fastforce
    with run have eq: "r = Ok x" "m' = m\<lparr>rm_builder := b\<rparr>" by (auto simp: rm_pop_def)
    show "case r of Ok x \<Rightarrow> ?I s1 \<and> (\<forall>p. x = Some p \<longrightarrow> ?S p s1) | _ \<Rightarrow> ?I s1"
    proof (cases x)
      case None
      with b ok eq show ?thesis by (auto simp: s1 pop_oldest_batch_def split: list.splits)
    next
      case (Some p)
      with b obtain batch rest where "proposals_to_send (rm_builder m) = batch # rest"
        "p = batch\<lparr>rp_last_finalized_block_hash := rm_last_finalized_block_hash m\<rparr>"
        "b = (rm_builder m)\<lparr>proposals_to_send := rest\<rparr>"
        by (auto elim: pop_oldest_batch_Some)
      with ok eq Some show ?thesis
        by (auto simp: s1 rm_ok_def rb_ok_def sendable_def elim!: batch_ok_update)
    qed
  qed
  have push: "triple (?S p) (rm_b (modify (push_front_batch p))) (\<lambda>_. ?I)" for p
    by (auto simp: triple_def rm_b_def zoom_def modify_def rm_ok_def rb_ok_def push_front_batch_def sendable_def)
  have sub: "triple (?S p) (rm_submit p) (\<lambda>_. ?I)" for p
    by (auto simp: triple_def rm_submit_def zoom_def submit_def rm_ok_def flight_ok_def sendable_def)
  have send: "triple (?S p) (bind (rm_world (transaction_in_progress (svc N))) (\<lambda>in_progress.
      if in_progress then rm_b (modify (push_front_batch p)) else rm_submit p)) (\<lambda>_. ?I)" for p
    by (rule triple_bind_keeps [OF keeps_rm_world]) (auto intro: push sub)
  have rest: "triple ?I (bind rm_pop (\<lambda>r. case r of None \<Rightarrow> return () | Some batch \<Rightarrow>
      bind (rm_world (transaction_in_progress (svc N))) (\<lambda>in_progress.
      if in_progress then rm_b (modify (push_front_batch batch)) else rm_submit batch))) (\<lambda>_. ?I)"
  proof (rule triple_bind [OF pop])
    show "triple (\<lambda>s. ?I s \<and> (\<forall>p. r = Some p \<longrightarrow> ?S p s)) (case r of None \<Rightarrow> return () | Some batch \<Rightarrow>
        bind (rm_world (transaction_in_progress (svc N))) (\<lambda>in_progress.
        if in_progress then rm_b (modify (push_front_batch batch)) else rm_submit batch)) (\<lambda>_. ?I)" for r
      by (cases r) (auto intro: triple_return triple_pre [OF send])
  qed
  show ?thesis
    unfolding try_start_submission_def
    by (rule keeps_bind, rule keeps_rm_get, rule keeps_if, rule keeps_return, rule keeps_bind,
        rule keeps_rm_b, rule keeps_finalize_if_needed, rule rest)
qed

lemma pop_all_eq: "pop_all h b = b\<lparr>proposals_to_send := []\<rparr>"
proof (induction h b rule: pop_all.induct)
  case (1 h b)
  show ?case
  proof (cases "pop_oldest_batch h b")
    case (Pair x b')
    show ?thesis
    proof (cases x)
      case None
      with Pair have "b' = b" "proposals_to_send b = []" by (auto simp: pop_oldest_batch_def split: list.splits)
      with Pair None show ?thesis by (subst pop_all.simps) simp
    next
      case (Some p)
      with Pair obtain rest where "b' = b\<lparr>proposals_to_send := rest\<rparr>" by (auto elim: pop_oldest_batch_Some)
      with 1 [OF Pair [symmetric, unfolded Some] refl] Pair Some show ?thesis by (subst pop_all.simps) simp
    qed
  qed
qed

lemma keeps_drain: "keeps (on_rm (rm_ok linked c)) drain_finalized_batches"
  unfolding drain_finalized_batches_def
  by (intro keeps_rules keeps_rm_b keeps_finalize_if_needed keeps_modify) (auto simp: pop_all_eq rb_ok_def)

lemma reset_builder_ok:
  "triple (on_rm (rm_ok linked c)) rm_reset_builder (\<lambda>_. on_rm (\<lambda>m. rm_ok linked' c m \<and> in_flight (rm_submitter m) = None))"
  by (auto simp: triple_def rm_reset_builder_def rm_set_def modify_def rm_ok_def rb_ok_def rt_builder_new_def
      abort_submission_def flight_ok_def)

lemma triple_reorg:
  fixes N :: "('w, 'tx) node_services"
  shows "triple (on_rm (rm_ok True c)) (reorg_unproposed_blocks N)
    (\<lambda>r. on_rm (\<lambda>m. rm_ok (r \<noteq> Ok ()) c m))"
proof -
  have weaken: "rm_ok True c m \<Longrightarrow> rm_ok b c m" for b and m :: "'tx rt_manager"
    by (auto simp: rm_ok_def flight_ok_def)
  have last: "triple (on_rm (rm_ok True c) :: ('w, 'tx) rmstate \<Rightarrow> bool)
      (rm_set (\<lambda>m. m\<lparr>rm_last_finalized_block_hash := h\<rparr>)) (\<lambda>r. on_rm (\<lambda>m. rm_ok (r \<noteq> Ok ()) c m))" for h
    by (auto simp: triple_def rm_set_def modify_def rm_ok_def flight_ok_def)
  show ?thesis
    unfolding reorg_unproposed_blocks_def
    by (intro triple_bind_keeps triple_if keeps_rm_world keeps_rm_bridge keeps_or_value keeps_lift last)
      (auto intro: weaken triple_return)
qed

section \<open>What a new block leaves behind\<close>

lemma rm_b_Ok_iff:
  "rm_b x (m, s) = (Ok a, t) \<longleftrightarrow> (\<exists>b. x (rm_builder m) = (Ok a, b) \<and> t = (m\<lparr>rm_builder := b\<rparr>, s))"
  by (auto simp: rm_b_def zoom_def split: prod.splits)

lemma rm_world_Ok_iff:
  "rm_world x (m, b, w) = (Ok a, t) \<longleftrightarrow> (\<exists>w'. x w = (Ok a, w') \<and> t = (m, b, w'))"
  by (auto simp: rm_world_def rm_bridge_def b_world_def zoom_def split: prod.splits)

lemma rm_bridge_Ok_iff:
  "rm_bridge x (m, s) = (Ok a, t) \<longleftrightarrow> (\<exists>s'. x s = (Ok a, s') \<and> t = (m, s'))"
  by (auto simp: rm_bridge_def zoom_def split: prod.splits)

lemma bind_rm_get [simp]: "bind (rm_get f) k (m, s) = k (f m) (m, s)"
  by (simp add: rm_get_def)

lemma bind_rm_set [simp]: "bind (rm_set f) k (m, s) = k () (f m, s)"
  by (simp add: rm_set_def)

lemma annotation_Ok:
  assumes "rt_current (rm_builder m) = Some p"
  shows "rm_b (add_user_op x) (m, s) = (Ok (), (m\<lparr>rm_builder := (rm_builder m)\<lparr>rt_current :=
      Some (p\<lparr>rp_user_ops := rp_user_ops p @ [x]\<rparr>)\<rparr>\<rparr>, s))"
    "rm_b (add_signal_slot sl) (m, s) = (Ok (), (m\<lparr>rm_builder := (rm_builder m)\<lparr>rt_current :=
      Some (p\<lparr>rp_signal_slots := rp_signal_slots p @ [sl]\<rparr>)\<rparr>\<rparr>, s))"
    "rm_b (add_l2_mempool_tx_hash h) (m, s) = (Ok (), (m\<lparr>rm_builder := (rm_builder m)\<lparr>rt_current :=
      Some (p\<lparr>rp_l2_mempool_tx_hashes := rp_l2_mempool_tx_hashes p @ [h]\<rparr>)\<rparr>\<rparr>, s))"
    "rm_b (add_l1_call call) (m, s) = (Ok (), (m\<lparr>rm_builder := (rm_builder m)\<lparr>rt_current :=
      Some (p\<lparr>rp_l1_calls := rp_l1_calls p @ [call]\<rparr>)\<rparr>\<rparr>, s))"
    "rm_b (set_proposal_checkpoint cp) (m, s) = (Ok (), (m\<lparr>rm_builder := (rm_builder m)\<lparr>rt_current :=
      Some (p\<lparr>rp_checkpoint := cp\<rparr>)\<rparr>\<rparr>, s))"
  using assms
  by (simp_all add: rm_b_def zoom_def rt_on_current_def add_user_op_def add_signal_slot_def
      add_l2_mempool_tx_hash_def add_l1_call_def set_proposal_checkpoint_def)

text \<open>The batch after a block: \<open>x\<close> the block, and what was recorded with it.\<close>

definition option_list :: "'a option \<Rightarrow> 'a list" where
  "option_list x = (case x of Some a \<Rightarrow> [a] | None \<Rightarrow> [])"

lemma option_list_simps [simp]: "option_list None = []" "option_list (Some a) = [a]"
  by (simp_all add: option_list_def)

lemma current_same:
  "rt_current (rm_builder m) = Some p \<Longrightarrow> m\<lparr>rm_builder := (rm_builder m)\<lparr>rt_current := Some p\<rparr>\<rparr> = m"
  by (cases m; cases "rm_builder m") simp

lemma commit_user_op:
  assumes "rt_current (rm_builder m) = Some p"
  shows "(case op of Some (x, sl) \<Rightarrow> bind (rm_b (add_user_op x)) (\<lambda>_. rm_b (add_signal_slot sl)) | None \<Rightarrow> return ()) (m, s) =
    (Ok (), (m\<lparr>rm_builder := (rm_builder m)\<lparr>rt_current := Some (p\<lparr>
       rp_user_ops := rp_user_ops p @ option_list (map_option fst op),
       rp_signal_slots := rp_signal_slots p @ option_list (map_option snd op)\<rparr>)\<rparr>\<rparr>, s))"
proof (cases op)
  case None
  with assms show ?thesis by (simp add: return_def current_same)
next
  case (Some y)
  with assms show ?thesis
    by (cases y) (simp add: bind_def annotation_Ok)
qed

lemma commit_return_slot:
  assumes "rt_current (rm_builder m) = Some p"
  shows "(case hint of Some sl \<Rightarrow> rm_b (add_signal_slot sl) | None \<Rightarrow> return ()) (m, s) =
    (Ok (), (m\<lparr>rm_builder := (rm_builder m)\<lparr>rt_current := Some (p\<lparr>
       rp_signal_slots := rp_signal_slots p @ option_list hint\<rparr>)\<rparr>\<rparr>, s))"
  using assms by (cases hint) (simp_all add: return_def annotation_Ok current_same)

lemma commit_l1_call:
  assumes "rt_current (rm_builder m) = Some p"
  shows "(case call of Some x \<Rightarrow> rm_b (add_l1_call x) | None \<Rightarrow> return ()) (m, s) =
    (Ok (), (m\<lparr>rm_builder := (rm_builder m)\<lparr>rt_current := Some (p\<lparr>
       rp_l1_calls := rp_l1_calls p @ option_list call\<rparr>)\<rparr>\<rparr>, s))"
  using assms by (cases call) (simp_all add: return_def annotation_Ok current_same)

lemma commit_mempool_tx:
  assumes "rt_current (rm_builder m) = Some p"
    and "(case y of Some h \<Rightarrow> bind (rm_b (add_l2_mempool_tx_hash h)) (\<lambda>_. rm_bridge (z h))
           | None \<Rightarrow> return ()) (m, s) = (Ok (), t)"
  obtains s' where "t = (m\<lparr>rm_builder := (rm_builder m)\<lparr>rt_current := Some (p\<lparr>
       rp_l2_mempool_tx_hashes := rp_l2_mempool_tx_hashes p @ option_list y\<rparr>)\<rparr>\<rparr>, s')"
proof (cases y)
  case None
  with assms show ?thesis by (intro that [of s]) (simp add: return_def current_same)
next
  case (Some h)
  with assms(2) have "rm_bridge (z h) (m\<lparr>rm_builder := (rm_builder m)\<lparr>rt_current :=
      Some (p\<lparr>rp_l2_mempool_tx_hashes := rp_l2_mempool_tx_hashes p @ [h]\<rparr>)\<rparr>\<rparr>, s) = (Ok (), t)"
    using assms(1) by (simp add: bind_def annotation_Ok)
  with Some show ?thesis by (auto simp: rm_bridge_Ok_iff intro: that)
qed

lemma bind_commit:
  assumes "rt_current (rm_builder m) = Some p"
  shows "bind (case op of Some (x, sl) \<Rightarrow> bind (rm_b (add_user_op x)) (\<lambda>_. rm_b (add_signal_slot sl)) | None \<Rightarrow> return ()) f1 (m, s) =
    f1 () (m\<lparr>rm_builder := (rm_builder m)\<lparr>rt_current := Some (p\<lparr>
       rp_user_ops := rp_user_ops p @ option_list (map_option fst op),
       rp_signal_slots := rp_signal_slots p @ option_list (map_option snd op)\<rparr>)\<rparr>\<rparr>, s)"
    "bind (case hint of Some sl \<Rightarrow> rm_b (add_signal_slot sl) | None \<Rightarrow> return ()) f2 (m, s) =
    f2 () (m\<lparr>rm_builder := (rm_builder m)\<lparr>rt_current := Some (p\<lparr>
       rp_signal_slots := rp_signal_slots p @ option_list hint\<rparr>)\<rparr>\<rparr>, s)"
    "bind (case call of Some y \<Rightarrow> rm_b (add_l1_call y) | None \<Rightarrow> return ()) f3 (m, s) =
    f3 () (m\<lparr>rm_builder := (rm_builder m)\<lparr>rt_current := Some (p\<lparr>
       rp_l1_calls := rp_l1_calls p @ option_list call\<rparr>)\<rparr>\<rparr>, s)"
    "bind (rm_b (set_proposal_checkpoint cp)) f4 (m, s) =
    f4 () (m\<lparr>rm_builder := (rm_builder m)\<lparr>rt_current := Some (p\<lparr>rp_checkpoint := cp\<rparr>)\<rparr>\<rparr>, s)"
  by (simp_all only: bind_def commit_user_op [OF assms] commit_return_slot [OF assms] commit_l1_call [OF assms]
      annotation_Ok [OF assms] prod.case outcome.case)

lemma commit_block_Ok:
  assumes run: "commit_block N op hint blk (m, s) = (Ok r, (m', s'))"
    and cur: "rt_current (rm_builder m) = Some p" and hint: "pending_return_signal m = hint"
  obtains p' calls where "r = blk" "rt_current (rm_builder m') = Some p'" "rp_l2_blocks p' = rp_l2_blocks p"
    "rp_user_ops p' = rp_user_ops p @ option_list (map_option fst op)"
    "rp_signal_slots p' = rp_signal_slots p @ option_list (map_option snd op) @ option_list hint"
    "u48_from (resp_number blk) = Ok (cp_block_number (rp_checkpoint p'))"
    "cp_block_hash (rp_checkpoint p') = resp_hash blk" "cp_state_root (rp_checkpoint p') = resp_state_root blk"
    "rp_l1_calls p' = rp_l1_calls p @ calls" "set (map required_return_signal calls) \<subseteq> {hint}"
    "pending_return_signal m' = None" "pending_mempool_tx_hash m' = None"
proof -
  define p2 where "p2 = p\<lparr>rp_user_ops := rp_user_ops p @ option_list (map_option fst op),
       rp_signal_slots := rp_signal_slots p @ option_list (map_option snd op) @ option_list hint\<rparr>"
  define m2 where "m2 = m\<lparr>pending_return_signal := None,
       rm_builder := (rm_builder m)\<lparr>rt_current := Some p2\<rparr>, pending_mempool_tx_hash := None\<rparr>"
  have cur2: "rt_current (rm_builder m2) = Some p2" by (simp add: m2_def)
  from run have "bind (case pending_mempool_tx_hash m of
             Some h \<Rightarrow> bind (rm_b (add_l2_mempool_tx_hash h)) (\<lambda>_. rm_bridge (set_by_hash (rts N) h OpPending))
           | None \<Rightarrow> return ()) (\<lambda>_.
     bind (lift (u48_from (resp_number blk))) (\<lambda>number.
     bind (rm_b (set_proposal_checkpoint \<lparr>cp_block_number = number, cp_block_hash = resp_hash blk,
             cp_state_root = resp_state_root blk\<rparr>)) (\<lambda>_.
     bind (rm_world (find_l1_call (rts N) (resp_number blk) (resp_state_root blk) hint)) (\<lambda>call.
     bind (case call of Some c \<Rightarrow> rm_b (add_l1_call c) | None \<Rightarrow> return ()) (\<lambda>_.
     return blk))))) (m2, s) = (Ok r, (m', s'))"
    using cur by (simp add: commit_block_def bind_commit hint m2_def p2_def)
  then obtain t where store: "(case pending_mempool_tx_hash m of
             Some h \<Rightarrow> bind (rm_b (add_l2_mempool_tx_hash h)) (\<lambda>_. rm_bridge (set_by_hash (rts N) h OpPending))
           | None \<Rightarrow> return ()) (m2, s) = (Ok (), t)"
    and rest: "bind (lift (u48_from (resp_number blk))) (\<lambda>number.
     bind (rm_b (set_proposal_checkpoint \<lparr>cp_block_number = number, cp_block_hash = resp_hash blk,
             cp_state_root = resp_state_root blk\<rparr>)) (\<lambda>_.
     bind (rm_world (find_l1_call (rts N) (resp_number blk) (resp_state_root blk) hint)) (\<lambda>call.
     bind (case call of Some c \<Rightarrow> rm_b (add_l1_call c) | None \<Rightarrow> return ()) (\<lambda>_.
     return blk)))) t = (Ok r, (m', s'))"
    unfolding bind_Ok_iff [of "case_option _ _ _"] by auto
  from commit_mempool_tx [OF cur2 store] obtain b w where t: "t = (m2\<lparr>rm_builder := (rm_builder m2)\<lparr>rt_current := Some (p2\<lparr>
       rp_l2_mempool_tx_hashes := rp_l2_mempool_tx_hashes p2 @ option_list (pending_mempool_tx_hash m)\<rparr>)\<rparr>\<rparr>, b, w)"
    by (metis surj_pair)
  from rest obtain number where number: "u48_from (resp_number blk) = Ok number"
    by (cases "u48_from (resp_number blk)") simp_all
  from rest [unfolded t number] obtain call w' where
    call: "find_l1_call (rts N) (resp_number blk) (resp_state_root blk) hint w = (Ok call, w')" and "r = blk"
    and "m' = m2\<lparr>rm_builder := (rm_builder m2)\<lparr>rt_current := Some (p2\<lparr>
       rp_l2_mempool_tx_hashes := rp_l2_mempool_tx_hashes p2 @ option_list (pending_mempool_tx_hash m),
       rp_checkpoint := \<lparr>cp_block_number = number, cp_block_hash = resp_hash blk, cp_state_root = resp_state_root blk\<rparr>,
       rp_l1_calls := rp_l1_calls p2 @ option_list call\<rparr>)\<rparr>\<rparr>"
    by (auto simp: bind_commit bind_Ok_iff [of "rm_world _"] rm_world_Ok_iff return_def)
  moreover have "set (map required_return_signal (option_list call)) \<subseteq> {hint}"
    using find_l1_call_required call by (cases call) fastforce+
  ultimately show thesis
    using number by (intro that [of "p2\<lparr>
       rp_l2_mempool_tx_hashes := rp_l2_mempool_tx_hashes p2 @ option_list (pending_mempool_tx_hash m),
       rp_checkpoint := \<lparr>cp_block_number = number, cp_block_hash = resp_hash blk, cp_state_root = resp_state_root blk\<rparr>,
       rp_l1_calls := rp_l1_calls p2 @ option_list call\<rparr>" "option_list call"]) (simp_all add: m2_def p2_def)
qed

lemma scan_mempool_frame:
  fixes N :: "('w, 'tx) node_services"
  assumes "scan_mempool N txs (m, s) = (r, (m', s'))"
  shows "rm_builder m' = rm_builder m \<and> rm_submitter m' = rm_submitter m"
proof -
  have "keeps (on_rm (\<lambda>m'. rm_builder m' = rm_builder m \<and> rm_submitter m' = rm_submitter m)) (scan_mempool N txs)"
    by (rule keeps_scan_mempool) simp
  from tripleD [OF this _ assms] show ?thesis by simp
qed

lemma add_pending_user_ops_frame:
  fixes N :: "('w, 'tx) node_services"
  assumes "add_pending_user_ops_to_draft_block N d fee (m, s) = (r, (m', s'))"
  shows "m' = m"
  using tripleD [OF keeps_add_pending_user_ops [of "\<lambda>m'. m' = m" N d fee] _ assms] by simp

lemma add_pending_user_ops_Ok:
  assumes "add_pending_user_ops_to_draft_block N d fee (m, s) = (Ok (d', pending), (m', s'))"
  obtains "pending = None" "d' = d"
  | tx x where "pending = Some x"
    "d' = d\<lparr>d_prebuilt_tx_list := push_tx (rlp_encode (svc N)) (d_prebuilt_tx_list d) tx\<rparr>"
  using assms
  by (auto simp: add_pending_user_ops_to_draft_block_def bind_Ok_iff return_def split: option.splits)

text \<open>The stages of adding a draft that succeeds.\<close>

lemma add_draft_block_Ok:
  assumes "rm_add_draft_block_to_proposal N d ctx op (m, s) = (Ok resp, (m', s'))"
  obtains d' pending m2 b2 w2 w3 payload b1 blk s1 where
    "add_pending_user_ops_to_draft_block N d (base_fee (slot_info ctx)) (m, s) = (Ok (d', pending), (m, s1))"
    "rm_builder m2 = rm_builder m" "rt_add_l2_draft_block d' (rm_builder m) = (Ok payload, b1)"
    "rt_advance_head N payload ctx (option_list (map_option snd pending) @ option_list (pending_return_signal m2)) op w2 =
       (Ok blk, w3)"
    "commit_block N pending (pending_return_signal m2) blk (m2\<lparr>rm_builder := b1\<rparr>, b2, w3) = (Ok resp, (m', s'))"
proof -
  from assms obtain d' pending s1 m1 where
    user: "add_pending_user_ops_to_draft_block N d (base_fee (slot_info ctx)) (m, s) = (Ok (d', pending), (m1, s1))"
    and rest: "bind (scan_mempool N (tx_list (d_prebuilt_tx_list d'))) (\<lambda>_.
     bind (rm_get pending_return_signal) (\<lambda>hint.
     let anchor_signal_slots = (case pending of Some (_, sl) \<Rightarrow> [sl] | None \<Rightarrow> []) @
           (case hint of Some sl \<Rightarrow> [sl] | None \<Rightarrow> []) in
     bind (rm_b (rt_add_l2_draft_block d')) (\<lambda>payload.
     attempt (rm_world (rt_advance_head N payload ctx anchor_signal_slots op))
       (commit_block N pending hint)
       (\<lambda>err. bind (rm_b rt_remove_last_l2_block) (\<lambda>_.
               raise (Anyhow ''Failed to advance head to new L2 block'')))))) (m1, s1) = (Ok resp, (m', s'))"
    by (auto simp: rm_add_draft_block_to_proposal_def bind_Ok_iff [of "add_pending_user_ops_to_draft_block N d _"])
  from rest obtain m2 s2 where scan: "scan_mempool N (tx_list (d_prebuilt_tx_list d')) (m1, s1) = (Ok (), (m2, s2))"
    and rest2: "bind (rm_b (rt_add_l2_draft_block d')) (\<lambda>payload.
     attempt (rm_world (rt_advance_head N payload ctx
         ((case pending of Some (_, sl) \<Rightarrow> [sl] | None \<Rightarrow> []) @
           (case pending_return_signal m2 of Some sl \<Rightarrow> [sl] | None \<Rightarrow> [])) op))
       (commit_block N pending (pending_return_signal m2))
       (\<lambda>err. bind (rm_b rt_remove_last_l2_block) (\<lambda>_.
               raise (Anyhow ''Failed to advance head to new L2 block'')))) (m2, s2) = (Ok resp, (m', s'))"
    by (auto simp: bind_Ok_iff [of "scan_mempool N _"] Let_def)
  let ?hint = "pending_return_signal m2"
  let ?slots = "option_list (map_option snd pending) @ option_list ?hint"
  have slots: "(case pending of Some (_, sl) \<Rightarrow> [sl] | None \<Rightarrow> []) @ (case ?hint of Some sl \<Rightarrow> [sl] | None \<Rightarrow> []) = ?slots"
    by (auto simp: option_list_def split: option.splits)
  have m: "m1 = m" "rm_builder m2 = rm_builder m"
    using add_pending_user_ops_frame [OF user] scan_mempool_frame [OF scan] by simp_all
  from rest2 [unfolded slots] obtain payload b1 where b1: "rt_add_l2_draft_block d' (rm_builder m) = (Ok payload, b1)"
    and rest3: "attempt (rm_world (rt_advance_head N payload ctx ?slots op)) (commit_block N pending ?hint)
       (\<lambda>err. bind (rm_b rt_remove_last_l2_block) (\<lambda>_.
               raise (Anyhow ''Failed to advance head to new L2 block''))) (m2\<lparr>rm_builder := b1\<rparr>, s2) = (Ok resp, (m', s'))"
    by (auto simp: bind_Ok_iff [of "rm_b _"] rm_b_Ok_iff m)
  obtain b2 w2 where s2: "s2 = (b2, w2)" by fastforce
  from rest3 obtain blk w3 where adv: "rt_advance_head N payload ctx ?slots op w2 = (Ok blk, w3)"
    and commit: "commit_block N pending ?hint blk (m2\<lparr>rm_builder := b1\<rparr>, b2, w3) = (Ok resp, (m', s'))"
    by (auto simp: attempt_Ok_iff rm_world_Ok_iff bind_Ok_iff raise_def s2)
  show thesis
    using user m(1) by (intro that [OF _ m(2) b1 adv commit]) simp
qed



section \<open>A block that the driver refuses\<close>

lemma add_then_remove:
  assumes "rt_add_l2_draft_block d b = (Ok payload, b1)" "rt_remove_last_l2_block b1 = (r, b2)"
  shows "r = Ok () \<and> (b2 = b \<or> open_list (log_of b) = [] \<and> b2 = b\<lparr>rt_current := None\<rparr>)"
proof -
  from assms(1) obtain p bytes where p: "rt_current b = Some p"
    and bytes: "unat bytes = unat (rp_total_bytes p) + unat (draft_bytes d)"
    and b1: "b1 = b\<lparr>rt_current := Some (p\<lparr>rp_total_bytes := bytes,
        rp_l2_blocks := rp_l2_blocks p @ [rt_create_block_from_draft p d]\<rparr>)\<rparr>"
    by (rule rt_add_l2_draft_block_Ok)
  from bytes have "sub bytes (block_bytes (rt_create_block_from_draft p d)) = Ok (rp_total_bytes p)" by simp
  moreover have "b\<lparr>rt_current := Some p\<rparr> = b" using p by (cases b) simp
  ultimately show ?thesis
    using assms(2) p by (auto simp: b1 rt_remove_last_l2_block_def log_of_def Let_def simp del: sub_Ok_iff split: if_splits)
qed

lemma next_user_op_queue:
  assumes "next_user_op R (b, w) = (r, (b', w'))"
  shows "rx b' = tl (rx b)"
proof (cases "rx b")
  case Nil
  with assms show ?thesis by (auto simp: next_user_op_def b_get_def bind_def gets_def return_def)
next
  case (Cons x rest)
  with next_user_op_frame [OF assms Cons] show ?thesis by simp
qed

lemma add_pending_user_ops_queue:
  fixes N :: "('w, 'tx) node_services"
  assumes "add_pending_user_ops_to_draft_block N d fee (m, b, w) = (r, (m', b', w'))"
  shows "rx b' = tl (rx b)"
proof -
  let ?Q = "(\<lambda>(m, b', w). rx b' = tl (rx b)) :: ('w, 'tx) rmstate \<Rightarrow> bool"
  have world: "keeps ?Q (rm_world y)" for y :: "('w, 'c) action"
    by (auto simp: triple_def rm_world_def rm_bridge_def b_world_def zoom_def split: prod.splits)
  have next_op: "triple (\<lambda>(m, b', w). rx b' = rx b) (rm_bridge (next_user_op (rts N))) (\<lambda>_. ?Q)"
    by (rule tripleI) (auto simp: rm_bridge_def zoom_def split: prod.splits dest!: next_user_op_queue)
  have rest: "keeps ?Q (case routed of None \<Rightarrow> return (d, None)
     | Some (op, message_from_l1, signal_slot_on_l2) \<Rightarrow>
         bind (rm_world (construct_l2_call_tx (rts N) message_from_l1 fee)) (\<lambda>tx.
         return (d\<lparr>d_prebuilt_tx_list := push_tx (rlp_encode (svc N)) (d_prebuilt_tx_list d) tx\<rparr>,
                 Some (op, signal_slot_on_l2))))" for routed
    by (intro keeps_rules world)
  have "triple (\<lambda>(m, b', w). rx b' = rx b) (add_pending_user_ops_to_draft_block N d fee) (\<lambda>_. ?Q)"
    unfolding add_pending_user_ops_to_draft_block_def
    by (rule triple_bind [where R = "\<lambda>_. ?Q", OF triple_conseq [OF next_op] rest]) (auto split: outcome.splits)
  from tripleD [OF this _ assms] show ?thesis by simp
qed

definition driver_refuses :: "('w, 'tx) node_services \<Rightarrow> l2_slot_context \<Rightarrow> operation_type \<Rightarrow> bool" where
  "driver_refuses N ctx op \<longleftrightarrow> (\<forall>payload slots w. \<not> is_ok (fst (rt_advance_head N payload ctx slots op w)))"

lemma refused_tail:
  fixes N :: "('w, 'tx) node_services"
  assumes "driver_refuses N ctx op"
  shows "triple (\<lambda>(m', b', w'). rm_builder m' = b \<and> rx b' = q)
     (bind (rm_b (rt_add_l2_draft_block d)) (\<lambda>payload.
      attempt (rm_world (rt_advance_head N payload ctx slots op)) k
       (\<lambda>err. bind (rm_b rt_remove_last_l2_block) (\<lambda>_. raise (Anyhow msg)))))
     (\<lambda>r (m', b', w'). r \<noteq> Panic \<longrightarrow> rx b' = q \<and> (rm_builder m' = b \<or>
        open_list (log_of b) = [] \<and> rm_builder m' = b\<lparr>rt_current := None\<rparr>))"
proof (rule tripleI, clarify)
  fix m b2 w r m' b' w'
  assume run: "bind (rm_b (rt_add_l2_draft_block d)) (\<lambda>payload.
      attempt (rm_world (rt_advance_head N payload ctx slots op)) k
       (\<lambda>err. bind (rm_b rt_remove_last_l2_block) (\<lambda>_. raise (Anyhow msg)))) (m, b2, w) = (r, (m', b', w'))" and "r \<noteq> Panic"
  obtain r1 b1 where add: "rt_add_l2_draft_block d (rm_builder m) = (r1, b1)" by fastforce
  have same: "b1 = rm_builder m" if "\<not> is_ok r1"
    using add that by (auto simp: rt_add_l2_draft_block_def rt_on_current_def split: option.splits outcome.splits)
  have keep: "m\<lparr>rm_builder := rm_builder m\<rparr> = m" by simp
  show "rx b' = rx b2 \<and> (rm_builder m' = rm_builder m \<or>
        open_list (log_of (rm_builder m)) = [] \<and> rm_builder m' = (rm_builder m)\<lparr>rt_current := None\<rparr>)"
  proof (cases r1)
    case (Ok payload)
    obtain x w1 where adv: "rt_advance_head N payload ctx slots op w = (x, w1)" by fastforce
    then have x: "\<not> is_ok x" using assms unfolding driver_refuses_def by (metis fst_conv)
    obtain r2 b3 where rm: "rt_remove_last_l2_block b1 = (r2, b3)" by fastforce
    from run \<open>r \<noteq> Panic\<close> add Ok adv rm x have "m' = m\<lparr>rm_builder := b3\<rparr>" "b' = b2"
      by (cases x; cases r2; simp add: bind_def rm_b_def zoom_def attempt_def rm_world_def rm_bridge_def b_world_def raise_def)+
    with add_then_remove [OF add [unfolded Ok] rm] show ?thesis by auto
  qed (use run add same keep in \<open>simp_all add: bind_def rm_b_def zoom_def\<close>)
qed

lemma refused_head:
  fixes N :: "('w, 'tx) node_services"
  shows "triple (\<lambda>(m, b', w). rm_builder m = b \<and> rx b' = q) (add_pending_user_ops_to_draft_block N d fee)
      (\<lambda>_ (m, b', w). rm_builder m = b \<and> rx b' = tl q)"
    and "keeps (\<lambda>(m, b', w). rm_builder m = b \<and> rx b' = q) (scan_mempool N txs)"
proof -
  show "triple (\<lambda>(m, b', w). rm_builder m = b \<and> rx b' = q) (add_pending_user_ops_to_draft_block N d fee)
      (\<lambda>_ (m, b', w). rm_builder m = b \<and> rx b' = tl q)"
  proof (rule tripleI, clarify)
    fix m b' w r m1 b1 w1
    assume run: "add_pending_user_ops_to_draft_block N d fee (m, b', w) = (r, (m1, b1, w1))"
    from add_pending_user_ops_frame [OF run] add_pending_user_ops_queue [OF run]
    show "rm_builder m1 = rm_builder m \<and> rx b1 = tl (rx b')" by simp
  qed
  let ?Q = "(\<lambda>(m, b', w). rm_builder m = b \<and> rx b' = q) :: ('w, 'tx) rmstate \<Rightarrow> bool"
  have world: "keeps ?Q (rm_world y)" for y :: "('w, 'c) action"
    by (auto simp: triple_def rm_world_def rm_bridge_def b_world_def zoom_def split: prod.splits)
  have set: "keeps ?Q (rm_set (\<lambda>m. m\<lparr>pending_return_signal := x, pending_mempool_tx_hash := y\<rparr>))" for x y
    unfolding rm_set_def by (rule keeps_modify) auto
  show "keeps ?Q (scan_mempool N txs)"
  proof (induction txs)
    case (Cons tx txs)
    show ?case unfolding scan_mempool.simps by (intro keeps_rules Cons.IH set world)
  qed (simp add: keeps_return)
qed

text \<open>
  A block that the driver refuses leaves no trace in the batches: whatever else happens while
  the block is prepared, short of a panic, the builder afterwards is the one from before, only that a batch which had
  no block yet is dropped. The user operation that was taken from the queue for this block is gone.
\<close>
lemma refused_block_undone:
  assumes "driver_refuses N ctx op"
    and "rm_add_draft_block_to_proposal N d ctx op (m, b, w) = (r, (m', b', w'))" "r \<noteq> Panic"
  shows "rx b' = tl (rx b) \<and> (rm_builder m' = rm_builder m \<or>
    open_list (log_of (rm_builder m)) = [] \<and> rm_builder m' = (rm_builder m)\<lparr>rt_current := None\<rparr>)"
proof -
  let ?P = "\<lambda>q (m', b', w'). rm_builder m' = rm_builder m \<and> rx b' = q"
  let ?Q = "\<lambda>r (m', b', w'). r \<noteq> Panic \<longrightarrow> rx b' = tl (rx b) \<and> (rm_builder m' = rm_builder m \<or>
    open_list (log_of (rm_builder m)) = [] \<and> rm_builder m' = (rm_builder m)\<lparr>rt_current := None\<rparr>)"
  have hint: "triple (?P q) (bind (rm_get pending_return_signal) f) ?Q" if "\<And>h. triple (?P q) (f h) ?Q" for q f
    using that by (auto simp: triple_def rm_get_def)
  have "triple (?P (rx b)) (rm_add_draft_block_to_proposal N d ctx op) ?Q"
    unfolding rm_add_draft_block_to_proposal_def Let_def
  proof (rule triple_bind [where R = "\<lambda>_. ?P (tl (rx b))"])
    show "triple (?P (rx b)) (add_pending_user_ops_to_draft_block N d (base_fee (slot_info ctx)))
       (\<lambda>r s. case r of Ok a \<Rightarrow> ?P (tl (rx b)) s | Err e \<Rightarrow> ?Q (Err e) s | Panic \<Rightarrow> ?Q Panic s)"
      by (rule triple_conseq [OF refused_head(1)]) (auto split: outcome.splits)
  next
    fix a :: "'b l2_block_draft \<times> (user_op \<times> b256) option"
    obtain d' pending where a: "a = (d', pending)" by (cases a)
    show "triple (?P (tl (rx b))) (case a of (d, pending_user_op) \<Rightarrow>
        bind (scan_mempool N (tx_list (d_prebuilt_tx_list d))) (\<lambda>_.
        bind (rm_get pending_return_signal) (\<lambda>hint.
        bind (rm_b (rt_add_l2_draft_block d)) (\<lambda>payload.
        attempt (rm_world (rt_advance_head N payload ctx
            ((case pending_user_op of Some (_, sl) \<Rightarrow> [sl] | None \<Rightarrow> []) @
             (case hint of Some sl \<Rightarrow> [sl] | None \<Rightarrow> [])) op))
          (commit_block N pending_user_op hint)
          (\<lambda>err. bind (rm_b rt_remove_last_l2_block) (\<lambda>_.
                  raise (Anyhow ''Failed to advance head to new L2 block''))))))) ?Q"
      unfolding a prod.case
      by (rule triple_bind_keeps [OF refused_head(2)], rule hint, rule refused_tail [OF assms(1)]) auto
  qed
  from tripleD [OF this _ assms(2)] assms(3) show ?thesis by simp
qed

section \<open>Going back to the last proposed block\<close>

lemma scan_back_stable:
  assumes "\<And>n. get_l2_block_hash S n w = (Ok (H n), w)"
  shows "scan_back S h ns w = (Ok (List.find (\<lambda>n. H n = h) ns), w)"
  by (induction ns) (simp_all add: return_def bind_def assms)

lemma find_rev_upt:
  assumes "k \<le> 2 ^ 64"
  shows "List.find P (rev (map of_nat [0..<k])) = Some (n :: u64) \<longleftrightarrow>
    unat n < k \<and> P n \<and> (\<forall>j. unat n < unat j \<and> unat j < k \<longrightarrow> \<not> P j)"
  using assms
proof (induction k)
  case (Suc k)
  then have k: "unat (of_nat k :: u64) = k" by (simp add: unat_of_nat_lt)
  then have top: "unat j = k \<longleftrightarrow> j = of_nat k" for j :: u64 by (metis word_unat_eq_iff)
  from Suc have "k \<le> 2 ^ 64" by simp
  note IH = Suc.IH [OF this]
  show ?case
  proof (cases "P (of_nat k)")
    case True
    then have "List.find P (rev (map of_nat [0..<Suc k])) = Some n \<longleftrightarrow> unat n = k"
      using top [of n] by auto
    moreover have "unat n = k" if "unat n < Suc k" "\<forall>j. unat n < unat j \<and> unat j < Suc k \<longrightarrow> \<not> P j"
      using that(1) that(2) [rule_format, of "of_nat k"] True unfolding k by linarith
    moreover have "unat n < Suc k \<and> P n \<and> (\<forall>j. unat n < unat j \<and> unat j < Suc k \<longrightarrow> \<not> P j)" if "unat n = k"
      using that True top [of n] by auto
    ultimately show ?thesis by blast
  next
    case False
    then show ?thesis using k top IH by (auto simp: less_Suc_eq)
  qed
qed simp

lemma find_rev_range:
  "List.find P (rev (range_incl 0 head)) = Some n \<longleftrightarrow>
     n \<le> head \<and> P n \<and> (\<forall>k. n < k \<and> k \<le> head \<longrightarrow> \<not> P k)"
  using find_rev_upt [of "Suc (unat head)" P n] unat_lt_len [of head]
  by (simp add: range_incl_def word_le_nat_alt word_less_nat_alt less_Suc_eq_le del: upt_Suc)

text \<open>
  On a chain whose answers do not change, the search for the last proposed block finds the
  highest block with the given hash, and fails exactly if no block has it - unless the head is the
  last number there is, when the error message itself overflows.
\<close>
lemma find_l2_block_number_iff:
  assumes "get_latest_l2_block_id S w = (Ok head, w)" and "\<And>n. get_l2_block_hash S n w = (Ok (H n), w)"
  shows "(find_l2_block_number_by_hash S h w = (Ok n, w) \<longleftrightarrow>
      n \<le> head \<and> H n = h \<and> (\<forall>k. n < k \<and> k \<le> head \<longrightarrow> H k \<noteq> h)) \<and>
    ((\<exists>e. find_l2_block_number_by_hash S h w = (Err e, w)) \<longleftrightarrow> (\<forall>k \<le> head. H k \<noteq> h) \<and> head \<noteq> - 1)"
proof -
  let ?r = "List.find (\<lambda>n. H n = h) (rev (range_incl 0 head))"
  have run: "find_l2_block_number_by_hash S h w = (case ?r of Some n \<Rightarrow> (Ok n, w) | None \<Rightarrow>
      (case add head 1 of Ok _ \<Rightarrow> (Err (Anyhow ''L2 block with hash not found on Geth''), w) | Err e \<Rightarrow> (Err e, w) | Panic \<Rightarrow> (Panic, w)))"
    by (simp add: find_l2_block_number_by_hash_def bind_def assms(1) scan_back_stable [OF assms(2)] return_def
        lift_def raise_def split: option.splits outcome.splits del: add_Ok_iff add_Panic_iff)
  have none: "?r = None \<longleftrightarrow> (\<forall>k \<le> head. H k \<noteq> h)"
    by (auto simp: find_None_iff set_range_incl)
  have over: "add head 1 = Panic \<longleftrightarrow> head = - 1"
    using unat_lt_len [of head] by (auto simp: word_unat_eq_iff unsigned_minus_1_eq_mask mask_eq_exp_minus_1)
  show ?thesis
  proof (cases ?r)
    case None
    then show ?thesis using run none over find_rev_range [of "\<lambda>n. H n = h" head n]
      by (cases "add head 1") (auto simp del: add_Ok_iff add_Panic_iff)
  next
    case (Some k)
    then show ?thesis using run none find_rev_range [of "\<lambda>n. H n = h" head n] by auto
  qed
qed

text \<open>
  C39: Any failure of the search, a failed request to the L2 node included, is taken for \<^emph>\<open>nothing has been
  proposed yet\<close>: the manager then has the whole chain removed down to the genesis block, publishes 0
  as the last finalized block, and reports success.
\<close>
theorem failed_search_reorgs_to_genesis:
  assumes "get_last_finalized_block_hash N w = (Ok h, w1)" "h \<noteq> 0"
    and "find_l2_block_number_by_hash (svc N) h w1 = (Err e, w2)"
    and "get_latest_l2_block_id (svc N) w2 = (Ok head, w3)" "0 < head"
    and "driver_reorg_stale_block N 0 w3 = (Ok x, w4)"
  shows "reorg_unproposed_blocks N (m, b, w) =
    (Ok (), (m\<lparr>rm_last_finalized_block_hash := h\<rparr>, b\<lparr>last_finalized_block_number := 0\<rparr>, w4))"
proof -
  have "sub head 0 = Ok head" "\<exists>x. add (0 :: u64) 1 = Ok x" by (auto simp: ex_unat_iff)
  with assms show ?thesis
    by (auto simp: reorg_unproposed_blocks_def or_value_def attempt_def bind_def rm_world_def rm_bridge_def
        b_world_def b_set_def zoom_def return_def lift_def modify_def rm_set_def simp del: sub_Ok_iff add_Ok_iff)
qed

section \<open>A small manager\<close>

definition demo_nodes :: "(unit, nat) node_services" where
  "demo_nodes =
     \<lparr>submission = demo_good, inbox_last_finalized_block_hash = return 4,
      driver_reorg_stale_block = (\<lambda>n. return (ucast n, 10 - n)),
      sign_anchor_with_slots = (\<lambda>nonce fee cp slots. Ok 99),
      abi_anchor_with_slots = (\<lambda>bs. Some \<lparr>cp_block_number = 2, cp_block_hash = 1, cp_state_root = 1\<rparr>)\<rparr>"

definition demo_rt_manager :: "nat rt_manager" where
  "demo_rt_manager = (rt_manager_new 8 demo_batch_config mainnet_clock 4)\<lparr>rm_builder := demo_rt_builder1\<rparr>"

definition demo_rt_context :: l2_slot_context where
  "demo_rt_context =
     \<lparr>slot_info = \<lparr>base_fee = 7, slot_timestamp = 2002, parent_id = 10, parent_hash = 10,
        parent_gas_limit_without_anchor = 30, parent_timestamp = 2000\<rparr>, end_of_sequencing = False\<rparr>"

definition demo_rt_draft :: "nat l2_block_draft" where
  "demo_rt_draft = \<lparr>d_prebuilt_tx_list = pre_built_empty, d_timestamp_sec = 2002, d_gas_limit_without_anchor = 30\<rparr>"

lemmas demo_node_defs = demo_nodes_def demo_good_def demo_submit_defs demo_rt_manager_def rt_manager_new_def
  demo_rt_builder1_def demo_rt_builder_def rt_builder_new_def demo_rt_context_def

lemmas rm_eval = rm_b_def rm_bridge_def rm_world_def rm_get_def rm_set_def b_world_def b_get_def b_set_def zoom_def
  bind_def attempt_def return_def raise_def lift_def gets_def modify_def

lemma demo_svc: "svc demo_nodes = demo_services\<lparr>compress_manifest := (\<lambda>ms. Some (replicate 64 0 @ [3, 4]))\<rparr>"
  by (simp add: demo_nodes_def demo_good_def demo_long_frames_def demo_submit_def demo_propose_def demo_rt_services_def)

lemma demo_chain:
  "get_latest_l2_block_id (svc demo_nodes) () = (Ok 10, ())"
  "get_l2_block_hash (svc demo_nodes) n () = (Ok (ucast n), ())"
  unfolding demo_svc
  by (simp_all add: get_latest_l2_block_id_def get_latest_block_id_def get_l2_block_hash_def get_block_hash_def
      get_block_header_def map_err_def demo_services_def demo_provider_def demo_block_def rm_eval)

definition demo_lagging :: "(unit, nat) node_services" where
  "demo_lagging = demo_nodes\<lparr>inbox_last_finalized_block_hash := return 400\<rparr>"

theorem failed_search_reorgs_to_genesis_witness:
  "\<exists>e. find_l2_block_number_by_hash (svc demo_lagging) 400 () = (Err e, ()) \<and>
   reorg_unproposed_blocks demo_lagging (demo_rt_manager, demo_bridge, ()) =
     (Ok (), (demo_rt_manager\<lparr>rm_last_finalized_block_hash := 400\<rparr>, demo_bridge\<lparr>last_finalized_block_number := 0\<rparr>, ()))"
proof -
  have chain: "get_latest_l2_block_id (svc demo_lagging) () = (Ok 10, ())"
    "get_l2_block_hash (svc demo_lagging) n () = (Ok (ucast n), ())" for n
    using demo_chain by (simp_all add: demo_lagging_def)
  have none: "(ucast (k :: u64) :: b256) \<noteq> 400" if "k \<in> set (rev (range_incl 0 10))" for k
    using that by (auto simp: range_incl_def upt_rec)
  have "scan_back (svc demo_lagging) 400 (rev (range_incl 0 10)) () = (Ok None, ())"
    using scan_back_stable [OF chain(2), of 400] none by (simp add: find_None_iff)
  then obtain e where find: "find_l2_block_number_by_hash (svc demo_lagging) 400 () = (Err e, ())"
    by (simp add: find_l2_block_number_by_hash_def bind_def chain raise_def lift_def eval_arith del: add_Ok_iff)
  have last: "get_last_finalized_block_hash demo_lagging () = (Ok 400, ())"
    by (simp add: get_last_finalized_block_hash_def demo_lagging_def map_err_def attempt_def return_def)
  have reorg: "driver_reorg_stale_block demo_lagging 0 () = (Ok (0, 10), ())"
    by (simp add: demo_lagging_def demo_nodes_def return_def)
  from failed_search_reorgs_to_genesis [OF last _ find chain(1) _ reorg] find show ?thesis by simp
qed

definition demo_filled :: "nat l2_block_draft" where
  "demo_filled = demo_rt_draft\<lparr>d_prebuilt_tx_list := push_tx (rlp_encode demo_services) pre_built_empty 77\<rparr>"

lemma demo_next_user_op:
  assumes "rts N = rts demo_nodes"
  shows "add_pending_user_ops_to_draft_block N demo_rt_draft 7 (m, demo_bridge, ()) =
     (Ok (demo_filled, Some (demo_user_op\<lparr>uo_id := 1\<rparr>, 500)), (m, demo_bridge\<lparr>rx := []\<rparr>, ()))"
  by (simp add: add_pending_user_ops_to_draft_block_def next_user_op_def l1_find_message_and_signal_slot_def
      collect_all_logs_def collect_loop.simps topics_of_def construct_l2_call_tx_def map_err_def demo_bridge_def assms
      demo_filled_def demo_rt_draft_def demo_nodes_def demo_good_def demo_submit_defs rm_eval Let_def demo_provider_def)

lemma demo_scan:
  assumes "rts N = rts demo_nodes"
  shows "scan_mempool N [77] (m, b, ()) = (Ok (), (m, b, ()))"
  by (simp add: trace_tx_for_outbound_message_def simulate_l1_callback_return_signal_def send_message_of_def assms
      map_err_def try_run_def demo_nodes_def demo_good_def demo_submit_defs rm_eval Let_def SEND_MESSAGE_SELECTOR_def)

lemma demo_drafted:
  assumes "rts N = rts demo_nodes"
  shows "rm_add_draft_block_to_proposal N demo_rt_draft demo_rt_context op (demo_rt_manager, demo_bridge, ()) =
    bind (rm_b (rt_add_l2_draft_block demo_filled)) (\<lambda>payload.
     attempt (rm_world (rt_advance_head N payload demo_rt_context [500] op))
       (commit_block N (Some (demo_user_op\<lparr>uo_id := 1\<rparr>, 500)) None)
       (\<lambda>err. bind (rm_b rt_remove_last_l2_block) (\<lambda>_.
               raise (Anyhow ''Failed to advance head to new L2 block''))))
     (demo_rt_manager, demo_bridge\<lparr>rx := []\<rparr>, ())"
proof -
  have user: "bind (add_pending_user_ops_to_draft_block N demo_rt_draft 7) f (m, demo_bridge, ()) =
      f (demo_filled, Some (demo_user_op\<lparr>uo_id := 1\<rparr>, 500)) (m, demo_bridge\<lparr>rx := []\<rparr>, ())"
    and scan: "bind (scan_mempool N [77]) g (m, b, ()) = g () (m, b, ())" for f g m b
    by (simp_all add: bind_def demo_next_user_op [OF assms] demo_scan [OF assms] del: scan_mempool.simps)
  have txs: "tx_list (d_prebuilt_tx_list demo_filled) = [77]"
    by (simp add: demo_filled_def push_tx_def pre_built_empty_def)
  have fee: "base_fee (slot_info demo_rt_context) = 7" by (simp add: demo_rt_context_def)
  have none: "pending_return_signal demo_rt_manager = None" by (simp add: demo_rt_manager_def rt_manager_new_def)
  show ?thesis
    unfolding rm_add_draft_block_to_proposal_def fee user prod.case txs scan bind_rm_get none
    by (simp add: Let_def)
qed

definition demo_refusing :: "(unit, nat) node_services" where
  "demo_refusing = demo_nodes\<lparr>sign_anchor_with_slots := (\<lambda>nonce fee cp slots. Err (Anyhow ''no signature''))\<rparr>"

lemma demo_refuses: "driver_refuses demo_refusing ctx op"
  by (auto simp: driver_refuses_def rt_advance_head_def rt_construct_anchor_tx_def demo_refusing_def map_err_def
      bind_def attempt_def raise_def lift_def split: prod.splits outcome.splits)

lemma demo_add_draft:
  obtains payload b1 p where "rt_add_l2_draft_block demo_filled (rm_builder demo_rt_manager) = (Ok payload, b1)"
    "rt_current b1 = Some p" "rpl_gas_limit_without_anchor payload = 30" "rpl_anchor_block_id payload = 90"
proof -
  have cur: "rt_current (rm_builder demo_rt_manager) =
      Some ((fresh_batch demo_anchor 7 0)\<lparr>rp_total_bytes := 10, rp_l2_blocks := [demo_rt_block]\<rparr>)"
    by (simp add: demo_rt_manager_def demo_rt_builder1_def)
  obtain payload b1 where run: "rt_add_l2_draft_block demo_filled (rm_builder demo_rt_manager) = (Ok payload, b1)"
    by (simp add: rt_add_l2_draft_block_def rt_on_current_def cur rt_add_draft_def rt_add_l2_block_def fresh_batch_def
        rt_create_block_from_draft_def l2_block_new_from_def demo_filled_def demo_rt_draft_def push_tx_def
        pre_built_empty_def demo_services_def eval_arith del: add_Ok_iff)
  then show thesis
    by (rule rt_add_l2_draft_block_Ok)
      (use cur in \<open>auto intro!: that [OF run] simp: fresh_batch_def demo_anchor_def demo_filled_def demo_rt_draft_def\<close>)
qed


end
