(* ===== verification/Realtime_Node.thy ===== *)
theory Realtime_Node
  imports Realtime_Manager Startup
begin

text \<open>
  \<^verbatim>\<open>src/realtime/src/node/mod.rs\<close>: the real-time node. Every heartbeat runs
  \<open>main_block_preconfirmation_step\<close>, which settles the submission in the background, preconfirms a block
  if no submission is running, and starts the next submission. After a failure the node takes the
  chain back to the last proposed block and goes on.

  The state is the record \<open>rt_node\<close>, the bridge, which it shares with the RPC server and with the
  submission task, and the shared environment. The long step of the code is cut into its
  consecutive stages.
\<close>

section \<open>State\<close>

record 'tx rt_node =
  rn_watchdog :: watchdog
  rn_operator :: operator
  rn_manager :: "'tx rt_manager"
  rn_head :: head_status
  rn_preconf_only :: bool

type_synonym ('w, 'tx) rnstate = "'tx rt_node \<times> bridge \<times> 'w env"

definition rt_node_new ::
  "('w, 'tx) services \<Rightarrow> u64 \<Rightarrow> u64 \<Rightarrow> u64 \<Rightarrow> bool \<Rightarrow> batch_builder_config \<Rightarrow> fork_info \<Rightarrow> b256 \<Rightarrow> bool \<Rightarrow>
   'tx rt_node outcome" where
  "rt_node_new S window buffer lag simulate builder_cfg info last_finalized only =
     and_then (get_l2_slots_per_epoch (slot_clock_of S)) (\<lambda>slots.
     Ok \<lparr>rn_watchdog = watchdog_new (slots div 2),
         rn_operator = operator_new window buffer simulate info 0,
         rn_manager = rt_manager_new lag builder_cfg (slot_clock_of S) last_finalized,
         rn_head = head_verifier_new, rn_preconf_only = only\<rparr>)"

definition rn_env :: "('w env, 'a) action \<Rightarrow> (('w, 'tx) rnstate, 'a) action" where
  "rn_env = zoom (\<lambda>(_, _, e). e) (\<lambda>e (n, b, _). (n, b, e))"

definition rn_world :: "('w, 'a) action \<Rightarrow> (('w, 'tx) rnstate, 'a) action" where
  "rn_world x = rn_env (on_world x)"

definition rn_mgr :: "(('w, 'tx) rmstate, 'a) action \<Rightarrow> (('w, 'tx) rnstate, 'a) action" where
  "rn_mgr = zoom (\<lambda>(n, b, e). (rn_manager n, b, world e))
     (\<lambda>(m, b, w) (n, _, e). (n\<lparr>rn_manager := m\<rparr>, b, e\<lparr>world := w\<rparr>))"

definition rn_op :: "('w ostate, 'a) action \<Rightarrow> (('w, 'tx) rnstate, 'a) action" where
  "rn_op = zoom (\<lambda>(n, _, e). (rn_operator n, e)) (\<lambda>(p, e) (n, b, _). (n\<lparr>rn_operator := p\<rparr>, b, e))"

definition rn_headv :: "(head_status, 'a) action \<Rightarrow> (('w, 'tx) rnstate, 'a) action" where
  "rn_headv = zoom (\<lambda>(n, _). rn_head n) (\<lambda>h (n, s). (n\<lparr>rn_head := h\<rparr>, s))"

definition rn_watch :: "(watchdog \<times> 'w env, 'a) action \<Rightarrow> (('w, 'tx) rnstate, 'a) action" where
  "rn_watch = zoom (\<lambda>(n, _, e). (rn_watchdog n, e)) (\<lambda>(d, e) (n, b, _). (n\<lparr>rn_watchdog := d\<rparr>, b, e))"

definition rn_get :: "('tx rt_node \<Rightarrow> 'a) \<Rightarrow> (('w, 'tx) rnstate, 'a) action" where
  "rn_get f = gets (\<lambda>(n, _). f n)"

definition rn_set :: "('tx rt_node \<Rightarrow> 'tx rt_node) \<Rightarrow> (('w, 'tx) rnstate, unit) action" where
  "rn_set f = modify (\<lambda>(n, s). (f n, s))"

definition rt_shut_down :: "string \<Rightarrow> (('w, 'tx) rnstate, 'a) action" where
  "rt_shut_down msg = bind (rn_env cancel_on_critical_error) (\<lambda>_. raise (Anyhow msg))"

section \<open>Recovery and transaction errors\<close>

definition rt_set_head :: "l2_slot_info \<Rightarrow> (('w, 'tx) rnstate, unit) action" where
  "rt_set_head info = rn_headv (modify (head_set (parent_id info) (parent_hash info)))"

definition recover_from_failed_submission :: "('w, 'tx) node_services \<Rightarrow> (('w, 'tx) rnstate, unit) action" where
  "recover_from_failed_submission N =
     bind (rn_mgr (reorg_unproposed_blocks N)) (\<lambda>_.
     bind (rn_mgr rm_reset_builder) (\<lambda>_.
     bind (rn_world (rt_get_l2_slot_info (svc N))) rt_set_head))"

definition rt_handle_transaction_error ::
  "('w, 'tx) node_services \<Rightarrow> transaction_error \<Rightarrow> (('w, 'tx) rnstate, unit) action" where
  "rt_handle_transaction_error N err =
     (case err of
        ReanchorRequired \<Rightarrow> rt_shut_down ''ReanchorRequired error received unexpectedly, exiting''
      | NotConfirmed \<Rightarrow> rt_shut_down ''Transaction not confirmed for a long time, exiting''
      | UnsupportedTransactionType \<Rightarrow> rt_shut_down ''Unsupported transaction type''
      | GetBlockNumberFailed \<Rightarrow> rt_shut_down ''Failed to get block number from L1''
      | EstimationTooEarly \<Rightarrow> return ()
      | InsufficientFunds \<Rightarrow> rt_shut_down ''Transaction reverted with InsufficientFunds error''
      | EstimationFailed \<Rightarrow> recover_from_failed_submission N
      | TransactionReverted \<Rightarrow> recover_from_failed_submission N
      | OldestForcedInclusionDue \<Rightarrow> return ()
      | NotTheOperatorInCurrentEpoch \<Rightarrow> return ()
      | BuildFailed \<Rightarrow> rt_shut_down ''Transaction build failed, exiting'')"

section \<open>Slot info and status\<close>

text \<open>\<open>get_operators_for_current_and_next_epoch\<close> of the real-time execution layer: this node, always.\<close>

definition rt_operators :: "('w, 'tx) services \<Rightarrow> 'w operator_source" where
  "rt_operators S current_slot_timestamp =
     return \<lparr>oc_timestamp = current_slot_timestamp,
             oc_operators = \<lparr>ops_current = preconfer_address S, ops_next = preconfer_address S\<rparr>\<rparr>"

definition rt_print_current_slots_info :: "('w, 'tx) services \<Rightarrow> (('w, 'tx) rnstate, unit) action" where
  "rt_print_current_slots_info S =
     bind (rn_world (system_now S)) (\<lambda>t.
     bind (lift (get_current_slot (slot_clock_of S) t)) (\<lambda>l1_slot.
     bind (lift (get_epoch_from_slot (slot_clock_of S) l1_slot)) (\<lambda>_.
     bind (lift (slot_of_epoch (slot_clock_of S) l1_slot)) (\<lambda>_.
     bind (rn_world (system_now S)) (\<lambda>t1.
     bind (rn_world (system_now S)) (\<lambda>t2.
     bind (lift (get_current_l2_slot_within_l1_slot (slot_clock_of S) t1 t2)) (\<lambda>_.
     return ())))))))"

definition rt_get_slot_info_and_status ::
  "('w, 'tx) node_services \<Rightarrow> (('w, 'tx) rnstate, l2_slot_info \<times> status \<times> 'tx pre_built_tx_list option) action" where
  "rt_get_slot_info_and_status N =
     bind (try_run (rn_world (rt_get_l2_slot_info (svc N)))) (\<lambda>l2_slot_info.
     bind (case l2_slot_info of
             Inr info \<Rightarrow> try_run (rn_op (get_status_of (rt_operators (svc N)) (svc N) info))
           | Inl _ \<Rightarrow> return (Inl (Anyhow ''Failed to get L2 slot info''))) (\<lambda>current_status.
     bind (case l2_slot_info of
             Inr info \<Rightarrow>
               if parent_gas_limit_without_anchor info \<noteq> 0
               then try_run (rn_world (get_pending_l2_tx_list_from_l2_engine (svc N) (base_fee info) 0
                      (parent_gas_limit_without_anchor info)))
               else return (Inr None)
           | Inl _ \<Rightarrow> return (Inr None)) (\<lambda>pending_tx_list.
     bind (rn_get (\<lambda>n. get_number_of_batches (rm_builder (rn_manager n)))) (\<lambda>number.
     bind (lift number) (\<lambda>_.
     bind (rt_print_current_slots_info (svc N)) (\<lambda>_.
     bind (lift (unwrap l2_slot_info)) (\<lambda>info.
     bind (lift (unwrap current_status)) (\<lambda>st.
     bind (lift (unwrap pending_tx_list)) (\<lambda>pending.
     return (info, st, pending))))))))))"

section \<open>Stages of the main step\<close>

text \<open>A failed submission: what the node does with the error.\<close>

definition handle_submission_failure ::
  "('w, 'tx) node_services \<Rightarrow> error \<Rightarrow> (('w, 'tx) rnstate, unit) action" where
  "handle_submission_failure N e =
     (case e of TxError t \<Rightarrow> rt_handle_transaction_error N t | _ \<Rightarrow> recover_from_failed_submission N)"

text \<open>Settle the submission in the background. The result tells whether the step ends here.\<close>

definition rt_settle_stage :: "('w, 'tx) node_services \<Rightarrow> (('w, 'tx) rnstate, bool) action" where
  "rt_settle_stage N =
     bind (rn_get rn_preconf_only) (\<lambda>only.
     if only then return False
     else
       bind (rn_mgr poll_submission_result) (\<lambda>result.
       case result of
         Some (Inl e) \<Rightarrow> bind (handle_submission_failure N e) (\<lambda>_. return True)
       | _ \<Rightarrow>
           bind (rn_world (try_recv_error (svc N))) (\<lambda>r.
           case r of
             Received err \<Rightarrow> bind (rt_handle_transaction_error N err) (\<lambda>_. return True)
           | ChannelEmpty \<Rightarrow> return False
           | Disconnected \<Rightarrow> rt_shut_down ''Transaction error channel disconnected'')))"

definition rt_verify_preconfed_block :: "build_preconf_block_response \<Rightarrow> (('w, 'tx) rnstate, unit) action" where
  "rt_verify_preconfed_block b =
     bind (rn_headv (verify_next_and_set (resp_number b) (resp_hash b) (resp_parent_hash b))) (\<lambda>ok.
     if ok then return ()
     else rt_shut_down ''Unexpected L2 head after preconfirmation. Restarting node...'')"

definition has_txs :: "'tx pre_built_tx_list option \<Rightarrow> bool" where
  "has_txs pending = (case pending of Some l \<Rightarrow> tx_list l \<noteq> [] | None \<Rightarrow> False)"

text \<open>The preconfirmation phase. The result tells whether the step ends here.\<close>

definition rt_preconf_stage ::
  "('w, 'tx) node_services \<Rightarrow> status \<Rightarrow> l2_slot_info \<Rightarrow> 'tx pre_built_tx_list option \<Rightarrow>
   (('w, 'tx) rnstate, bool) action" where
  "rt_preconf_stage N st info pending =
     bind (rn_get (\<lambda>n. is_submission_in_progress (rn_manager n))) (\<lambda>in_progress.
     if preconfer st \<and> driver_synced st \<and> \<not> in_progress
     then
       bind (rn_get (\<lambda>n. head_verify (parent_id info) (parent_hash info) (rn_head n))) (\<lambda>expected.
       if \<not> expected then bind (recover_from_failed_submission N) (\<lambda>_. return True)
       else
         let ctx = \<lparr>slot_info = info, end_of_sequencing = end_of_sequencing_now st\<rparr> in
         bind (rn_mgr (rm_should_new_block_be_created pending ctx)) (\<lambda>due.
         bind (gets (\<lambda>(_, b, _). has_pending_user_ops b)) (\<lambda>user_ops.
         bind (if due \<and> (has_txs pending \<or> user_ops)
               then bind (rn_mgr (rm_preconfirm_block N pending ctx)) rt_verify_preconfed_block
               else return ()) (\<lambda>_. return False))))
     else return False)"

definition rt_submit_stage :: "('w, 'tx) node_services \<Rightarrow> status \<Rightarrow> (('w, 'tx) rnstate, unit) action" where
  "rt_submit_stage N st =
     bind (rn_get rn_preconf_only) (\<lambda>only.
     if only then rn_mgr drain_finalized_batches
     else
       bind (rn_get (\<lambda>n. is_submission_in_progress (rn_manager n))) (\<lambda>in_progress.
       if submitter st \<and> \<not> in_progress
       then
         attempt (rn_mgr (try_start_submission N (preconfer st))) return
           (\<lambda>err. case err of TxError t \<Rightarrow> rt_handle_transaction_error N t | _ \<Rightarrow> raise err)
       else return ()))"

definition rt_idle_stage :: "status \<Rightarrow> (('w, 'tx) rnstate, unit) action" where
  "rt_idle_stage st =
     bind (rn_get (\<lambda>n. has_batches (rn_manager n))) (\<lambda>has.
     if \<not> submitter st \<and> \<not> preconfer st \<and> has then rn_mgr rm_reset_builder else return ())"

definition rt_main_step :: "('w, 'tx) node_services \<Rightarrow> (('w, 'tx) rnstate, unit) action" where
  "rt_main_step N =
     bind (rt_get_slot_info_and_status N) (\<lambda>(info, st, pending).
     bind (rt_settle_stage N) (\<lambda>ended.
     if ended then return ()
     else
       bind (if preconfirmation_started st then rt_set_head info else return ()) (\<lambda>_.
       bind (rt_preconf_stage N st info pending) (\<lambda>ended.
       if ended then return ()
       else bind (rt_submit_stage N st) (\<lambda>_. rt_idle_stage st)))))"

section \<open>The loop and the start\<close>

definition rt_heartbeat :: "('w, 'tx) node_services \<Rightarrow> (('w, 'tx) rnstate, unit) action" where
  "rt_heartbeat N = attempt (rt_main_step N) (\<lambda>_. rn_watch watchdog_reset) (\<lambda>_. rn_watch watchdog_increment)"

definition ask_active :: "('w, 'tx) node_services \<Rightarrow> ('w, b256 option) action" where
  "ask_active N =
     bind (get_last_finalized_block_hash N) (\<lambda>hash. return (if hash \<noteq> 0 then Some hash else None))"

definition rt_warmup ::
  "('w, 'tx) node_services \<Rightarrow> (duration \<Rightarrow> 'w \<Rightarrow> 'w) \<Rightarrow> (('w, 'tx) rnstate, unit) run" where
  "rt_warmup N sleep = (\<lambda>(n, b, e).
     case then_run (poll (ask_active N) (sleep (from_secs 12)))
            (\<lambda>_. wait_for_sent_transactions (svc N) sleep) (world e) of
       None \<Rightarrow> None
     | Some (Ok _, w) \<Rightarrow>
         Some ((if rn_preconf_only n then return () else rn_mgr (reorg_unproposed_blocks N)) (n, b, e\<lparr>world := w\<rparr>))
     | Some (Err err, w) \<Rightarrow> Some (Err err, (n, b, e\<lparr>world := w\<rparr>))
     | Some (Panic, w) \<Rightarrow> Some (Panic, (n, b, e\<lparr>world := w\<rparr>)))"

definition rt_entrypoint ::
  "('w, 'tx) node_services \<Rightarrow> (duration \<Rightarrow> 'w \<Rightarrow> 'w) \<Rightarrow> (('w, 'tx) rnstate, unit) run" where
  "rt_entrypoint N sleep s =
     (case rt_warmup N sleep s of
        Some (Err err, t) \<Rightarrow> Some (bind (rn_env cancel_on_critical_error) (\<lambda>_. raise err) t)
      | r \<Rightarrow> r)"

text \<open>
  The process: a heartbeat, as long as the token is not cancelled; the background task that takes
  the running submission to its end; and the other tasks, which use the bridge, change the world
  and can cancel the token.
\<close>

inductive rt_node_step :: "('w, 'tx) node_services \<Rightarrow> ('w, 'tx) rnstate \<Rightarrow> ('w, 'tx) rnstate \<Rightarrow> bool" for N where
  rt_beat: "\<not> cancelled e \<Longrightarrow> rt_heartbeat N (n, b, e) = (Ok (), s') \<Longrightarrow> rt_node_step N (n, b, e) s'"
| rt_task: "run_task (submission N) (rm_submitter (rn_manager n), b, world e) = (a, b', w) \<Longrightarrow>
    rt_node_step N (n, b, e) (n\<lparr>rn_manager := (rn_manager n)\<lparr>rm_submitter := a\<rparr>\<rparr>, b', e\<lparr>world := w\<rparr>)"
| rt_others: "(cancelled e \<longrightarrow> c) \<Longrightarrow> rt_node_step N (n, b, e) (n, b', e\<lparr>world := w, cancelled := c\<rparr>)"

section \<open>What the stages do to the manager\<close>

text \<open>Facts about the manager, and about the mode, which never changes.\<close>

abbreviation on_rn :: "(bool \<Rightarrow> 'tx rt_manager \<Rightarrow> bool) \<Rightarrow> ('w, 'tx) rnstate \<Rightarrow> bool" where
  "on_rn P \<equiv> (\<lambda>(n, _). P (rn_preconf_only n) (rn_manager n))"

lemma keeps_rn_frame [keeps_rules]:
  "keeps (on_rn P) (rn_env x)" "keeps (on_rn P) (rn_world y)" "keeps (on_rn P) (rn_op z)"
  "keeps (on_rn P) (rn_headv h)" "keeps (on_rn P) (rn_watch d)" "keeps (on_rn P) (rn_get f)"
  by (auto simp: triple_def rn_env_def rn_world_def rn_op_def rn_headv_def rn_watch_def rn_get_def zoom_def gets_def
      split: prod.splits)

lemma triple_rn_mgr:
  assumes "\<And>only. triple (on_rm (P only)) x (\<lambda>r. on_rm (Q r only))"
  shows "triple (on_rn P) (rn_mgr x) (\<lambda>r. on_rn (Q r))"
proof (rule tripleI, clarify)
  fix n b e r n' b' e'
  assume P: "P (rn_preconf_only n) (rn_manager n)" and run: "rn_mgr x (n, b, e) = (r, (n', b', e'))"
  obtain r' m s where x: "x (rn_manager n, b, world e) = (r', (m, s))" by (metis surj_pair)
  from tripleD [OF assms [of "rn_preconf_only n"] _ x] P have "Q r' (rn_preconf_only n) m" by simp
  with run x show "Q r (rn_preconf_only n') (rn_manager n')"
    by (auto simp: rn_mgr_def zoom_def split: prod.splits)
qed

lemmas keeps_rn_mgr = triple_rn_mgr [where Q = "\<lambda>_. P" and P = P for P]

lemma keeps_rt_set_head [keeps_rules]: "keeps (on_rn P) (rt_set_head info)"
  unfolding rt_set_head_def by (rule keeps_rules)

lemma keeps_rt_shut_down [keeps_rules]: "keeps (on_rn P) (rt_shut_down msg)"
  unfolding rt_shut_down_def by (intro keeps_rules)

lemma keeps_rt_slot_info [keeps_rules]: "keeps (on_rn P) (rt_get_slot_info_and_status N)"
  unfolding rt_get_slot_info_and_status_def rt_print_current_slots_info_def by (intro keeps_rules)

lemma keeps_rt_verify [keeps_rules]: "keeps (on_rn P) (rt_verify_preconfed_block b)"
  unfolding rt_verify_preconfed_block_def by (intro keeps_rules)

text \<open>Handling an error either leaves the manager alone or goes through the recovery.\<close>

lemma keeps_rt_error:
  assumes "keeps (on_rn P) (recover_from_failed_submission N)"
  shows "keeps (on_rn P) (rt_handle_transaction_error N err)"
    and "keeps (on_rn P) (handle_submission_failure N e)"
proof -
  show err: "keeps (on_rn P) (rt_handle_transaction_error N err)" for err
    using assms unfolding rt_handle_transaction_error_def by (cases err; simp; intro keeps_rules)
  show "keeps (on_rn P) (handle_submission_failure N e)"
    using assms err unfolding handle_submission_failure_def by (cases e) simp_all
qed

section \<open>Every submitted batch is in order\<close>

lemma keeps_recover: "keeps (on_rn (\<lambda>_. rm_ok True c)) (recover_from_failed_submission N)"
proof -
  let ?I = "\<lambda>linked. on_rn (\<lambda>_. rm_ok linked c)"
  have reset: "triple (?I False) (rn_mgr rm_reset_builder) (\<lambda>_. ?I True)"
    using triple_rn_mgr [OF reset_builder_ok [of False c True]] by (rule triple_conseq) auto
  have tail: "triple (?I False) (bind (rn_mgr rm_reset_builder) (\<lambda>_.
      bind (rn_world (rt_get_l2_slot_info (svc N))) rt_set_head)) (\<lambda>_. ?I True)"
    by (rule triple_bind [where R = "\<lambda>_. ?I True"], rule triple_conseq [OF reset])
      (auto split: outcome.splits intro: keeps_rules)
  show ?thesis
    unfolding recover_from_failed_submission_def
    by (rule triple_bind [where R = "\<lambda>_. ?I False", OF triple_conseq [OF triple_rn_mgr [OF triple_reorg]] tail])
      (auto split: outcome.splits)
qed

lemma keeps_rt_settle:
  fixes N :: "('w, 'tx) node_services"
  assumes "keeps (on_rn P) (recover_from_failed_submission N)"
    and "\<And>only. keeps (on_rm (P only) :: ('w, 'tx) rmstate \<Rightarrow> bool) poll_submission_result"
  shows "keeps (on_rn P) (rt_settle_stage N)"
proof -
  have recv: "keeps (on_rn P) (case r of
             Received err \<Rightarrow> bind (rt_handle_transaction_error N err) (\<lambda>_. return True)
           | ChannelEmpty \<Rightarrow> return False
           | Disconnected \<Rightarrow> rt_shut_down ''Transaction error channel disconnected'')" for r
    by (cases r; simp; intro keeps_rules keeps_rt_error [OF assms(1)])
  have fail: "keeps (on_rn P) (bind (handle_submission_failure N e) (\<lambda>_. return True))" for e
    by (intro keeps_rules keeps_rt_error [OF assms(1)])
  have "keeps (on_rn P) (case result of
         Some (Inl e) \<Rightarrow> bind (handle_submission_failure N e) (\<lambda>_. return True)
       | _ \<Rightarrow>
           bind (rn_world (try_recv_error (svc N))) (\<lambda>r.
           case r of
             Received err \<Rightarrow> bind (rt_handle_transaction_error N err) (\<lambda>_. return True)
           | ChannelEmpty \<Rightarrow> return False
           | Disconnected \<Rightarrow> rt_shut_down ''Transaction error channel disconnected''))" for result
    by (cases result; (cases "the result")?; simp; intro keeps_bind recv fail keeps_rn_frame)
  then show ?thesis
    unfolding rt_settle_stage_def
    by (intro keeps_bind keeps_if keeps_return keeps_rn_frame keeps_rn_mgr assms(2))
qed

lemma keeps_rt_main_step: "keeps (on_rn (\<lambda>_. rm_ok True c)) (rt_main_step N)"
proof -
  let ?I = "on_rn (\<lambda>_. rm_ok True c)"
  have due: "keeps ?I (rn_mgr (rm_should_new_block_be_created pending ctx))" for pending ctx
    unfolding rm_should_new_block_be_created_def by (intro keeps_rn_mgr keeps_rules)
  have preconf: "keeps ?I (rt_preconf_stage N st info pending)" for st info pending
    unfolding rt_preconf_stage_def Let_def
    by (intro keeps_rules due keeps_recover keeps_rn_mgr keeps_rm_preconfirm)
  have submit: "keeps ?I (rt_submit_stage N st)" for st
  proof -
    have "keeps ?I (case err of TxError t \<Rightarrow> rt_handle_transaction_error N t | _ \<Rightarrow> raise err)" for err
      by (cases err) (auto intro: keeps_rt_error keeps_recover keeps_raise)
    then show ?thesis
      unfolding rt_submit_stage_def
      by (intro keeps_bind keeps_if keeps_attempt keeps_rn_frame keeps_return keeps_rn_mgr keeps_drain keeps_try_start)
  qed
  have idle: "keeps ?I (rt_idle_stage st)" for st
    unfolding rt_idle_stage_def
    by (intro keeps_rules triple_rn_mgr triple_conseq [OF reset_builder_ok [of True c True]]) auto
  show ?thesis
    unfolding rt_main_step_def
    by (intro keeps_rules keeps_rt_settle keeps_recover keeps_poll preconf submit idle)
qed

definition rt_node_init :: "batch_builder_config \<Rightarrow> ('w, 'tx) rnstate \<Rightarrow> bool" where
  "rt_node_init c = (\<lambda>(n, b, e). \<exists>lag clk h. rn_manager n = rt_manager_new lag c clk h)"

interpretation rt: safe_system "rt_node_init c" "rt_node_step N" "on_rn (\<lambda>_. rm_ok True c)" for c and N :: "('w, 'tx) node_services"
proof
  fix s :: "('w, 'tx) rnstate"
  show "rt_node_init c s \<Longrightarrow> on_rn (\<lambda>_. rm_ok True c) s"
    by (auto simp: rt_node_init_def rm_ok_new)
next
  fix s t :: "('w, 'tx) rnstate"
  assume "on_rn (\<lambda>_. rm_ok True c) s" "rt_node_step N s t"
  from this(2,1) show "on_rn (\<lambda>_. rm_ok True c) t"
  proof cases
    case (rt_beat e n b)
    have "keeps (on_rn (\<lambda>_. rm_ok True c)) (rt_heartbeat N)"
      unfolding rt_heartbeat_def by (intro keeps_rules keeps_rt_main_step)
    from tripleD [OF this _ rt_beat(3)] rt_beat(1) \<open>on_rn (\<lambda>_. rm_ok True c) s\<close> show ?thesis by simp
  next
    case (rt_task n b e a b' w)
    then show ?thesis using \<open>on_rn (\<lambda>_. rm_ok True c) s\<close>
      by (auto simp: run_task_def rm_ok_def flight_ok_def split: option.splits flight.splits prod.splits outcome.splits)
  qed auto
qed

text \<open>
  C2: Every batch that the real-time node submits is in order. In every reachable state of the
  process, with the RPC server and the submission task running beside the loop, a batch whose
  submission is running has a block, is within the block limit of the configuration (one block always
  fits), carries the configured coinbase, has only blocks with its own coinbase and anchor, extends
  the block that the node holds for the last finalized one, and has every return signal that one of
  its L1 calls requires among its signal slots.
\<close>
theorem rt_submitted_batch_in_order:
  assumes "reach (rt_node_init c) (rt_node_step N) (n, b, e)"
    and "in_flight (rm_submitter (rn_manager n)) = Some (flight.Running p)"
  shows "rp_l2_blocks p \<noteq> [] \<and> length (rp_l2_blocks p) \<le> max 1 (unat (max_blocks_per_batch c)) \<and>
    rp_coinbase p = default_coinbase c \<and>
    (\<forall>x \<in> set (rp_l2_blocks p). b_coinbase x = rp_coinbase p \<and> b_anchor_block_number x = rp_max_anchor_block_number p) \<and>
    rp_last_finalized_block_hash p = rm_last_finalized_block_hash (rn_manager n) \<and>
    set (required_return_signals p) \<subseteq> set (rp_signal_slots p)"
proof -
  have ok: "rm_ok True c (rn_manager n)" using rt.reach_safe [OF assms(1)] by simp
  then have "batch_ok c p" "rp_l2_blocks p \<noteq> []" "rp_last_finalized_block_hash p = rm_last_finalized_block_hash (rn_manager n)"
    using assms(2) by (auto simp: rm_ok_def flight_ok_def)
  then show ?thesis
    by (fastforce simp: batch_ok_def batch_typed_def block_bound_def signals_covered_def required_return_signals_def
        List.map_filter_def)
qed

section \<open>While a submission is running\<close>

text \<open>The submission \<open>p\<close> is still running and nothing was built; or the node has been reset.\<close>

definition untouched :: "'tx rt_proposal \<Rightarrow> 'tx rt_builder \<Rightarrow> 'tx rt_manager \<Rightarrow> bool" where
  "untouched p b m \<longleftrightarrow> in_flight (rm_submitter m) = Some (flight.Running p) \<and> rm_builder m = b"

definition was_reset :: "'tx rt_manager \<Rightarrow> bool" where
  "was_reset m \<longleftrightarrow> in_flight (rm_submitter m) = None \<and> rt_is_empty (rm_builder m)"

lemma reset_builder_reset: "rm_reset_builder (m, s) = (r, (m', s')) \<Longrightarrow> r = Ok () \<and> was_reset m' \<and> s' = s"
  by (auto simp: rm_reset_builder_def rm_set_def modify_def was_reset_def abort_submission_def
      rt_is_empty_def rt_builder_new_def)

lemma keeps_reorg_frame:
  fixes N :: "('w, 'tx) node_services"
  assumes "\<And>m h. P m \<Longrightarrow> P (m\<lparr>rm_last_finalized_block_hash := h\<rparr>)"
  shows "keeps (on_rm P) (reorg_unproposed_blocks N)"
  unfolding reorg_unproposed_blocks_def
  by (intro keeps_rules keeps_rm_set assms)

lemma keeps_recover_untouched:
  "keeps (on_rn (\<lambda>x m. \<not> x \<and> (untouched p b m \<or> was_reset m))) (recover_from_failed_submission N)"
proof -
  let ?P = "\<lambda>x m. \<not> x \<and> (untouched p b m \<or> was_reset m)"
  have reset: "keeps (on_rn ?P) (rn_mgr rm_reset_builder)"
    by (rule keeps_rn_mgr, rule tripleI) (auto dest: reset_builder_reset)
  show ?thesis
    unfolding recover_from_failed_submission_def
    by (intro keeps_rules reset keeps_rn_mgr keeps_reorg_frame) (auto simp: untouched_def was_reset_def)
qed

lemma bind_rn_get [simp]: "bind (rn_get f) k (n, s) = k (f n) (n, s)"
  by (simp add: rn_get_def)

lemma poll_running:
  assumes "in_flight (rm_submitter m) = Some (flight.Running p)"
  shows "poll_submission_result (m, b, w) = (Ok None, (m, b, w))"
  using assms by (simp add: poll_submission_result_def try_recv_result_def)

lemma settle_running:
  fixes N :: "('w, 'tx) node_services"
  shows "triple (on_rn (\<lambda>x m. \<not> x \<and> untouched p b m)) (rt_settle_stage N)
    (\<lambda>r. on_rn (\<lambda>x m. \<not> x \<and> (untouched p b m \<or> was_reset m) \<and> (r = Ok False \<longrightarrow> untouched p b m)))"
proof -
  let ?D = "on_rn (\<lambda>x m. \<not> x \<and> untouched p b m) :: ('w, 'tx) rnstate \<Rightarrow> bool"
  let ?B = "on_rn (\<lambda>x m. \<not> x \<and> (untouched p b m \<or> was_reset m)) :: ('w, 'tx) rnstate \<Rightarrow> bool"
  let ?Q = "\<lambda>r. on_rn (\<lambda>x m. \<not> x \<and> (untouched p b m \<or> was_reset m) \<and> (r = Ok False \<longrightarrow> untouched p b m))
    :: ('w, 'tx) rnstate \<Rightarrow> bool"
  have "keeps ?B (rt_handle_transaction_error N err)" for err
    by (intro keeps_rt_error keeps_recover_untouched)
  then have handle: "triple ?B (bind (rt_handle_transaction_error N err) (\<lambda>_. return True)) ?Q" for err
    by (rule triple_bind_keeps) (auto intro: triple_return)
  have "keeps ?D (rt_shut_down msg)" for msg
    by (rule keeps_rules)
  then have down: "triple ?D (rt_shut_down msg :: (('w, 'tx) rnstate, bool) action) ?Q" for msg
    by (rule triple_conseq) auto
  have recv: "triple ?D (bind (rn_world (try_recv_error (svc N))) (\<lambda>r.
           case r of
             Received err \<Rightarrow> bind (rt_handle_transaction_error N err) (\<lambda>_. return True)
           | ChannelEmpty \<Rightarrow> return False
           | Disconnected \<Rightarrow> rt_shut_down ''Transaction error channel disconnected'')) ?Q"
  proof (rule triple_bind_keeps [OF keeps_rn_frame(2)])
    show "triple ?D (case r of
             Received err \<Rightarrow> bind (rt_handle_transaction_error N err) (\<lambda>_. return True)
           | ChannelEmpty \<Rightarrow> return False
           | Disconnected \<Rightarrow> rt_shut_down ''Transaction error channel disconnected'') ?Q" for r
      by (cases r) (auto intro: triple_pre [OF handle] triple_return down)
  qed auto
  show ?thesis
  proof (rule tripleI)
    fix s r t
    assume D: "?D s" and run: "rt_settle_stage N s = (r, t)"
    obtain n b' e where s: "s = (n, b', e)" by (cases s)
    with D have "rn_mgr poll_submission_result (n, b', e) = (Ok None, (n, b', e))"
      by (simp add: rn_mgr_def zoom_def poll_running untouched_def)
    with run s D have "bind (rn_world (try_recv_error (svc N))) (\<lambda>r.
           case r of
             Received err \<Rightarrow> bind (rt_handle_transaction_error N err) (\<lambda>_. return True)
           | ChannelEmpty \<Rightarrow> return False
           | Disconnected \<Rightarrow> rt_shut_down ''Transaction error channel disconnected'') s = (r, t)"
      by (simp add: rt_settle_stage_def bind_def [of "rn_mgr _"])
    from tripleD [OF recv D this] show "?Q r t" .
  qed
qed

lemma busy_stages:
  fixes N :: "('w, 'tx) node_services"
  shows "triple (on_rn (\<lambda>x m. \<not> x \<and> untouched p b m))
    (bind (if preconfirmation_started st then rt_set_head info else return ()) (\<lambda>_.
     bind (rt_preconf_stage N st info pending) (\<lambda>ended.
     if ended then return () else bind (rt_submit_stage N st) (\<lambda>_. rt_idle_stage st))))
    (\<lambda>_. on_rn (\<lambda>x m. \<not> x \<and> (untouched p b m \<or> was_reset m)))"
proof -
  let ?D = "on_rn (\<lambda>x m. \<not> x \<and> untouched p b m) :: ('w, 'tx) rnstate \<Rightarrow> bool"
  let ?B = "on_rn (\<lambda>x m. \<not> x \<and> (untouched p b m \<or> was_reset m)) :: ('w, 'tx) rnstate \<Rightarrow> bool"
  have idle: "triple ?D (rt_idle_stage st) (\<lambda>_. ?B)" for st
  proof -
    have "triple ?D (rn_mgr rm_reset_builder) (\<lambda>_. ?B)"
      by (rule triple_rn_mgr [where Q = "\<lambda>_ x m. \<not> x \<and> (untouched p b m \<or> was_reset m)"], rule tripleI)
        (auto dest: reset_builder_reset)
    then show ?thesis
      unfolding rt_idle_stage_def
      by (intro triple_bind_keeps keeps_rn_frame triple_if) (auto intro: triple_return)
  qed
  have stages: "triple ?D (bind (rt_preconf_stage N st info pending) (\<lambda>ended.
      if ended then return () else bind (rt_submit_stage N st) (\<lambda>_. rt_idle_stage st))) (\<lambda>_. ?B)" for st info pending
  proof (rule tripleI)
    fix s r t
    assume D: "?D s" and run: "bind (rt_preconf_stage N st info pending) (\<lambda>ended.
      if ended then return () else bind (rt_submit_stage N st) (\<lambda>_. rt_idle_stage st)) s = (r, t)"
    obtain k bs where s: "s = (k, bs)" by (cases s)
    with D have "rt_preconf_stage N st info pending s = (Ok False, s)" "rt_submit_stage N st s = (Ok (), s)"
      by (simp_all add: rt_preconf_stage_def rt_submit_stage_def is_submission_in_progress_def is_busy_def
          untouched_def return_def)
    with run have "rt_idle_stage st s = (r, t)" by (simp add: bind_def)
    from tripleD [OF idle D this] show "?B t" .
  qed
  show ?thesis
    by (rule triple_bind_keeps, (intro keeps_rules)[1], rule stages) auto
qed

text \<open>
  C24: While a submission is running the node neither builds a block nor starts another submission.
  A heartbeat that finds the submission of \<open>p\<close> running, whatever else it meets and however it
  ends, leaves the builder untouched and the same submission running, unless it resets the node:
  then no submission is in flight and the builder is empty.
\<close>
theorem rt_busy_node_waits:
  fixes N :: "('w, 'tx) node_services"
  assumes "rt_main_step N (n, b, e) = (r, (n', b', e'))" "\<not> rn_preconf_only n"
    and "in_flight (rm_submitter (rn_manager n)) = Some (flight.Running p)"
  shows "(in_flight (rm_submitter (rn_manager n')) = Some (flight.Running p) \<and>
      rm_builder (rn_manager n') = rm_builder (rn_manager n)) \<or>
    (in_flight (rm_submitter (rn_manager n')) = None \<and> rt_is_empty (rm_builder (rn_manager n')))"
proof -
  let ?b = "rm_builder (rn_manager n)"
  let ?D = "on_rn (\<lambda>x m. \<not> x \<and> untouched p ?b m) :: ('w, 'tx) rnstate \<Rightarrow> bool"
  let ?B = "on_rn (\<lambda>x m. \<not> x \<and> (untouched p ?b m \<or> was_reset m)) :: ('w, 'tx) rnstate \<Rightarrow> bool"
  have "triple ?D (rt_main_step N) (\<lambda>_. ?B)"
    unfolding rt_main_step_def
  proof (rule triple_bind_keeps [OF keeps_rt_slot_info])
    fix a :: "l2_slot_info \<times> status \<times> 'tx pre_built_tx_list option"
    obtain info st pending where a: "a = (info, st, pending)" by (cases a)
    show "triple ?D (case a of (info, st, pending) \<Rightarrow> bind (rt_settle_stage N) (\<lambda>ended.
        if ended then return ()
        else bind (if preconfirmation_started st then rt_set_head info else return ()) (\<lambda>_.
             bind (rt_preconf_stage N st info pending) (\<lambda>ended.
             if ended then return () else bind (rt_submit_stage N st) (\<lambda>_. rt_idle_stage st))))) (\<lambda>_. ?B)"
      unfolding a prod.case
      by (rule triple_bind [where R = "\<lambda>ended s. ?B s \<and> (\<not> ended \<longrightarrow> ?D s)", OF triple_conseq [OF settle_running]],
          blast, force split: outcome.splits, rule triple_if, rule triple_return, blast, rule triple_pre [OF busy_stages], blast)
  qed auto
  from tripleD [OF this _ assms(1)] assms(2,3) show ?thesis by (auto simp: untouched_def was_reset_def)
qed

section \<open>Recovery\<close>

lemma rn_mgr_Ok_iff:
  "rn_mgr x (n, b, e) = (Ok a, t) \<longleftrightarrow>
     (\<exists>m b' w. x (rn_manager n, b, world e) = (Ok a, (m, b', w)) \<and> t = (n\<lparr>rn_manager := m\<rparr>, b', e\<lparr>world := w\<rparr>))"
  by (auto simp: rn_mgr_def zoom_def split: prod.splits)

lemma rn_world_Ok_iff:
  "rn_world x (n, b, e) = (Ok a, t) \<longleftrightarrow> (\<exists>w. x (world e) = (Ok a, w) \<and> t = (n, b, e\<lparr>world := w\<rparr>))"
  by (auto simp: rn_world_def rn_env_def on_world_def zoom_def split: prod.splits)

text \<open>
  The recovery leaves a clean node. If it succeeds, no submission is in flight, the builder is
  empty, the chain has been taken back as \<open>reorg_unproposed_blocks\<close> does it, and the head verifier
  expects exactly the head that the L2 node reports afterwards, so that the next heartbeat passes
  the head check; nothing else of the node has changed.
\<close>
lemma rt_recovery_is_clean:
  assumes "recover_from_failed_submission N (n, b, e) = (Ok (), (n', b', e'))"
  shows "in_flight (rm_submitter (rn_manager n')) = None \<and> rt_is_empty (rm_builder (rn_manager n')) \<and>
    (\<exists>m w info. reorg_unproposed_blocks N (rn_manager n, b, world e) = (Ok (), (m, b', w)) \<and>
       rt_get_l2_slot_info (svc N) w = (Ok info, world e') \<and>
       head_verify (parent_id info) (parent_hash info) (rn_head n') \<and>
       rm_last_finalized_block_hash (rn_manager n') = rm_last_finalized_block_hash m) \<and>
    n' = n\<lparr>rn_manager := rn_manager n', rn_head := rn_head n'\<rparr> \<and> e' = e\<lparr>world := world e'\<rparr>"
proof -
  from assms obtain m b1 w1 m2 s2 info w3 where
    reorg: "reorg_unproposed_blocks N (rn_manager n, b, world e) = (Ok (), (m, b1, w1))"
    and reset: "rm_reset_builder (m, b1, w1) = (Ok (), (m2, s2))"
    and info: "rt_get_l2_slot_info (svc N) (snd s2) = (Ok info, w3)"
    and eq: "n' = n\<lparr>rn_manager := m2, rn_head := head_set (parent_id info) (parent_hash info) (rn_head n)\<rparr>"
      "b' = fst s2" "e' = e\<lparr>world := w3\<rparr>"
    by (fastforce simp: recover_from_failed_submission_def bind_Ok_iff rn_mgr_Ok_iff rn_world_Ok_iff rt_set_head_def
        rn_headv_def zoom_def modify_def)
  have hash: "rm_last_finalized_block_hash m2 = rm_last_finalized_block_hash m"
    using reset by (auto simp: rm_reset_builder_def rm_set_def modify_def)
  from reset_builder_reset [OF reset] reorg info eq hash show ?thesis
    by (auto simp: was_reset_def head_set_def head_verify_def)
qed

lemma slot_info_frame:
  assumes "rt_get_slot_info_and_status N (n, s) = (r, (n', s'))"
  shows "rn_manager n' = rn_manager n \<and> rn_preconf_only n' = rn_preconf_only n"
  using tripleD [OF keeps_rt_slot_info [of "\<lambda>x m. x = rn_preconf_only n \<and> m = rn_manager n" N] _ assms] by simp

text \<open>
  C40: Three transaction errors are ignored also when they end a submission: the heartbeat that
  receives one succeeds and only forgets the submission. The batch, which left the queue when it was
  submitted, is not put back, its blocks are not taken off the chain, and the last finalized block
  stays what it was, so the next batch will claim to extend a block that it does not follow.
\<close>
theorem rt_ignored_error_drops_batch:
  assumes "rt_get_slot_info_and_status N (n, b, e) = (Ok (info, st, pending), (n1, b1, e1))" "\<not> rn_preconf_only n"
    and "in_flight (rm_submitter (rn_manager n)) = Some (Delivered (Inl (TxError t)))"
    and "t \<in> {EstimationTooEarly, OldestForcedInclusionDue, NotTheOperatorInCurrentEpoch}"
  shows "rt_main_step N (n, b, e) =
    (Ok (), (n1\<lparr>rn_manager := (rn_manager n)\<lparr>rm_submitter := submitter_new\<rparr>\<rparr>, b1, e1))"
proof -
  note frame = slot_info_frame [OF assms(1)]
  have new: "a\<lparr>in_flight := None\<rparr> = submitter_new" for a :: "'c submitter"
    by (cases a) (simp add: submitter_new_def)
  let ?n = "n1\<lparr>rn_manager := (rn_manager n)\<lparr>rm_submitter := submitter_new\<rparr>\<rparr>"
  have poll: "rn_mgr poll_submission_result (n1, b1, e1) = (Ok (Some (Inl (TxError t))), (?n, b1, e1))"
    using frame assms(3) by (simp add: rn_mgr_def zoom_def poll_submission_result_def try_recv_result_def new)
  have handle: "handle_submission_failure N (TxError t) s = (Ok (), s)" for s
    using assms(4) by (auto simp: handle_submission_failure_def rt_handle_transaction_error_def return_def)
  have "rt_settle_stage N (n1, b1, e1) = (Ok True, (?n, b1, e1))"
    using frame assms(2) by (simp add: rt_settle_stage_def bind_def [of "rn_mgr _"] bind_def [of "handle_submission_failure N _"]
        poll handle return_def)
  with assms(1) show ?thesis by (simp add: rt_main_step_def bind_def return_def)
qed

section \<open>Preconfirming only\<close>

lemma drain_Ok:
  assumes "drain_finalized_batches (m, s) = (Ok (), (m', s'))"
  shows "rt_is_empty (rm_builder m') \<and> rm_submitter m' = rm_submitter m"
proof -
  from assms obtain b1 where b1: "finalize_if_needed False (rm_builder m) = (Ok (), b1)"
    and m': "m' = m\<lparr>rm_builder := pop_all (rm_last_finalized_block_hash m) b1\<rparr>"
    by (auto simp: drain_finalized_batches_def bind_Ok_iff rm_b_Ok_iff modify_def rm_get_def gets_def)
  have "rt_current b1 = None" using b1 by (auto simp: finalize_if_needed_def split: option.splits)
  with m' show ?thesis by (simp add: pop_all_eq rt_is_empty_def)
qed

lemma recover_no_flight:
  fixes N :: "('w, 'tx) node_services"
  shows "triple (on_rn (\<lambda>x m. x \<and> in_flight (rm_submitter m) = None)) (recover_from_failed_submission N)
    (\<lambda>r. on_rn (\<lambda>x m. x \<and> in_flight (rm_submitter m) = None \<and> (r = Ok () \<longrightarrow> rt_is_empty (rm_builder m))))"
proof -
  let ?I = "on_rn (\<lambda>x m. x \<and> in_flight (rm_submitter m) = None) :: ('w, 'tx) rnstate \<Rightarrow> bool"
  let ?E = "on_rn (\<lambda>x m. x \<and> was_reset m) :: ('w, 'tx) rnstate \<Rightarrow> bool"
  have reset: "triple ?I (rn_mgr rm_reset_builder) (\<lambda>_. ?E)"
    by (rule triple_rn_mgr [where Q = "\<lambda>_ x m. x \<and> was_reset m"], rule tripleI) (auto dest: reset_builder_reset)
  have tail: "triple ?I (bind (rn_mgr rm_reset_builder) (\<lambda>_.
      bind (rn_world (rt_get_l2_slot_info (svc N))) rt_set_head)) (\<lambda>_. ?E)"
    by (rule triple_bind [where R = "\<lambda>_. ?E"], rule triple_conseq [OF reset])
      (auto split: outcome.splits intro: keeps_rules)
  have "keeps ?I (rn_mgr (reorg_unproposed_blocks N))"
    by (intro keeps_rn_mgr keeps_reorg_frame) simp
  then show ?thesis
    unfolding recover_from_failed_submission_def
    by (rule triple_bind_keeps, intro triple_conseq [OF tail]) (auto simp: was_reset_def)
qed

lemma preconf_no_flight:
  fixes N :: "('w, 'tx) node_services"
  shows "triple (on_rn (\<lambda>x m. x \<and> in_flight (rm_submitter m) = None)) (rt_preconf_stage N st info pending)
    (\<lambda>r. on_rn (\<lambda>x m. x \<and> in_flight (rm_submitter m) = None \<and> (r = Ok True \<longrightarrow> rt_is_empty (rm_builder m))))"
proof -
  let ?I = "on_rn (\<lambda>x m. x \<and> in_flight (rm_submitter m) = None) :: ('w, 'tx) rnstate \<Rightarrow> bool"
  let ?Q = "\<lambda>r. on_rn (\<lambda>x m. x \<and> in_flight (rm_submitter m) = None \<and> (r = Ok True \<longrightarrow> rt_is_empty (rm_builder m)))
    :: ('w, 'tx) rnstate \<Rightarrow> bool"
  have recover: "triple ?I (bind (recover_from_failed_submission N) (\<lambda>_. return True)) ?Q"
    by (rule triple_bind [where R = "\<lambda>_. ?Q (Ok True)", OF triple_conseq [OF recover_no_flight]])
      (auto split: outcome.splits intro: triple_return)
  have due: "keeps ?I (rn_mgr (rm_should_new_block_be_created pending ctx))" for ctx
    unfolding rm_should_new_block_be_created_def by (intro keeps_rn_mgr keeps_rules)
  have flight: "keeps ?I (rn_mgr (rm_preconfirm_block N pending ctx))" for ctx
  proof (rule keeps_rn_mgr)
    show "keeps (on_rm (\<lambda>m. only \<and> in_flight (rm_submitter m) = None)) (rm_preconfirm_block N pending ctx)" for only
      using keeps_submitter_preconfirm [of None N pending ctx] by (auto simp: triple_def)
  qed
  have block: "triple ?I (bind (rn_mgr (rm_should_new_block_be_created pending ctx)) (\<lambda>due.
         bind (gets (\<lambda>(_, b, _). has_pending_user_ops b)) (\<lambda>user_ops.
         bind (if due \<and> (has_txs pending \<or> user_ops)
               then bind (rn_mgr (rm_preconfirm_block N pending ctx)) rt_verify_preconfed_block
               else return ()) (\<lambda>_. return False)))) ?Q" for ctx
    by (rule triple_bind_keeps [OF due], rule triple_bind_keeps [OF keeps_gets], rule triple_bind_keeps,
        (intro keeps_rules flight)[1], rule triple_return) auto
  show ?thesis
    unfolding rt_preconf_stage_def Let_def
    by (rule triple_bind_keeps [OF keeps_rn_frame(6)], rule triple_if,
        rule triple_bind_keeps [OF keeps_rn_frame(6)], rule triple_if, rule recover, rule block)
      (auto intro: triple_return)
qed

text \<open>The drain leaves the builder empty, so the idle stage finds nothing to reset.\<close>

lemma submit_no_flight:
  fixes N :: "('w, 'tx) node_services"
  shows "triple (on_rn (\<lambda>x m. x \<and> in_flight (rm_submitter m) = None))
    (bind (rt_submit_stage N st) (\<lambda>_. rt_idle_stage st))
    (\<lambda>r. on_rn (\<lambda>x m. x \<and> in_flight (rm_submitter m) = None \<and> (r = Ok () \<longrightarrow> rt_is_empty (rm_builder m))))"
proof -
  let ?I = "on_rn (\<lambda>x m. x \<and> in_flight (rm_submitter m) = None) :: ('w, 'tx) rnstate \<Rightarrow> bool"
  let ?E = "on_rn (\<lambda>x m. x \<and> was_reset m) :: ('w, 'tx) rnstate \<Rightarrow> bool"
  have b: "keeps (on_rm (\<lambda>m. in_flight (rm_submitter m) = None)) (rm_b a)"
    for a :: "('tx rt_builder, 'c) action"
    by (auto simp: triple_def rm_b_def zoom_def split: prod.splits)
  have keep: "keeps (on_rm (\<lambda>m. in_flight (rm_submitter m) = None) :: ('w, 'tx) rmstate \<Rightarrow> bool) drain_finalized_batches"
    unfolding drain_finalized_batches_def by (intro keeps_rules b)
  have drain: "triple ?I (rn_mgr drain_finalized_batches) (\<lambda>r. on_rn (\<lambda>x m. x \<and> in_flight (rm_submitter m) = None \<and>
      (r = Ok () \<longrightarrow> was_reset m)))"
  proof (rule triple_rn_mgr, rule tripleI)
    fix only s r t
    assume pre: "on_rm (\<lambda>m. only \<and> in_flight (rm_submitter m) = None) s"
      and run: "drain_finalized_batches s = (r, t :: ('w, 'tx) rmstate)"
    from tripleD [OF keep _ run] pre have "on_rm (\<lambda>m. in_flight (rm_submitter m) = None) t" by auto
    with pre run show "on_rm (\<lambda>m. only \<and> in_flight (rm_submitter m) = None \<and> (r = Ok () \<longrightarrow> was_reset m)) t"
      by (cases s; cases t) (auto simp: was_reset_def dest: drain_Ok)
  qed
  have submit: "triple ?I (rt_submit_stage N st) (\<lambda>r s. ?I s \<and> (r = Ok () \<longrightarrow> ?E s))"
  proof (rule tripleI)
    fix s r t
    assume I: "?I s" and run: "rt_submit_stage N st s = (r, t)"
    then have "rn_mgr drain_finalized_batches s = (r, t)" by (cases s) (simp add: rt_submit_stage_def)
    from tripleD [OF drain I this] show "?I t \<and> (r = Ok () \<longrightarrow> ?E t)" by auto
  qed
  have idle: "triple ?E (rt_idle_stage st) (\<lambda>_. ?E)"
    by (rule tripleI) (auto simp: rt_idle_stage_def has_batches_def was_reset_def return_def)
  show ?thesis
    by (rule triple_bind [where R = "\<lambda>_. ?E", OF triple_conseq [OF submit] triple_conseq [OF idle]])
      (auto split: outcome.splits simp: was_reset_def)
qed


text \<open>
  In PRECONF_ONLY mode nothing is kept for a proposal: if no submission is in flight before a
  heartbeat, none is started, and after a heartbeat that succeeds the builder is empty.
\<close>
lemma rt_preconf_only_keeps_nothing:
  fixes N :: "('w, 'tx) node_services"
  assumes "rt_main_step N (n, b, e) = (r, (n', b', e'))" "rn_preconf_only n"
    and "in_flight (rm_submitter (rn_manager n)) = None"
  shows "in_flight (rm_submitter (rn_manager n')) = None \<and>
    (r = Ok () \<longrightarrow> rt_is_empty (rm_builder (rn_manager n')))"
proof -
  let ?I = "on_rn (\<lambda>x m. x \<and> in_flight (rm_submitter m) = None) :: ('w, 'tx) rnstate \<Rightarrow> bool"
  let ?Q = "\<lambda>r. on_rn (\<lambda>x m. x \<and> in_flight (rm_submitter m) = None \<and> (r = Ok () \<longrightarrow> rt_is_empty (rm_builder m)))
    :: ('w, 'tx) rnstate \<Rightarrow> bool"
  have stages: "triple ?I (bind (rt_preconf_stage N st info pending) (\<lambda>ended.
      if ended then return () else bind (rt_submit_stage N st) (\<lambda>_. rt_idle_stage st))) ?Q" for st info pending
  proof (rule triple_bind [where R = "\<lambda>ended s. ?I s \<and> (ended \<longrightarrow> ?Q (Ok ()) s)"])
    show "triple ?I (rt_preconf_stage N st info pending) (\<lambda>r s. case r of
        Ok ended \<Rightarrow> ?I s \<and> (ended \<longrightarrow> ?Q (Ok ()) s) | Err e \<Rightarrow> ?Q (Err e) s | Panic \<Rightarrow> ?Q Panic s)"
      by (rule triple_conseq [OF preconf_no_flight]) (auto split: outcome.splits)
    show "triple (\<lambda>s. ?I s \<and> (ended \<longrightarrow> ?Q (Ok ()) s))
      (if ended then return () else bind (rt_submit_stage N st) (\<lambda>_. rt_idle_stage st)) ?Q" for ended
      by (cases ended) (auto intro: triple_return triple_pre [OF submit_no_flight])
  qed
  have settle: "triple ?I (rt_settle_stage N) (\<lambda>r s. ?I s \<and> r = Ok False)"
    by (rule tripleI) (auto simp: rt_settle_stage_def return_def)
  have "triple ?I (rt_main_step N) ?Q"
    unfolding rt_main_step_def
  proof (rule triple_bind_keeps [OF keeps_rt_slot_info])
    fix a :: "l2_slot_info \<times> status \<times> 'tx pre_built_tx_list option"
    obtain info st pending where a: "a = (info, st, pending)" by (cases a)
    have "triple ?I (bind (if preconfirmation_started st then rt_set_head info else return ()) (\<lambda>_.
             bind (rt_preconf_stage N st info pending) (\<lambda>ended.
             if ended then return () else bind (rt_submit_stage N st) (\<lambda>_. rt_idle_stage st)))) ?Q"
      by (rule triple_bind_keeps, (intro keeps_rules)[1], rule stages) auto
    then show "triple ?I (case a of (info, st, pending) \<Rightarrow> bind (rt_settle_stage N) (\<lambda>ended.
        if ended then return ()
        else bind (if preconfirmation_started st then rt_set_head info else return ()) (\<lambda>_.
             bind (rt_preconf_stage N st info pending) (\<lambda>ended.
             if ended then return () else bind (rt_submit_stage N st) (\<lambda>_. rt_idle_stage st))))) ?Q"
      unfolding a prod.case
      by (intro triple_bind [where R = "\<lambda>ended s. ?I s \<and> \<not> ended", OF triple_conseq [OF settle]])
        (auto intro: triple_pre triple_return split: if_splits)
  qed auto
  from tripleD [OF this _ assms(1)] assms(2,3) show ?thesis by auto
qed

section \<open>Successive submissions\<close>

lemma b_world_Ok_iff: "b_world x (b, w) = (Ok a, t) \<longleftrightarrow> (\<exists>w'. x w = (Ok a, w') \<and> t = (b, w'))"
  by (auto simp: b_world_def zoom_def split: prod.splits)

lemma obtain_proof_checkpoint:
  assumes "obtain_proof Q tracked p (b, w) = (Ok (Some p'), s')"
  shows "submission_result_of p' = submission_result_of p"
proof -
  from assms obtain p1 request w1 where "prepare_request Q p w = (Ok (p1, request), w1)"
    and p': "\<exists>zk. p' = p1\<lparr>rp_zk_proof := Some zk\<rparr>"
    by (auto simp: obtain_proof_def bind_Ok_iff attempt_Ok_iff return_def raise_def b_world_Ok_iff split: if_splits)
  then show ?thesis by (auto simp: submission_result_of_def elim: prepare_request_Ok)
qed

lemma submission_task_result:
  "submission_task Q tracked p s = (Ok res, s') \<Longrightarrow> res = submission_result_of p"
  by (cases s) (auto simp: submission_task_def send_proposal_def bind_Ok_iff attempt_Ok_iff return_def raise_def
      dest!: obtain_proof_checkpoint split: if_splits option.splits)

lemma run_task_result:
  assumes "in_flight a = Some (flight.Running p)" "run_task Q (a, s) = (a', s')"
    "in_flight a' = Some (Delivered (Inr res))"
  shows "res = submission_result_of p"
proof -
  have "\<exists>t. submission_wrapper Q True p s = (Ok (Inr res), t)"
    using assms by (auto simp: run_task_def split: prod.splits outcome.splits)
  then show ?thesis
    by (auto simp: submission_wrapper_def attempt_Ok_iff bind_Ok_iff return_def dest: submission_task_result)
qed

lemma rm_pop_cases:
  assumes "rm_pop (m, s) = (r, t)"
  obtains x b where "r = Ok x" "t = (m\<lparr>rm_builder := b\<rparr>, s)"
    "\<forall>p. x = Some p \<longrightarrow> rp_last_finalized_block_hash p = rm_last_finalized_block_hash m"
proof -
  obtain x b where b: "pop_oldest_batch (rm_last_finalized_block_hash m) (rm_builder m) = (x, b)" by fastforce
  have "rp_last_finalized_block_hash p = rm_last_finalized_block_hash m" if "x = Some p" for p
    using b that by (auto elim: pop_oldest_batch_Some)
  with b assms show thesis by (intro that [of x b]) (simp_all add: rm_pop_def)
qed

lemma try_start_links:
  fixes N :: "('w, 'tx) node_services"
  shows "triple (on_rm (\<lambda>m. in_flight (rm_submitter m) = None \<and> rm_last_finalized_block_hash m = h))
    (try_start_submission N full)
    (\<lambda>_. on_rm (\<lambda>m. \<forall>q. in_flight (rm_submitter m) = Some (flight.Running q) \<longrightarrow> rp_last_finalized_block_hash q = h))"
proof -
  let ?P = "on_rm (\<lambda>m. in_flight (rm_submitter m) = None \<and> rm_last_finalized_block_hash m = h) :: ('w, 'tx) rmstate \<Rightarrow> bool"
  let ?Q = "\<lambda>_. on_rm (\<lambda>m. \<forall>q. in_flight (rm_submitter m) = Some (flight.Running q) \<longrightarrow> rp_last_finalized_block_hash q = h)
    :: ('w, 'tx) rmstate \<Rightarrow> bool"
  have b: "keeps ?P (rm_b x)" for x :: "('tx rt_builder, 'c) action"
    by (auto simp: triple_def rm_b_def zoom_def split: prod.splits)
  have pop: "triple ?P rm_pop (\<lambda>r s. case r of
      Ok x \<Rightarrow> ?P s \<and> (\<forall>p. x = Some p \<longrightarrow> rp_last_finalized_block_hash p = h) | _ \<Rightarrow> ?P s)"
    by (rule tripleI) (auto elim!: rm_pop_cases)
  have submit: "triple ?P (rm_submit p) ?Q" if "rp_last_finalized_block_hash p = h" for p
    using that by (auto simp: triple_def rm_submit_def zoom_def submit_def is_busy_def)
  have push: "triple ?P (rm_b (modify (push_front_batch p))) ?Q" for p
    by (rule triple_conseq [OF b]) auto
  have rest: "triple (\<lambda>s. ?P s \<and> (\<forall>p. r = Some p \<longrightarrow> rp_last_finalized_block_hash p = h))
      (case r of None \<Rightarrow> return () | Some batch \<Rightarrow>
        bind (rm_world (transaction_in_progress (svc N))) (\<lambda>in_progress.
        if in_progress then rm_b (modify (push_front_batch batch)) else rm_submit batch)) ?Q" for r
  proof (cases r)
    case None
    then show ?thesis by (auto simp: triple_def return_def)
  next
    case (Some p)
    have send: "triple ?P (bind (rm_world (transaction_in_progress (svc N))) (\<lambda>in_progress.
        if in_progress then rm_b (modify (push_front_batch p)) else rm_submit p)) ?Q" if "rp_last_finalized_block_hash p = h"
      by (rule triple_bind_keeps [OF keeps_rm_world], rule triple_if, rule push, rule submit [OF that]) auto
    show ?thesis
    proof (cases "rp_last_finalized_block_hash p = h")
      case True
      show ?thesis unfolding Some option.simps by (rule triple_pre [OF send [OF True]]) simp
    next
      case False
      then show ?thesis unfolding Some option.simps by (intro tripleI) simp
    qed
  qed
  have tail: "triple ?P (bind rm_pop (\<lambda>r. case r of None \<Rightarrow> return () | Some batch \<Rightarrow>
        bind (rm_world (transaction_in_progress (svc N))) (\<lambda>in_progress.
        if in_progress then rm_b (modify (push_front_batch batch)) else rm_submit batch))) ?Q"
    by (rule triple_bind [OF triple_conseq [OF pop] rest], blast) (auto split: outcome.splits)
  show ?thesis
    unfolding try_start_submission_def
    by (rule triple_bind_keeps [OF keeps_rm_get], rule triple_if, rule triple_return, force,
        rule triple_bind_keeps [OF b], rule tail) auto
qed

text \<open>
  C11: Successive submissions are linked. When the submission of \<open>p\<close> has run to its end and the node
  takes its success, the next batch it submits extends the checkpoint of \<open>p\<close>: the block hash of that
  checkpoint is its last finalized block, and the number of that checkpoint is what the RPC server
  shows.
\<close>
theorem rt_submissions_linked:
  assumes "in_flight (rm_submitter m) = Some (flight.Running p)"
    and "run_task (submission N) (rm_submitter m, b, w) = (a, b1, w1)"
    and "poll_submission_result (m\<lparr>rm_submitter := a\<rparr>, b1, w1) = (Ok (Some (Inr ())), (m2, b2, w2))"
    and "try_start_submission N full (m2, b2, w2) = (r, (m3, s3))"
    and "in_flight (rm_submitter m3) = Some (flight.Running q)"
  shows "rp_last_finalized_block_hash q = cp_block_hash (rp_checkpoint p) \<and>
    unat (last_finalized_block_number b2) = unat (cp_block_number (rp_checkpoint p))"
proof -
  from assms(3) obtain res where res: "in_flight a = Some (Delivered (Inr res))"
    and m2: "in_flight (rm_submitter m2) = None" "rm_last_finalized_block_hash m2 = new_last_finalized_block_hash res"
      "last_finalized_block_number b2 = new_last_finalized_block_number res"
    by (auto simp: poll_submission_result_def try_recv_result_def
        split: option.splits flight.splits sum.splits prod.splits)
  have "res = submission_result_of p" by (rule run_task_result [OF assms(1,2) res])
  with m2 tripleD [OF try_start_links [of "new_last_finalized_block_hash res" N full] _ assms(4)] assms(5)
  show ?thesis
    using unat_lt_len [of "cp_block_number (rp_checkpoint p)"]
    by (simp add: submission_result_of_def unsigned_ucast_eq take_bit_nat_eq_self)
qed

section \<open>A node at work\<close>

text \<open>Concrete data: the chain and the clock of the Shasta example, and a node whose turn it is.\<close>

definition demo_live_nodes :: "(unit, nat) node_services" where
  "demo_live_nodes = demo_nodes\<lparr>submission := demo_good\<lparr>propose :=
     (propose demo_good)\<lparr>rt := demo_rt_services\<lparr>base := demo_node_services\<rparr>\<rparr>\<rparr>\<rparr>"

lemma demo_live_svc: "svc demo_live_nodes = demo_node_services"
  by (simp add: demo_live_nodes_def)

definition demo_rt_node :: "nat flight option \<Rightarrow> nat rt_node" where
  "demo_rt_node fl =
     \<lparr>rn_watchdog = watchdog_new 10, rn_operator = demo_operator,
      rn_manager = demo_rt_manager\<lparr>rm_submitter := \<lparr>in_flight = fl\<rparr>\<rparr>,
      rn_head = head_verifier_new, rn_preconf_only = False\<rparr>"

lemma demo_rt_status:
  obtains info st pending n1 e1 where "rt_get_slot_info_and_status demo_live_nodes (demo_rt_node fl, b, fresh_env ()) =
    (Ok (info, st, pending), (n1, b, e1))" "rn_manager n1 = rn_manager (demo_rt_node fl)" "\<not> rn_preconf_only n1"
    "preconfer st"
proof -
  have number: "get_number_of_batches (rm_builder demo_rt_manager) = Ok 1"
    by (simp add: demo_rt_manager_def demo_rt_builder1_def demo_rt_builder_def rt_builder_new_def
        get_number_of_batches_def eval_arith del: checked_iffs try_from_Ok_iff)
  show thesis
    by (rule that, simp add: rt_get_slot_info_and_status_def number demo_live_svc rt_print_current_slots_info_def
        rt_operators_def rn_env_def rn_world_def rn_op_def rn_get_def rt_get_l2_slot_info_def
        rt_get_l2_slot_info_by_parent_block_def demo_rt_node_def node_eval del: checked_iffs)
      (simp_all add: demo_rt_node_def)
qed

theorem rt_busy_node_waits_witness:
  "\<exists>n' b' e'. rt_main_step demo_live_nodes
      (demo_rt_node (Some (flight.Running demo_proved_batch)), demo_bridge, fresh_env ()) = (Ok (), (n', b', e')) \<and>
     in_flight (rm_submitter (rn_manager n')) = Some (flight.Running demo_proved_batch) \<and>
     rm_builder (rn_manager n') = rm_builder demo_rt_manager"
proof -
  let ?n = "demo_rt_node (Some (flight.Running demo_proved_batch))"
  obtain info st pending n1 e1 where info: "rt_get_slot_info_and_status demo_live_nodes (?n, demo_bridge, fresh_env ()) =
      (Ok (info, st, pending), (n1, demo_bridge, e1))"
    and n1: "rn_manager n1 = rn_manager ?n" "\<not> rn_preconf_only n1" "preconfer st" by (rule demo_rt_status)
  have fl: "in_flight (rm_submitter (rn_manager n1)) = Some (flight.Running demo_proved_batch)"
    by (simp add: n1 demo_rt_node_def)
  have recv: "rn_world (try_recv_error (svc demo_live_nodes)) s = (Ok ChannelEmpty, s)" for s
    by (cases s) (simp add: demo_live_svc demo_node_services_def demo_services_def rn_world_def rn_env_def on_world_def
        zoom_def return_def)
  have poll: "rn_mgr poll_submission_result (n1, demo_bridge, e1) = (Ok None, (n1, demo_bridge, e1))"
    using fl by (simp add: rn_mgr_def zoom_def poll_running)
  have settle: "rt_settle_stage demo_live_nodes (n1, demo_bridge, e1) = (Ok False, (n1, demo_bridge, e1))"
    using n1 by (simp add: rt_settle_stage_def bind_def [of "rn_mgr _"] bind_def [of "rn_world _"] poll recv return_def)
  obtain n2 where head: "(if preconfirmation_started st then rt_set_head info else return ()) (n1, demo_bridge, e1) =
      (Ok (), (n2, demo_bridge, e1))" and n2: "rn_manager n2 = rn_manager n1" "\<not> rn_preconf_only n2"
    using n1 by (cases "preconfirmation_started st") (simp_all add: rt_set_head_def rn_headv_def zoom_def modify_def return_def)
  have rest: "rt_preconf_stage demo_live_nodes st info pending (n2, demo_bridge, e1) = (Ok False, (n2, demo_bridge, e1))"
    "rt_submit_stage demo_live_nodes st (n2, demo_bridge, e1) = (Ok (), (n2, demo_bridge, e1))"
    "rt_idle_stage st (n2, demo_bridge, e1) = (Ok (), (n2, demo_bridge, e1))"
    using n2 fl n1(3) by (simp_all add: rt_preconf_stage_def rt_submit_stage_def rt_idle_stage_def return_def
        is_submission_in_progress_def is_busy_def)
  have run: "rt_main_step demo_live_nodes (?n, demo_bridge, fresh_env ()) = (Ok (), (n2, demo_bridge, e1))"
    by (simp add: rt_main_step_def bind_def info settle head rest)
  have "rm_builder (rn_manager n2) = rm_builder (rn_manager ?n)"
    using rt_busy_node_waits [OF run _ _] n2(1) fl by (simp add: demo_rt_node_def)
  with run n2(1) fl show ?thesis by (auto simp: demo_rt_node_def)
qed

theorem rt_ignored_error_drops_batch_witness:
  "\<exists>n1 e1. rt_main_step demo_live_nodes
      (demo_rt_node (Some (Delivered (Inl (TxError EstimationTooEarly)))), demo_bridge, fresh_env ()) =
     (Ok (), (n1\<lparr>rn_manager := demo_rt_manager\<rparr>, demo_bridge, e1))"
proof -
  let ?n = "demo_rt_node (Some (Delivered (Inl (TxError EstimationTooEarly))))"
  obtain info st pending n1 e1 where info: "rt_get_slot_info_and_status demo_live_nodes (?n, demo_bridge, fresh_env ()) =
      (Ok (info, st, pending), (n1, demo_bridge, e1))" by (rule demo_rt_status)
  have "rt_main_step demo_live_nodes (?n, demo_bridge, fresh_env ()) =
      (Ok (), (n1\<lparr>rn_manager := (rn_manager ?n)\<lparr>rm_submitter := submitter_new\<rparr>\<rparr>, demo_bridge, e1))"
    by (rule rt_ignored_error_drops_batch [OF info, where t = EstimationTooEarly]) (simp_all add: demo_rt_node_def)
  moreover have "(rn_manager ?n)\<lparr>rm_submitter := submitter_new\<rparr> = demo_rt_manager"
    by (simp add: demo_rt_node_def demo_rt_manager_def rt_manager_new_def)
  ultimately show ?thesis by auto
qed

definition demo_ready_batch :: "nat rt_proposal" where
  "demo_ready_batch = demo_proved_batch\<lparr>rp_zk_proof := Some [9], rp_blob_payload := Some demo_plain_payload\<rparr>"

lemma demo_sent: "send_batch_to_l1 (propose (submission demo_nodes)) demo_ready_batch () = (Ok (), ())"
  by (simp add: send_batch_to_l1_def get_forced_inclusion_state_def forced_inclusion_count_def rt_build_propose_tx_def
      rt_build_propose_blob_def required_return_signals_def List.map_filter_simps Let_def estimate_and_price_def
      get_fees_per_gas_def last_of_def demo_gas_def get_preconfer_nonce_pending_def saturating_sub_def
      build_inbox_calls_def blob_payload_of_def u48_from_def eval_arith bind_def return_def lift_def attempt_def map_err_def
      demo_nodes_def demo_good_def demo_submit_defs multicall_of_def inbox_call_def build_l1_call_call_def demo_provider_def
      demo_ready_batch_def demo_proved_batch_def demo_bridge_batch_def fresh_batch_def Realtime_Batch.demo_anchor_def get_account_nonce_def
      del: try_from_Ok_iff checked_iffs)

theorem rt_submissions_linked_witness:
  "\<exists>a b1 w1 m2 b2 w2 m3 s3 q.
     run_task (submission demo_nodes) (\<lparr>in_flight = Some (flight.Running demo_ready_batch)\<rparr>, demo_bridge, ()) = (a, b1, w1) \<and>
     in_flight (rm_submitter m3) = Some (flight.Running q) \<and> rp_l2_blocks q = [demo_rt_block] \<and>
     try_start_submission demo_nodes False (m2, b2, w2) = (Ok (), (m3, s3)) \<and>
     rp_last_finalized_block_hash q = 111 \<and> unat (last_finalized_block_number b2) = 11"
proof -
  let ?m = "demo_rt_manager\<lparr>rm_submitter := \<lparr>in_flight = Some (flight.Running demo_ready_batch)\<rparr>,
    rm_builder := demo_rt_builder\<lparr>rt_current := None, proposals_to_send := [demo_proved_batch]\<rparr>\<rparr>"
  let ?a = "\<lparr>in_flight = Some (Delivered (Inr (submission_result_of demo_ready_batch)))\<rparr>"
  have zk: "rp_zk_proof demo_ready_batch = Some [9]" by (simp add: demo_ready_batch_def)
  have fl: "in_flight (rm_submitter ?m) = Some (flight.Running demo_ready_batch)" by simp
  have task: "run_task (submission demo_nodes) (rm_submitter ?m, demo_bridge, ()) = (?a, demo_bridge, ())"
    by (simp add: run_task_def submission_wrapper_def submission_task_def zk send_proposal_def attempt_def b_world_def
        zoom_def demo_sent return_def)
  let ?m2 = "?m\<lparr>rm_submitter := \<lparr>in_flight = None\<rparr>, rm_last_finalized_block_hash := 111\<rparr>"
  let ?b2 = "demo_bridge\<lparr>last_finalized_block_number := 11\<rparr>"
  have poll: "poll_submission_result (?m\<lparr>rm_submitter := ?a\<rparr>, demo_bridge, ()) = (Ok (Some (Inr ())), (?m2, ?b2, ()))"
    by (simp add: poll_submission_result_def try_recv_result_def submission_result_of_def demo_ready_batch_def
        demo_proved_batch_def)
  obtain m3 s3 q where start: "try_start_submission demo_nodes False (?m2, ?b2, ()) = (Ok (), (m3, s3))"
    and q: "in_flight (rm_submitter m3) = Some (flight.Running q)" "rp_l2_blocks q = [demo_rt_block]"
    by (simp add: try_start_submission_def is_busy_def finalize_if_needed_def rm_pop_def pop_oldest_batch_def
        rm_submit_def submit_def rm_eval demo_svc demo_services_def demo_proved_batch_def)
  have "rp_last_finalized_block_hash q = 111 \<and> unat (last_finalized_block_number ?b2) = 11"
    using rt_submissions_linked [OF fl task poll start q(1)] by (simp add: demo_ready_batch_def demo_proved_batch_def)
  moreover have "run_task (submission demo_nodes) (\<lparr>in_flight = Some (flight.Running demo_ready_batch)\<rparr>, demo_bridge, ()) =
      (?a, demo_bridge, ())" using task by simp
  ultimately show ?thesis using start q by blast
qed

definition demo_single_config :: batch_builder_config where
  "demo_single_config = demo_batch_config\<lparr>max_blocks_per_batch := 1\<rparr>"

definition demo_fresh_node :: "nat rt_node" where
  "demo_fresh_node = (demo_rt_node None)\<lparr>rn_manager := rt_manager_new 2 demo_single_config mainnet_clock 4\<rparr>"

lemmas rt_beat_eval = rt_heartbeat_def rt_main_step_def rt_get_slot_info_and_status_def rt_print_current_slots_info_def
  rt_operators_def rt_get_l2_slot_info_def rt_get_l2_slot_info_by_parent_block_def rt_settle_stage_def rt_set_head_def
  rt_preconf_stage_def rt_submit_stage_def rt_idle_stage_def rt_verify_preconfed_block_def has_txs_def
  rn_env_def rn_world_def rn_op_def rn_get_def rn_headv_def rn_mgr_def rn_watch_def
  poll_submission_result_def try_recv_result_def submitter_new_def is_submission_in_progress_def is_busy_def
  try_start_submission_def finalize_if_needed_def rm_pop_def pop_oldest_batch_def rm_submit_def submit_def
  rm_should_new_block_be_created_def rt_should_new_block_be_created_def has_pending_user_ops_def get_number_of_batches_def
  rm_preconfirm_block_def rm_add_new_l2_block_def rt_last_timestamp_def rt_can_consume_l2_block_def
  rm_create_new_batch_def rt_get_last_synced_anchor_block_id_def create_new_batch_def finalize_current_batch_def
  fresh_batch_def checkpoint_default_def MIN_ANCHOR_OFFSET_def is_time_shift_expired_def
  rm_add_draft_block_to_proposal_def add_pending_user_ops_to_draft_block_def next_user_op_def
  rt_add_l2_draft_block_def rt_on_current_def rt_add_draft_def rt_add_l2_block_def rt_create_block_from_draft_def
  l2_block_new_from_def trace_tx_for_outbound_message_def send_message_of_def SEND_MESSAGE_SELECTOR_def
  simulate_l1_callback_return_signal_def rt_advance_head_def rt_construct_anchor_tx_def commit_block_def
  find_l1_call_def l2_message_loop.simps l2_find_message_and_signal_slot_def add_signal_slot_def
  set_proposal_checkpoint_def rt_is_greater_than_max_anchor_height_offset_def map_err_def eval_arith has_batches_def
  rt_is_time_shift_between_blocks_expiring_def

lemma demo_beat:
  "\<exists>n b e p. rt_heartbeat demo_live_nodes (demo_fresh_node, bridge_new 0, fresh_env ()) = (Ok (), (n, b, e)) \<and>
     in_flight (rm_submitter (rn_manager n)) = Some (flight.Running p)"
  by (simp add: rt_beat_eval rm_eval demo_fresh_node_def demo_rt_node_def rt_manager_new_def rt_builder_new_def
      demo_single_config_def demo_batch_config_def bridge_new_def demo_live_nodes_def demo_nodes_def demo_good_def
      demo_submit_defs node_eval del: checked_iffs try_from_Ok_iff)

theorem rt_submitted_batch_in_order_witness:
  "\<exists>n b e p. reach (rt_node_init demo_single_config) (rt_node_step demo_live_nodes) (n, b, e) \<and>
     in_flight (rm_submitter (rn_manager n)) = Some (flight.Running p) \<and>
     length (rp_l2_blocks p) = 1 \<and> rp_coinbase p = 7"
proof -
  obtain n b e p where beat: "rt_heartbeat demo_live_nodes (demo_fresh_node, bridge_new 0, fresh_env ()) = (Ok (), (n, b, e))"
    and p: "in_flight (rm_submitter (rn_manager n)) = Some (flight.Running p)"
    using demo_beat by blast
  have "rt_node_init demo_single_config (demo_fresh_node, bridge_new 0, fresh_env ())"
    by (auto simp: rt_node_init_def demo_fresh_node_def)
  then have "reach (rt_node_init demo_single_config) (rt_node_step demo_live_nodes) (demo_fresh_node, bridge_new 0, fresh_env ())"
    by (rule reach.start)
  then have r: "reach (rt_node_init demo_single_config) (rt_node_step demo_live_nodes) (n, b, e)"
    by (rule reach.move) (rule rt_node_step.rt_beat [OF _ beat], simp add: fresh_env_def)
  from rt_submitted_batch_in_order [OF r p]
  have "rp_l2_blocks p \<noteq> []" "length (rp_l2_blocks p) \<le> 1" "rp_coinbase p = 7"
    by (simp_all add: demo_single_config_def demo_batch_config_def)
  then have "length (rp_l2_blocks p) = 1" "rp_coinbase p = 7" by (cases "rp_l2_blocks p"; simp)+
  with r p show ?thesis by blast
qed

end
