(* ===== verification/Spec2Isabelle.thy ===== *)
theory Spec2Isabelle
  imports Startup Tx_Monitor Realtime_Node
begin

text \<open>
  A verification development for Catalyst, the preconfirmation node of the Taiko protocol.

  \<^bold>\<open>The program.\<close> The operator of an epoch builds L2 blocks every few seconds, has the L2 node execute
  them at once (\<^emph>\<open>preconfirmation\<close>), collects them into proposals, and submits the proposals to an
  inbox contract on L1. Catalyst is that operator's node. It comes in two variants that are modelled
  here: the Shasta node, and the real-time node, which has every batch proved before it submits it
  and carries messages between the two chains inside the same transaction. The parts, and the
  theories that model them, in the order in which they build on each other:

  \<^item> \<open>Slot_Clock\<close>, \<open>Fork_Info\<close> (\<^verbatim>\<open>src/common/src/l1/slot_clock.rs\<close>, \<^verbatim>\<open>src/common/src/fork_info/\<close>): time, in slots,
    epochs and forks.
  \<^item> \<open>L2_Blocks\<close>, \<open>Proposal\<close>, \<open>Proposal_Builder\<close> (\<^verbatim>\<open>src/common/src/shared/\<close>, \<^verbatim>\<open>proposal.rs\<close>,
    \<^verbatim>\<open>proposal_queue.rs\<close> and \<^verbatim>\<open>proposal_builder.rs\<close> of \<^verbatim>\<open>src/shasta/src/node/proposal_manager/\<close>): blocks, proposals,
    the queue of proposals, and the builder that fills it.
  \<^item> \<open>Extra_Data\<close> (\<^verbatim>\<open>src/shasta/src/l2/extra_data.rs\<close>): the bytes of an L2 header that carry the proposal id.
  \<^item> \<open>Services\<close>, \<open>Execution_Layers\<close> (\<^verbatim>\<open>execution_layer.rs\<close> and \<^verbatim>\<open>taiko.rs\<close> of \<^verbatim>\<open>src/shasta/src/l1/\<close> and
    \<^verbatim>\<open>src/shasta/src/l2/\<close>, \<^verbatim>\<open>src/common/src/shared/execution_layer.rs\<close>, \<^verbatim>\<open>src/common/src/l2/engine.rs\<close>): what the node
    asks of the two chains.
  \<^item> \<open>Block_Finder\<close> (\<^verbatim>\<open>src/shasta/src/node/last_safe_l2_block_finder/\<close>): the last L2 block the inbox has accepted.
  \<^item> \<open>Forced_Inclusion\<close> (\<^verbatim>\<open>src/shasta/src/forced_inclusion/\<close>): the cursor into the forced inclusions of the inbox.
  \<^item> \<open>Guards\<close> (\<^verbatim>\<open>head_verifier.rs\<close>, \<^verbatim>\<open>watchdog.rs\<close>): what makes the node stop itself.
  \<^item> \<open>Proposal_Manager\<close> (\<^verbatim>\<open>src/shasta/src/node/proposal_manager/mod.rs\<close>, \<^verbatim>\<open>block_advancer.rs\<close>): building, recovering
    and reanchoring blocks, on top of the builder, the cursor and the L2 node.
  \<^item> \<open>Operators_Cache\<close>, \<open>Operator_Status\<close> (\<^verbatim>\<open>src/pacaya/src/l1/operators_cache/\<close>, \<^verbatim>\<open>src/pacaya/src/node/operator/\<close>): whose
    turn it is.
  \<^item> \<open>Verifier\<close> (\<^verbatim>\<open>src/shasta/src/node/verifier.rs\<close>): the check of the blocks of the previous operator.
  \<^item> \<open>Shasta_Node\<close>, \<open>Startup\<close> (\<^verbatim>\<open>src/shasta/src/node/mod.rs\<close>): the node itself, its main step, its loop and its
    start.
  \<^item> \<open>Tx_Monitor\<close> (\<^verbatim>\<open>transaction_monitor.rs\<close> and \<^verbatim>\<open>alloy_tools.rs\<close> of \<^verbatim>\<open>src/common/src/shared/\<close>,
    \<^verbatim>\<open>src/common/src/l1/tools.rs\<close>): the task that sends an L1 transaction and replaces it until it is included.
  \<^item> \<open>Blobs\<close> (\<^verbatim>\<open>src/realtime/src/privacy/\<close>, \<^verbatim>\<open>src/common/src/blob/blob_parser.rs\<close>): the payload of a blob, plain or
    encrypted, and how blobs are read back.
  \<^item> \<open>Proposal_Tx\<close> (\<^verbatim>\<open>src/common/src/l1/fees_per_gas.rs\<close>, \<^verbatim>\<open>proposal_tx_builder.rs\<close> of \<^verbatim>\<open>src/shasta/src/l1/\<close> and
    \<^verbatim>\<open>src/realtime/src/l1/\<close>): the transactions that carry proposals to L1, with their fees.
  \<^item> \<open>Realtime_Batch\<close> (\<^verbatim>\<open>proposal.rs\<close> and \<^verbatim>\<open>batch_builder.rs\<close> of \<^verbatim>\<open>src/realtime/src/node/proposal_manager/\<close>): the
    batches of the real-time node.
  \<^item> \<open>Bridge\<close> (\<^verbatim>\<open>bridge_handler.rs\<close> there, and the call traces of the execution layers under \<^verbatim>\<open>src/realtime/src/\<close>):
    user operations, their status, and the search for bridge messages.
  \<^item> \<open>Async_Submitter\<close> (\<^verbatim>\<open>async_submitter.rs\<close> there, \<^verbatim>\<open>src/realtime/src/raiko/\<close>): the background task that has a batch
    proved and sent.
  \<^item> \<open>Realtime_Manager\<close> (\<^verbatim>\<open>mod.rs\<close> there, \<^verbatim>\<open>src/realtime/src/l2/\<close>): preconfirming, submitting and taking back blocks.
  \<^item> \<open>Realtime_Node\<close> (\<^verbatim>\<open>src/realtime/src/node/mod.rs\<close>): the heartbeat of the real-time node, its recovery and its start.

  \<open>Prelude\<close> and \<open>Runs\<close> hold what the components share.

  \<^bold>\<open>How the code is modelled.\<close> Machine integers are words. The workspace is built with overflow checks,
  so arithmetic is checked and an overflow is the value \<open>Panic\<close> of the type \<open>outcome\<close>, next to \<open>Ok\<close> and
  \<open>Err\<close>. A method with a mutable receiver or an await is an \<open>action\<close>: a function from the state to an
  outcome and the new state; \<open>bind\<close> is the question mark operator, \<open>attempt\<close> a match on a result,
  \<open>zoom\<close> a call on a field. A call that may wait forever is a \<open>run\<close>, an action whose value may be
  \<^term>\<open>None\<close>. Structs are records and enums are datatypes, with the names of the code.

  The state of the node is a record \<open>node\<close> (watchdog, operator, manager, verifier, expected head)
  paired with an environment \<open>env\<close> (world, cancellation token, the two caches). The world is a type
  parameter: everything outside the process, read and changed through the record \<open>services\<close>: JSON-RPC
  providers, contracts, the L2 driver, the system clock, codecs and signatures. Services answer as
  they like, with errors and panics, and differently each time; a theorem that needs more says so in
  a hypothesis. Because the world may change in every call, the interleaving with other processes is
  covered; the other tasks of the process itself are steps of \<open>node_step\<close>. The transaction monitor
  has its own record \<open>l1_rpc\<close> and its own task state.

  The state of the real-time node is \<open>rt_node\<close>, next to the record \<open>bridge\<close> that it shares with the RPC
  server and the submission task, and the environment. Its services extend \<open>services\<close> in layers:
  \<open>rt_services\<close> (traces, logs, bridge contracts), \<open>propose_services\<close> (encoders, sidecars, cipher),
  \<open>submit_services\<close> (the prover) and \<open>node_services\<close> (driver and inbox). The operator is that of the Shasta
  node with another source of operators, the argument of \<open>get_status_of\<close>. Heartbeats, the background
  task and everything else that touches the bridge are the steps of \<open>rt_node_step\<close>.

  \<^bold>\<open>What is shown.\<close>
  \<^item> Of the node: in every reachable state at most one proposal is in flight and all limits are kept
    (\<open>node_single_flight\<close>); a submission never meets a proposal in flight; an error of a transaction is
    never swallowed; a node that is off duty holds nothing; the node does not start before the chain
    is ready. The invariant is proved operation by operation as Hoare triples, collected in
    \<open>keeps_rules\<close>, from the builder up to the heartbeat.
  \<^item> Of the manager and the builder: a block enters the log of blocks exactly if the L2 node accepted it
    (\<open>add_block_atomic\<close>); admitted blocks fit; the oldest proposal is the one submitted; when a block
    is due. The log \<open>all_blocks\<close> is the abstract view of the builder that these theorems speak about.
  \<^item> Of the verifier: recovery rebuilds exactly the blocks of the chain, in order.
  \<^item> Of the operator: no two nodes have the same role at the same time; a turn is reported to start once;
    sequencing ends in the last L2 slot before the handover; the cache of operators is sound.
  \<^item> Of the block finder: the binary search finds the last block of the target, in a logarithmic number
    of steps, and the cache stays coherent.
  \<^item> Of the transaction monitor: a task that signals no error has seen its transaction included;
    replacements double the fees; the task ends if L1 keeps producing blocks; one task at a time.
  \<^item> Of the real-time node: in every reachable state a batch whose submission is running has blocks, is
    within its limits, extends the last finalized block, and lists every return signal it requires
    (\<open>rt_submitted_batch_in_order\<close>); a heartbeat neither builds nor submits while a submission runs;
    successive submissions are linked by their checkpoints; the recovery leaves a clean node.
  \<^item> Of its batches: the builder refines a log of sealed and open batches (\<open>rt_builder_refines_log\<close>), loses
    no block and keeps its batches well formed.
  \<^item> Of its submissions: the blobs posted to L1 are the blobs that were proved, also when they are
    encrypted; the prover is asked for exactly the blocks of the batch; a proof is delivered exactly
    if the prover is ready within the retries; user operations are marked executed exactly if the
    transaction is confirmed, and rejected on every failure.
  \<^item> Of the bridge: no accepted user operation is lost or duplicated; the searches through call traces
    are complete; the multicall runs each call after the one that emits its signals; a block that
    was preconfirmed is recorded with its operation, signals and checkpoint.
  \<^item> Of time and data: slots partition time, the header encoding is a bijection, forks, anchors,
    forced inclusion cursor, head verifier and watchdog meet their specifications.
  \<^item> Where the code does not do what it means to do, the theorem states what it does: a rollback or a
    finalisation that loses forced inclusions, a search that misses the safe head, a cursor that is
    not put back, a start slot that is lost, a task handle that is awaited twice, clock readings
    that straddle an epoch, an included transaction reported as failed, a failed search that reorgs
    the chain to its genesis, an ignored error that drops a batch, and statuses that stay pending.

  \<^bold>\<open>Interfaces.\<close> Each contract between components is a locale, interpreted on the model:
  \<open>time_grid\<close> for the three divisions of time, \<open>submission_queue\<close> for the queue of proposals, \<open>trip_counter\<close>
  for the watchdog and the counter of unsynced slots, \<open>safe_system\<close> for transition systems, the
  real-time process among them.

  \<^bold>\<open>Loops and bounds.\<close> Loops over lists and ranges are structural. The binary search is a
  \<open>partial_function\<close>, and shown to return. Polling loops are the one combinator \<open>poll\<close>, whose value is
  \<^term>\<open>None\<close> if no answer ever comes; \<open>poll_returns_iff\<close> says when it returns. The reanchoring loop has a
  counter of the code's own, and so have the requests to the prover and the search for the message of
  a block. The loop over a call trace keeps an explicit stack; the number of frames left bounds it.
  There is no fuel.

  \<^bold>\<open>What is not modelled.\<close> Metrics and log messages (except where a log line can fail); JSON-RPC and HTTP
  clients and servers; ABI encoding, blob commitments, ciphers, signatures, all parameters; the
  configuration from the process environment; the chain monitor, the funds controller; the node
  variant for the permissionless fork, and the lookahead and registry tools under \<^verbatim>\<open>src/urc\<close>. Text that the
  code interpolates into error messages is left out of the messages where nothing reads it.
\<close>

end
